(* ===== verification/Prelude.thy ===== *)
theory Prelude
  imports Main "HOL-Library.Word" "HOL-Library.Sublist" "HOL-Library.AList"
    "HOL-Library.Char_ord" "HOL-Library.List_Lexorder" "HOL-Library.Monad_Syntax"
begin

text \<open>
  Shared vocabulary of the development: the machine types of the C++ sources, the collections
  of simplification rules the component theories fill, and the list, association-list and word
  facts that several components use.
\<close>

named_theorems path_simps \<open>unfolding of path operations\<close>
named_theorems disk_simps \<open>unfolding of disk observations\<close>
named_theorems frame \<open>what an operation leaves alone\<close>
named_theorems session_defs \<open>definitions of the session handlers\<close>

type_synonym u8 = "8 word"
type_synonym u16 = "16 word"
type_synonym u32 = "32 word"
type_synonym u64 = "64 word"
type_synonym bytes = "u8 list"

abbreviation (input) UINT32_MAX :: u32 where "UINT32_MAX \<equiv> 4294967295"
abbreviation (input) UINT64_MAX :: u64 where "UINT64_MAX \<equiv> 18446744073709551615"

section \<open>Association lists\<close>

lemma map_of_AList_update [simp]: "map_of (AList.update k v al) = (map_of al)(k \<mapsto> v)"
  by (simp add: update_conv')

lemma map_of_AList_delete [simp]: "map_of (AList.delete k al) = (map_of al)(k := None)"
  by (simp add: delete_conv')

lemma map_of_filter_key: "map_of (filter (\<lambda>(k, v). P k) al) k = (if P k then map_of al k else None)"
  by (induction al) auto

lemma distinct_keys_update [simp]:
  "distinct (map fst al) \<Longrightarrow> distinct (map fst (AList.update k v al))"
  by (rule distinct_update)

lemma distinct_keys_delete [simp]:
  "distinct (map fst al) \<Longrightarrow> distinct (map fst (AList.delete k al))"
  by (rule distinct_delete)

lemma distinct_keys_filter [simp]:
  "distinct (map fst al) \<Longrightarrow> distinct (map fst (filter P al))"
  by (induction al) auto

text \<open>\<^verbatim>\<open>emplace\<close> keeps an entry that is already there.\<close>

definition emplace :: "'k \<Rightarrow> 'v \<Rightarrow> ('k \<times> 'v) list \<Rightarrow> ('k \<times> 'v) list" where
  "emplace k v al = (if map_of al k = None then (k, v) # al else al)"

lemma map_of_emplace: "map_of (emplace k v al) = (if map_of al k = None then (map_of al)(k \<mapsto> v) else map_of al)"
  by (simp add: emplace_def)

section \<open>Lists\<close>

lemma prefix_butlast_iff:
  "xs \<noteq> [] \<Longrightarrow> prefix us (butlast xs) \<longleftrightarrow> prefix us xs \<and> us \<noteq> xs"
  by (metis append_butlast_last_id butlast_snoc prefix_order.dual_order.strict_iff_order
      prefix_snoc prefix_length_le length_append_singleton not_less_eq_eq)

lemma append_eq_prefixD: "us @ vs = ws \<Longrightarrow> prefix us ws"
  by auto

section \<open>Decimal numbers\<close>

text \<open>\<^verbatim>\<open>std::to_string\<close> of an unsigned number.\<close>

fun dec :: "nat \<Rightarrow> string" where
  "dec n = (if n < 10 then [char_of (48 + n)] else dec (n div 10) @ [char_of (48 + n mod 10)])"

declare dec.simps [simp del]

definition undec :: "string \<Rightarrow> nat" where
  "undec s = foldl (\<lambda>n c. 10 * n + (of_char c - 48)) 0 s"

lemma undec_dec [simp]: "undec (dec n) = n"
proof (induction n rule: dec.induct)
  case (1 n)
  have digit: "of_char (char_of (48 + k) :: char) - 48 = (k :: nat)" if "k < 10" for k
    using that by (simp add: of_char_of take_bit_eq_mod)
  show ?case
  proof (cases "n < 10")
    case True
    then show ?thesis by (subst dec.simps) (simp add: undec_def digit)
  next
    case False
    then have "undec (dec n) = 10 * undec (dec (n div 10)) + (of_char (char_of (48 + n mod 10) :: char) - 48)"
      by (subst dec.simps) (simp add: undec_def)
    also have "\<dots> = 10 * (n div 10) + n mod 10"
      using 1 False digit [of "n mod 10"] by simp
    finally show ?thesis by simp
  qed
qed

lemma dec_inject [simp]: "dec m = dec n \<longleftrightarrow> m = n"
  by (metis undec_dec)

section \<open>Character classes\<close>

definition is_space :: "char \<Rightarrow> bool" where
  "is_space c \<longleftrightarrow> c \<in> {CHR '' '', CHR 0x09, CHR 0x0A, CHR 0x0B, CHR 0x0C, CHR 0x0D}"

definition is_digit :: "char \<Rightarrow> bool" where
  "is_digit c \<longleftrightarrow> CHR ''0'' \<le> c \<and> c \<le> CHR ''9''"

lemma is_digit_char: "is_digit (char_of (48 + n)) \<longleftrightarrow> n < 10" if "n < 200" for n :: nat
  using that by (auto simp: is_digit_def less_eq_char_def of_char_of take_bit_eq_mod)

lemma dec_digits: "dec n \<noteq> [] \<and> (\<forall>c\<in>set (dec n). is_digit c)"
proof (induction n rule: dec.induct)
  case (1 n)
  have "is_digit (char_of (48 + n mod 10))" "n < 10 \<Longrightarrow> is_digit (char_of (48 + n))"
    by (simp_all add: is_digit_char)
  with 1 show ?case by (subst (1 2) dec.simps) auto
qed

lemma dec_no_char: "\<not> is_digit c \<Longrightarrow> c \<notin> set (dec n)"
  using dec_digits by blast

section \<open>Words\<close>

lemma unat_u32_less: "unat (w :: u32) < 4294967296"
  using unsigned_less [of w] by simp

end
