(* ===== verification/Paths.thy ===== *)
theory Paths
  imports Prelude
begin

text \<open>
  The part of \<^verbatim>\<open>std::filesystem::path\<close> the sources use. A path is its sequence of elements: an
  absolute path is \<^verbatim>\<open>Abs\<close> of the file names after the root directory, a relative one \<^verbatim>\<open>Rel\<close>; a
  trailing separator shows as a last empty element, as path iteration gives it. The empty path is
  \<^verbatim>\<open>Rel []\<close>.
\<close>

type_synonym fname = string
type_synonym apath = "fname list"

datatype fpath = Abs apath | Rel apath

section \<open>Strings and elements\<close>

fun split_slash :: "string \<Rightarrow> string list" where
  "split_slash [] = [[]]"
| "split_slash (c # cs) =
     (if c = CHR ''/'' then [] # split_slash cs
      else case split_slash cs of [] \<Rightarrow> [[c]] | w # ws \<Rightarrow> (c # w) # ws)"

definition elements :: "string \<Rightarrow> apath" where
  "elements s =
     (let ws = split_slash s; names = filter (\<lambda>w. w \<noteq> []) (butlast ws)
      in names @ (if last ws \<noteq> [] then [last ws] else if names = [] then [] else [[]]))"

definition path_of_string :: "string \<Rightarrow> fpath" where
  "path_of_string s =
     (case s of [] \<Rightarrow> Rel []
      | c # cs \<Rightarrow> if c = CHR ''/'' then Abs (elements cs) else Rel (elements s))"

fun join_slash :: "apath \<Rightarrow> string" where
  "join_slash [] = []"
| "join_slash [w] = w"
| "join_slash (w # v # ws) = w @ CHR ''/'' # join_slash (v # ws)"

definition string_of_path :: "fpath \<Rightarrow> string" where
  "string_of_path p = (case p of Abs cs \<Rightarrow> CHR ''/'' # join_slash cs | Rel cs \<Rightarrow> join_slash cs)"

section \<open>Decomposition and composition\<close>

definition path_empty :: "fpath \<Rightarrow> bool" where
  "path_empty p \<longleftrightarrow> p = Rel []"

definition is_absolute :: "fpath \<Rightarrow> bool" where
  "is_absolute p = (case p of Abs _ \<Rightarrow> True | Rel _ \<Rightarrow> False)"

definition relative_path :: "fpath \<Rightarrow> fpath" where
  "relative_path p = (case p of Abs cs \<Rightarrow> Rel cs | Rel cs \<Rightarrow> Rel cs)"

definition append_names :: "apath \<Rightarrow> apath \<Rightarrow> apath" where
  "append_names as bs =
     (if bs = [] then (if as = [] \<or> last as = [] then as else as @ [[]])
      else if as \<noteq> [] \<and> last as = [] then butlast as @ bs else as @ bs)"

text \<open>\<^verbatim>\<open>operator/\<close>: an absolute right operand replaces the left one.\<close>

definition path_append :: "fpath \<Rightarrow> fpath \<Rightarrow> fpath" where
  "path_append p q =
     (case q of Abs _ \<Rightarrow> q
      | Rel bs \<Rightarrow> (case p of Abs as \<Rightarrow> Abs (append_names as bs) | Rel as \<Rightarrow> Rel (append_names as bs)))"

definition parent_path :: "fpath \<Rightarrow> fpath" where
  "parent_path p = (case p of Abs cs \<Rightarrow> Abs (butlast cs) | Rel cs \<Rightarrow> Rel (butlast cs))"

definition filename :: "fpath \<Rightarrow> fname" where
  "filename p = (case p of Abs cs \<Rightarrow> (if cs = [] then [] else last cs)
                 | Rel cs \<Rightarrow> (if cs = [] then [] else last cs))"

lemmas path_defs [path_simps] =
  path_empty_def is_absolute_def relative_path_def append_names_def path_append_def
  parent_path_def filename_def

section \<open>Lexical normal form\<close>

text \<open>
  Both steps of \<^verbatim>\<open>lexically_normal\<close> on an absolute path: \<^verbatim>\<open>.\<close> and empty elements go, \<^verbatim>\<open>..\<close> removes
  the name before it and vanishes at the root; a path whose last element was a dot, a dot-dot or
  empty keeps a trailing separator.
\<close>

fun norm_stack :: "apath \<Rightarrow> apath \<Rightarrow> apath" where
  "norm_stack st [] = st"
| "norm_stack st (c # cs) =
     (if c = [] \<or> c = ''.'' then norm_stack st cs
      else if c = ''..'' then norm_stack (butlast st) cs
      else norm_stack (st @ [c]) cs)"

definition lexically_normal :: "apath \<Rightarrow> apath" where
  "lexically_normal cs =
     (let st = norm_stack [] cs
      in if st \<noteq> [] \<and> cs \<noteq> [] \<and> last cs \<in> {[], ''.'', ''..''} then st @ [[]] else st)"

text \<open>A proper name: what a directory entry can be called.\<close>

definition proper_name :: "fname \<Rightarrow> bool" where
  "proper_name c \<longleftrightarrow> c \<noteq> [] \<and> c \<noteq> ''.'' \<and> c \<noteq> ''..'' \<and> CHR ''/'' \<notin> set c"

definition plain_name :: "fname \<Rightarrow> bool" where
  "plain_name c \<longleftrightarrow> c \<noteq> [] \<and> c \<noteq> ''.'' \<and> c \<noteq> ''..''"

lemma proper_plain: "proper_name c \<Longrightarrow> plain_name c"
  by (simp add: proper_name_def plain_name_def)

lemma norm_stack_plain:
  "list_all plain_name st \<Longrightarrow> list_all plain_name (norm_stack st cs)"
proof (induction st cs rule: norm_stack.induct)
  case (1 st)
  then show ?case by simp
next
  case (2 st c cs)
  have "list_all plain_name (butlast st)"
    using "2.prems" by (auto simp: list_all_iff dest: in_set_butlastD)
  moreover have "c \<noteq> [] \<Longrightarrow> c \<noteq> ''.'' \<Longrightarrow> c \<noteq> ''..'' \<Longrightarrow> plain_name c"
    by (simp add: plain_name_def)
  ultimately show ?case using 2 by simp
qed

lemma norm_stack_id: "list_all plain_name cs \<Longrightarrow> norm_stack st cs = st @ cs"
  by (induction cs arbitrary: st) (auto simp: plain_name_def)

lemma norm_stack_append: "norm_stack st (xs @ ys) = norm_stack (norm_stack st xs) ys"
  by (induction st xs rule: norm_stack.induct) auto

lemma norm_stack_trailing [simp]: "norm_stack st (xs @ [[]]) = norm_stack st xs"
  by (simp add: norm_stack_append)

lemma lexically_normal_shape:
  "lexically_normal cs = norm_stack [] cs \<or> lexically_normal cs = norm_stack [] cs @ [[]]"
  by (simp add: lexically_normal_def Let_def)

lemma lexically_normal_idem: "norm_stack [] (lexically_normal cs) = norm_stack [] cs"
proof -
  have "list_all plain_name (norm_stack [] cs)" by (simp add: norm_stack_plain)
  then have "norm_stack [] (norm_stack [] cs) = norm_stack [] cs" by (simp add: norm_stack_id)
  then show ?thesis using lexically_normal_shape [of cs] by auto
qed

section \<open>Parsing and printing\<close>

lemma split_slash_nonempty [simp]: "split_slash s \<noteq> []"
  by (cases s) (auto split: list.splits)

lemma split_slash_noslash: "CHR ''/'' \<notin> set w \<Longrightarrow> split_slash w = [w]"
  by (induction w) auto

lemma split_slash_append:
  "CHR ''/'' \<notin> set w \<Longrightarrow> split_slash (w @ CHR ''/'' # s) = w # split_slash s"
  by (induction w) auto

lemma split_slash_join:
  "ws \<noteq> [] \<Longrightarrow> (\<forall>w\<in>set ws. CHR ''/'' \<notin> set w) \<Longrightarrow> split_slash (join_slash ws) = ws"
  by (induction ws rule: join_slash.induct) (auto simp: split_slash_noslash split_slash_append)

text \<open>The element sequences that parsing produces.\<close>

definition wf_elements :: "apath \<Rightarrow> bool" where
  "wf_elements cs \<longleftrightarrow> (\<forall>w\<in>set cs. CHR ''/'' \<notin> set w) \<and> (\<forall>w\<in>set (butlast cs). w \<noteq> []) \<and> cs \<noteq> [[]]"

lemma elements_join: "wf_elements cs \<Longrightarrow> elements (join_slash cs) = cs"
proof (cases cs rule: rev_cases)
  case Nil
  then show ?thesis by (simp add: elements_def)
next
  case (snoc xs x)
  assume "wf_elements cs"
  with snoc have names: "\<forall>w\<in>set xs. w \<noteq> []" and sl: "\<forall>w\<in>set cs. CHR ''/'' \<notin> set w"
    and ne: "cs \<noteq> [[]]" by (auto simp: wf_elements_def)
  from names have "filter (\<lambda>w. w \<noteq> []) xs = xs" by (simp add: filter_id_conv)
  moreover have "x = [] \<Longrightarrow> xs \<noteq> []" using ne snoc by auto
  ultimately show ?thesis
    using sl snoc by (auto simp: elements_def split_slash_join)
qed

lemma path_string_roundtrip: "wf_elements cs \<Longrightarrow> path_of_string (string_of_path (Abs cs)) = Abs cs"
  by (simp add: path_of_string_def string_of_path_def elements_join)

text \<open>\<^verbatim>\<open>operator+=\<close> appends to the last name without a separator.\<close>

definition path_concat :: "fpath \<Rightarrow> string \<Rightarrow> fpath" where
  "path_concat p s =
     (case p of Abs cs \<Rightarrow> if cs = [] then Abs [s] else Abs (butlast cs @ [last cs @ s])
      | Rel cs \<Rightarrow> if cs = [] then path_of_string s else Rel (butlast cs @ [last cs @ s]))"

end
