(* ===== verification/Disk.thy ===== *)
theory Disk
  imports Paths
begin

text \<open>
  The file system the processes run on, and the \<^verbatim>\<open>std::filesystem\<close> and stream operations of the
  C++ standard library the sources call, as the POSIX implementation carries them out on a tree
  without symbolic links. Every operation that changes the disk may fail: \<^verbatim>\<open>faults\<close> is an arbitrary
  schedule that says, operation by operation, whether the device refuses it (full disk, missing
  permission, another device, ...), so a theorem about any disk is a theorem about any sequence of
  such errors. \<^verbatim>\<open>fd_limit\<close> bounds the nesting of open directory iterators, \<^verbatim>\<open>mtimes\<close> stands for the
  modification times the kernel reports.
\<close>

datatype node = Dir | File bytes

record disk =
  nodes :: "(apath \<times> node) list"
  faults :: "bool list"
  cwd :: apath
  fd_limit :: nat
  mtimes :: "apath \<Rightarrow> u64"

definition lookup :: "disk \<Rightarrow> apath \<Rightarrow> node option" where
  "lookup d q = map_of (nodes d) q"

definition isdir :: "disk \<Rightarrow> apath \<Rightarrow> bool" where
  "isdir d q \<longleftrightarrow> lookup d q = Some Dir"

definition put :: "disk \<Rightarrow> apath \<Rightarrow> node \<Rightarrow> disk" where
  "put d q n = d\<lparr>nodes := AList.update q n (nodes d)\<rparr>"

definition drop_node :: "disk \<Rightarrow> apath \<Rightarrow> disk" where
  "drop_node d q = d\<lparr>nodes := AList.delete q (nodes d)\<rparr>"

text \<open>The next entry of the fault schedule.\<close>

definition tick :: "disk \<Rightarrow> bool \<times> disk" where
  "tick d = (case faults d of [] \<Rightarrow> (False, d) | b # bs \<Rightarrow> (b, d\<lparr>faults := bs\<rparr>))"

section \<open>Path resolution\<close>

fun walk :: "disk \<Rightarrow> apath \<Rightarrow> apath \<Rightarrow> apath option" where
  "walk d st [] = (if lookup d st = None then None else Some st)"
| "walk d st (c # cs) =
     (if \<not> isdir d st then None
      else if c = [] \<or> c = ''.'' then walk d st cs
      else if c = ''..'' then walk d (butlast st) cs
      else walk d (st @ [c]) cs)"

definition locate :: "disk \<Rightarrow> fpath \<Rightarrow> apath option" where
  "locate d p = (case p of Abs cs \<Rightarrow> walk d [] cs
                 | Rel cs \<Rightarrow> if cs = [] then None else walk d (cwd d) cs)"

definition status :: "disk \<Rightarrow> fpath \<Rightarrow> node option" where
  "status d p = Option.bind (locate d p) (lookup d)"

text \<open>Where a path that need not exist yet would be created: its directory has to exist.\<close>

definition target :: "disk \<Rightarrow> fpath \<Rightarrow> apath option" where
  "target d p =
     (case (case p of Abs cs \<Rightarrow> ([], cs) | Rel cs \<Rightarrow> (cwd d, cs)) of (base, cs) \<Rightarrow>
        (let cs' = (if cs \<noteq> [] \<and> last cs = [] then butlast cs else cs)
         in if cs' = [] \<or> \<not> plain_name (last cs') then locate d p
            else case walk d base (butlast cs') of None \<Rightarrow> None
                 | Some st \<Rightarrow> if isdir d st then Some (st @ [last cs']) else None))"

definition trailing_slash :: "fpath \<Rightarrow> bool" where
  "trailing_slash p = (case p of Abs cs \<Rightarrow> cs \<noteq> [] \<and> last cs = [] | Rel cs \<Rightarrow> cs \<noteq> [] \<and> last cs = [])"

section \<open>System calls\<close>

definition sys_mkdir :: "disk \<Rightarrow> apath \<Rightarrow> bool \<times> disk" where
  "sys_mkdir d q =
     (let (err, d1) = tick d
      in if err \<or> q = [] \<or> lookup d1 q \<noteq> None \<or> \<not> isdir d1 (butlast q) then (False, d1)
         else (True, put d1 q Dir))"

definition has_children :: "disk \<Rightarrow> apath \<Rightarrow> bool" where
  "has_children d q \<longleftrightarrow> (\<exists>(k, n)\<in>set (nodes d). strict_prefix q k)"

definition sys_remove :: "disk \<Rightarrow> apath \<Rightarrow> bool \<times> disk" where
  "sys_remove d q =
     (let (err, d1) = tick d
      in if err \<or> q = [] \<or> lookup d1 q = None \<or> has_children d1 q then (False, d1)
         else (True, drop_node d1 q))"

definition sys_write :: "disk \<Rightarrow> apath \<Rightarrow> bytes \<Rightarrow> bool \<times> disk" where
  "sys_write d q bs =
     (let (err, d1) = tick d
      in if err \<or> q = [] \<or> lookup d1 q = Some Dir \<or> \<not> isdir d1 (butlast q) then (False, d1)
         else (True, put d1 q (File bs)))"

definition reroot :: "apath \<Rightarrow> apath \<Rightarrow> apath \<Rightarrow> apath" where
  "reroot s t k = (if prefix s k then t @ drop (length s) k else k)"

definition sys_rename :: "disk \<Rightarrow> apath \<Rightarrow> apath \<Rightarrow> bool \<times> disk" where
  "sys_rename d s t =
     (let (err, d1) = tick d
      in if err \<or> s = [] \<or> t = [] \<or> lookup d1 s = None \<or> \<not> isdir d1 (butlast t) then (False, d1)
         else if s = t then (True, d1)
         else if strict_prefix s t \<or> has_children d1 t then (False, d1)
         else if lookup d1 t \<noteq> None \<and> isdir d1 s \<noteq> isdir d1 t then (False, d1)
         else (True, d1\<lparr>nodes := map (\<lambda>(k, n). (reroot s t k, n)) (AList.delete t (nodes d1))\<rparr>))"

section \<open>Observations of std::filesystem\<close>

definition fs_exists :: "disk \<Rightarrow> fpath \<Rightarrow> bool" where
  "fs_exists d p \<longleftrightarrow> status d p \<noteq> None"

definition fs_is_regular_file :: "disk \<Rightarrow> fpath \<Rightarrow> bool" where
  "fs_is_regular_file d p = (case status d p of Some (File _) \<Rightarrow> True | _ \<Rightarrow> False)"

definition fs_is_directory :: "disk \<Rightarrow> fpath \<Rightarrow> bool" where
  "fs_is_directory d p \<longleftrightarrow> status d p = Some Dir"

definition fs_file_size :: "disk \<Rightarrow> fpath \<Rightarrow> nat option" where
  "fs_file_size d p = (case status d p of Some (File bs) \<Rightarrow> Some (length bs) | _ \<Rightarrow> None)"

definition fs_absolute :: "disk \<Rightarrow> fpath \<Rightarrow> fpath" where
  "fs_absolute d p =
     (case p of Abs _ \<Rightarrow> p | Rel cs \<Rightarrow> if cs = [] then Rel [] else Abs (append_names (cwd d) cs))"

text \<open>
  \<^verbatim>\<open>weakly_canonical\<close>: the canonical path of what exists, the rest normalised lexically. Without
  symbolic links the two agree up to a trailing separator, which the canonical form drops. The
  sources call it on absolute paths, on existing relative ones and on the empty path.
\<close>

definition weakly_canonical :: "disk \<Rightarrow> fpath \<Rightarrow> fpath" where
  "weakly_canonical d p =
     (case locate d p of Some q \<Rightarrow> Abs q
      | None \<Rightarrow> (case fs_absolute d p of Abs cs \<Rightarrow> Abs (lexically_normal cs) | Rel cs \<Rightarrow> Rel cs))"

fun common_rest :: "apath \<Rightarrow> apath \<Rightarrow> apath \<times> apath" where
  "common_rest (x # xs) (y # ys) = (if x = y then common_rest xs ys else (x # xs, y # ys))"
| "common_rest xs ys = (xs, ys)"

text \<open>\<^verbatim>\<open>fs::relative(path, base)\<close>: canonical forms, then \<^verbatim>\<open>lexically_relative\<close>.\<close>

definition lexically_relative :: "apath \<Rightarrow> apath \<Rightarrow> fpath" where
  "lexically_relative ps bs =
     (let (b, p) = common_rest bs ps; ups = length (filter plain_name b)
      in if ups = 0 \<and> (p = [] \<or> hd p = []) then Rel [''.'']
         else Rel (replicate ups ''..'' @ p))"

definition fs_relative :: "disk \<Rightarrow> fpath \<Rightarrow> fpath \<Rightarrow> fpath" where
  "fs_relative d p base =
     (case (weakly_canonical d p, weakly_canonical d base) of
        (Abs ps, Abs bs) \<Rightarrow> lexically_relative ps bs
      | _ \<Rightarrow> Rel [])"

section \<open>Operations of std::filesystem\<close>

text \<open>
  \<^verbatim>\<open>create_directories\<close> makes the missing directories from the root down. The result is the error
  flag and whether the last directory was created by this call.
\<close>

fun make_dirs :: "disk \<Rightarrow> apath \<Rightarrow> bool \<Rightarrow> apath \<Rightarrow> bool \<times> bool \<times> disk" where
  "make_dirs d st made [] = (isdir d st, made, d)"
| "make_dirs d st made (c # cs) =
     (if \<not> isdir d st then (False, False, d)
      else if c = [] \<or> c = ''.'' then make_dirs d st made cs
      else if c = ''..'' then make_dirs d (butlast st) made cs
      else if lookup d (st @ [c]) \<noteq> None then make_dirs d (st @ [c]) made cs
      else case sys_mkdir d (st @ [c]) of
             (True, d1) \<Rightarrow> make_dirs d1 (st @ [c]) True cs
           | (False, d1) \<Rightarrow> (False, False, d1))"

definition fs_create_directories :: "disk \<Rightarrow> fpath \<Rightarrow> bool \<times> bool \<times> disk" where
  "fs_create_directories d p =
     (case p of Abs cs \<Rightarrow> make_dirs d [] False cs
      | Rel cs \<Rightarrow> if cs = [] then (False, False, d) else make_dirs d (cwd d) False cs)"

definition fs_remove :: "disk \<Rightarrow> fpath \<Rightarrow> bool \<times> bool \<times> disk" where
  "fs_remove d p =
     (case locate d p of None \<Rightarrow> (True, False, d)
      | Some q \<Rightarrow> (case sys_remove d q of (ok, d1) \<Rightarrow> (ok, ok, d1)))"

text \<open>The nodes below a directory, in the order the iterators meet them, and the removal order.\<close>

definition below :: "disk \<Rightarrow> apath \<Rightarrow> (apath \<times> node) list" where
  "below d q = filter (\<lambda>(k, n). strict_prefix q k) (nodes d)"

definition children :: "disk \<Rightarrow> apath \<Rightarrow> (apath \<times> node) list" where
  "children d q = filter (\<lambda>(k, n). k \<noteq> [] \<and> butlast k = q) (nodes d)"

fun remove_each :: "disk \<Rightarrow> apath list \<Rightarrow> nat \<Rightarrow> bool \<times> nat \<times> disk" where
  "remove_each d [] n = (True, n, d)"
| "remove_each d (q # qs) n =
     (case sys_remove d q of (True, d1) \<Rightarrow> remove_each d1 qs (Suc n) | (False, d1) \<Rightarrow> (False, n, d1))"

definition fs_remove_all :: "disk \<Rightarrow> fpath \<Rightarrow> bool \<times> nat \<times> disk" where
  "fs_remove_all d p =
     (case locate d p of None \<Rightarrow> (True, 0, d)
      | Some q \<Rightarrow> remove_each d (rev (sort_key length (q # map fst (below d q)))) 0)"

definition fs_rename :: "disk \<Rightarrow> fpath \<Rightarrow> fpath \<Rightarrow> bool \<times> disk" where
  "fs_rename d p p' =
     (case (locate d p, target d p') of
        (Some s, Some t) \<Rightarrow>
          if trailing_slash p' \<and> \<not> isdir d s then (False, d) else sys_rename d s t
      | _ \<Rightarrow> (False, d))"

definition fs_copy_file :: "disk \<Rightarrow> fpath \<Rightarrow> fpath \<Rightarrow> bool \<Rightarrow> bool \<times> disk" where
  "fs_copy_file d p p' overwrite_existing =
     (case (status d p, target d p') of
        (Some (File bs), Some t) \<Rightarrow>
          if trailing_slash p' \<or> (lookup d t \<noteq> None \<and> \<not> overwrite_existing) then (False, d)
          else sys_write d t bs
      | _ \<Rightarrow> (False, d))"

text \<open>
  \<^verbatim>\<open>fs::copy(from, to, recursive)\<close> on a directory, one nesting level per unit of fuel: every level
  keeps a directory iterator open, so the recursion ends in an error at \<^verbatim>\<open>fd_limit\<close> when the
  destination lies inside the source. \<^verbatim>\<open>ov\<close> is the \<^verbatim>\<open>overwrite_existing\<close> option.
\<close>

fun copy_tree :: "nat \<Rightarrow> bool \<Rightarrow> disk \<Rightarrow> apath \<Rightarrow> apath \<Rightarrow> bool \<times> disk"
and copy_entries :: "nat \<Rightarrow> bool \<Rightarrow> disk \<Rightarrow> apath \<Rightarrow> (apath \<times> node) list \<Rightarrow> bool \<times> disk" where
  "copy_tree 0 ov d s t = (False, d)"
| "copy_tree (Suc fuel) ov d s t =
     (case (if lookup d t = None then sys_mkdir d t else (isdir d t, d)) of
        (False, d1) \<Rightarrow> (False, d1)
      | (True, d1) \<Rightarrow> copy_entries fuel ov d1 t (children d1 s))"
| "copy_entries fuel ov d t [] = (True, d)"
| "copy_entries fuel ov d t ((k, n) # es) =
     (let t' = t @ [last k];
          r = (case n of
                 Dir \<Rightarrow> copy_tree fuel ov d k t'
               | File bs \<Rightarrow> if lookup d t' \<noteq> None \<and> \<not> ov then (False, d) else sys_write d t' bs)
      in case r of (False, d1) \<Rightarrow> (False, d1) | (True, d1) \<Rightarrow> copy_entries fuel ov d1 t es)"

definition fs_copy :: "disk \<Rightarrow> fpath \<Rightarrow> fpath \<Rightarrow> bool \<Rightarrow> bool \<times> disk" where
  "fs_copy d p p' ov =
     (case (locate d p, target d p') of
        (Some s, Some t) \<Rightarrow> copy_tree (fd_limit d) ov d s t
      | _ \<Rightarrow> (False, d))"

end
