(* ===== verification/Disk_Laws.thy ===== *)
theory Disk_Laws
  imports Disk
begin

text \<open>
  Laws of the disk model: the tree invariant \<^verbatim>\<open>wf_disk\<close>, which every operation keeps, and the
  frame \<^verbatim>\<open>agree\<close>, which says where two disks hold the same nodes. Both are proved once per system
  call and lifted to the recursive operations.
\<close>

section \<open>The tree invariant\<close>

definition wf_disk :: "disk \<Rightarrow> bool" where
  "wf_disk d \<longleftrightarrow> distinct (map fst (nodes d)) \<and> isdir d [] \<and>
     (\<forall>k. lookup d k \<noteq> None \<longrightarrow> k \<noteq> [] \<longrightarrow> isdir d (butlast k) \<and> plain_name (last k))"

lemma wf_diskD:
  assumes "wf_disk d"
  shows "distinct (map fst (nodes d))" and "isdir d []"
    and "\<And>k. lookup d k \<noteq> None \<Longrightarrow> k \<noteq> [] \<Longrightarrow> isdir d (butlast k)"
    and "\<And>k. lookup d k \<noteq> None \<Longrightarrow> k \<noteq> [] \<Longrightarrow> plain_name (last k)"
  using assms by (auto simp: wf_disk_def)

lemma lookup_in_nodes: "(k, n) \<in> set (nodes d) \<Longrightarrow> lookup d k \<noteq> None"
  by (auto simp: lookup_def dest: weak_map_of_SomeI)

lemma lookup_Some_nodes: "lookup d k = Some n \<Longrightarrow> (k, n) \<in> set (nodes d)"
  by (auto simp: lookup_def dest: map_of_SomeD)

lemma isdir_lookup: "isdir d q \<Longrightarrow> lookup d q \<noteq> None"
  by (simp add: isdir_def)

lemma wf_prefix_exists:
  assumes "wf_disk d" and "lookup d (q @ r) \<noteq> None"
  shows "lookup d q \<noteq> None \<and> (r \<noteq> [] \<longrightarrow> isdir d q)"
  using assms(2)
proof (induction r rule: rev_induct)
  case Nil
  then show ?case by simp
next
  case (snoc x xs)
  from snoc.prems wf_diskD(3) [OF assms(1), of "q @ xs @ [x]"] have "isdir d (q @ xs)"
    by (simp add: butlast_append)
  then have ex: "lookup d (q @ xs) \<noteq> None" by (rule isdir_lookup)
  show ?case
    using snoc.IH [OF ex] \<open>isdir d (q @ xs)\<close> by (cases xs) auto
qed

lemma wf_plain_names:
  assumes "wf_disk d"
  shows "lookup d q \<noteq> None \<Longrightarrow> list_all plain_name q"
proof (induction q rule: rev_induct)
  case Nil
  then show ?case by simp
next
  case (snoc x xs)
  from snoc.prems have "isdir d xs" and "plain_name x"
    using wf_diskD(3,4) [OF assms, of "xs @ [x]"] by simp_all
  then show ?case using snoc.IH by (auto dest: isdir_lookup)
qed

section \<open>Agreement of two disks\<close>

definition agree :: "(apath \<Rightarrow> bool) \<Rightarrow> disk \<Rightarrow> disk \<Rightarrow> bool" where
  "agree P d d' \<longleftrightarrow> (\<forall>q. P q \<longrightarrow> lookup d' q = lookup d q) \<and>
     cwd d' = cwd d \<and> fd_limit d' = fd_limit d \<and> mtimes d' = mtimes d"

lemma agree_refl [simp, intro]: "agree P d d"
  by (simp add: agree_def)

lemma agree_trans: "agree P d d1 \<Longrightarrow> agree P d1 d2 \<Longrightarrow> agree P d d2"
  by (auto simp: agree_def)

lemma agree_mono: "agree P d d' \<Longrightarrow> (\<And>q. Q q \<Longrightarrow> P q) \<Longrightarrow> agree Q d d'"
  by (auto simp: agree_def)

lemma agree_lookup: "agree P d d' \<Longrightarrow> P q \<Longrightarrow> lookup d' q = lookup d q"
  by (simp add: agree_def)

lemma agree_env: "agree P d d' \<Longrightarrow> cwd d' = cwd d \<and> fd_limit d' = fd_limit d \<and> mtimes d' = mtimes d"
  by (simp add: agree_def)

abbreviation outside :: "apath \<Rightarrow> apath \<Rightarrow> bool" where
  "outside u q \<equiv> \<not> prefix u q"

section \<open>Elementary updates\<close>

lemma lookup_put [simp]: "lookup (put d q n) k = (if k = q then Some n else lookup d k)"
  by (simp add: lookup_def put_def)

lemma lookup_drop_node [simp]: "lookup (drop_node d q) k = (if k = q then None else lookup d k)"
  by (simp add: lookup_def drop_node_def)

lemma put_env [simp]: "cwd (put d q n) = cwd d" "fd_limit (put d q n) = fd_limit d"
  "mtimes (put d q n) = mtimes d" "faults (put d q n) = faults d"
  by (simp_all add: put_def)

lemma drop_node_env [simp]: "cwd (drop_node d q) = cwd d" "fd_limit (drop_node d q) = fd_limit d"
  "mtimes (drop_node d q) = mtimes d" "faults (drop_node d q) = faults d"
  by (simp_all add: drop_node_def)

lemma tick_frame: "tick d = (b, d1) \<Longrightarrow> nodes d1 = nodes d \<and> cwd d1 = cwd d \<and>
    fd_limit d1 = fd_limit d \<and> mtimes d1 = mtimes d"
  by (auto simp: tick_def split: list.splits)

lemma lookup_tick: "tick d = (b, d1) \<Longrightarrow> lookup d1 = lookup d"
  by (auto simp: lookup_def fun_eq_iff dest: tick_frame)

lemma isdir_tick: "tick d = (b, d1) \<Longrightarrow> isdir d1 = isdir d"
  by (simp add: isdir_def fun_eq_iff lookup_tick)

lemma has_children_tick: "tick d = (b, d1) \<Longrightarrow> has_children d1 = has_children d"
  by (simp add: has_children_def fun_eq_iff tick_frame)

lemma wf_disk_tick: "tick d = (b, d1) \<Longrightarrow> wf_disk d1 = wf_disk d"
  by (simp add: wf_disk_def lookup_tick isdir_tick tick_frame)

lemma tick_agree: "tick d = (b, d1) \<Longrightarrow> agree P d d1"
  by (auto simp: agree_def lookup_tick dest: tick_frame)

lemmas tick_facts = lookup_tick isdir_tick has_children_tick

text \<open>No faults left means that no later operation fails for that reason.\<close>

lemma tick_no_faults: "faults d = [] \<Longrightarrow> tick d = (False, d)"
  by (simp add: tick_def)

lemma has_children_iff:
  "has_children d q \<longleftrightarrow> (\<exists>k. strict_prefix q k \<and> lookup d k \<noteq> None)"
proof
  assume "has_children d q"
  then obtain k n where "(k, n) \<in> set (nodes d)" and "strict_prefix q k"
    by (auto simp: has_children_def)
  then show "\<exists>k. strict_prefix q k \<and> lookup d k \<noteq> None" using lookup_in_nodes by blast
next
  assume "\<exists>k. strict_prefix q k \<and> lookup d k \<noteq> None"
  then obtain k n where "strict_prefix q k" and "lookup d k = Some n" by auto
  then show "has_children d q" using lookup_Some_nodes by (fastforce simp: has_children_def)
qed

lemma wf_put:
  assumes "wf_disk d" and "isdir d (butlast q)" and "q \<noteq> []" and "plain_name (last q)"
    and "n = Dir \<or> lookup d q \<noteq> Some Dir"
  shows "wf_disk (put d q n)"
proof -
  have "distinct (map fst (nodes (put d q n)))"
    using wf_diskD(1) [OF assms(1)] by (simp add: put_def)
  moreover have dirs: "isdir d k \<Longrightarrow> isdir (put d q n) k" for k
    using assms(5) by (auto simp: isdir_def)
  ultimately show ?thesis
    using assms wf_diskD(2-4) [OF assms(1)] dirs unfolding wf_disk_def
    by (auto split: if_splits)
qed

lemma wf_drop_node:
  assumes "wf_disk d" and "q \<noteq> []" and "\<not> has_children d q"
  shows "wf_disk (drop_node d q)"
proof -
  have "distinct (map fst (nodes (drop_node d q)))"
    using wf_diskD(1) [OF assms(1)] by (simp add: drop_node_def)
  moreover have "butlast k \<noteq> q" if "lookup d k \<noteq> None" "k \<noteq> []" for k
  proof
    assume "butlast k = q"
    then have "strict_prefix q k" using that(2)
      by (metis append_butlast_last_id prefix_order.le_less strict_prefixI' )
    then show False using assms(3) that(1) by (auto simp: has_children_iff)
  qed
  ultimately show ?thesis
    using assms(2) wf_diskD(2-4) [OF assms(1)] unfolding wf_disk_def isdir_def by auto
qed

section \<open>System calls\<close>

lemma sys_mkdir_True:
  "sys_mkdir d q = (True, d') \<Longrightarrow> q \<noteq> [] \<and> lookup d q = None \<and> isdir d (butlast q) \<and> isdir d' q"
  by (auto simp: sys_mkdir_def isdir_def tick_facts split: prod.splits if_splits)

lemma sys_mkdir_agree [frame]: "sys_mkdir d q = (b, d') \<Longrightarrow> agree (\<lambda>k. k \<noteq> q) d d'"
  by (auto simp: sys_mkdir_def agree_def tick_facts split: prod.splits if_splits dest: tick_frame)

lemma sys_mkdir_wf:
  "sys_mkdir d q = (b, d') \<Longrightarrow> wf_disk d \<Longrightarrow> (q = [] \<or> plain_name (last q)) \<Longrightarrow> wf_disk d'"
  by (auto simp: sys_mkdir_def wf_disk_tick split: prod.splits if_splits intro!: wf_put)

lemma sys_mkdir_grows: "sys_mkdir d q = (b, d') \<Longrightarrow> lookup d k = Some n \<Longrightarrow> lookup d' k = Some n"
  by (auto simp: sys_mkdir_def tick_facts split: prod.splits if_splits)

lemma sys_mkdir_False: "sys_mkdir d q = (False, d') \<Longrightarrow> lookup d' = lookup d"
  by (auto simp: sys_mkdir_def tick_facts split: prod.splits if_splits)

lemma sys_remove_agree [frame]: "sys_remove d q = (b, d') \<Longrightarrow> agree (\<lambda>k. k \<noteq> q) d d'"
  by (auto simp: sys_remove_def agree_def tick_facts split: prod.splits if_splits dest: tick_frame)

lemma sys_remove_wf: "sys_remove d q = (b, d') \<Longrightarrow> wf_disk d \<Longrightarrow> wf_disk d'"
  by (auto simp: sys_remove_def wf_disk_tick split: prod.splits if_splits intro!: wf_drop_node)

lemma sys_remove_True: "sys_remove d q = (True, d') \<Longrightarrow> lookup d q \<noteq> None \<and> lookup d' q = None"
  by (auto simp: sys_remove_def tick_facts split: prod.splits if_splits)

lemma sys_remove_False: "sys_remove d q = (False, d') \<Longrightarrow> lookup d' = lookup d"
  by (auto simp: sys_remove_def tick_facts split: prod.splits if_splits)

lemma sys_write_agree [frame]: "sys_write d q bs = (b, d') \<Longrightarrow> agree (\<lambda>k. k \<noteq> q) d d'"
  by (auto simp: sys_write_def agree_def tick_facts split: prod.splits if_splits dest: tick_frame)

lemma sys_write_wf:
  "sys_write d q bs = (b, d') \<Longrightarrow> wf_disk d \<Longrightarrow> (q = [] \<or> plain_name (last q)) \<Longrightarrow> wf_disk d'"
  by (auto simp: sys_write_def wf_disk_tick split: prod.splits if_splits intro!: wf_put)

lemma sys_write_True: "sys_write d q bs = (True, d') \<Longrightarrow> lookup d' q = Some (File bs)"
  by (auto simp: sys_write_def split: prod.splits if_splits)

lemma sys_write_False: "sys_write d q bs = (False, d') \<Longrightarrow> lookup d' = lookup d"
  by (auto simp: sys_write_def tick_facts split: prod.splits if_splits)

section \<open>Renaming\<close>

lemma reroot_back: "prefix t q \<Longrightarrow> reroot t s q = s @ drop (length t) q"
  by (simp add: reroot_def)

lemma map_of_reroot:
  assumes clear: "\<And>k. prefix t k \<Longrightarrow> map_of al k = None" and st: "\<not> prefix s t"
  shows "map_of (map (\<lambda>(k, n). (reroot s t k, n)) al) q =
    (if prefix t q then map_of al (reroot t s q) else if prefix s q then None else map_of al q)"
  using clear
proof (induction al)
  case Nil
  then show ?case by simp
next
  case (Cons a al)
  obtain k n where a: "a = (k, n)" by force
  have clear: "prefix t k' \<Longrightarrow> map_of al k' = None" and nt: "\<not> prefix t k" for k'
    using Cons.prems [of k'] Cons.prems [of k] by (auto simp: a split: if_splits)
  have IH: "map_of (map (\<lambda>(k, n). (reroot s t k, n)) al) q = (if prefix t q
      then map_of al (reroot t s q) else if prefix s q then None else map_of al q)"
    by (rule Cons.IH [OF clear])
  consider (t) "prefix t q" | (s) "\<not> prefix t q" "prefix s q" | (n) "\<not> prefix t q" "\<not> prefix s q"
    by blast
  then show ?case
  proof cases
    case t
    then have "q = reroot s t k \<longleftrightarrow> reroot t s q = k"
      using nt by (auto simp: reroot_def prefix_def)
    then show ?thesis using IH t by (simp add: a)
  next
    case s
    then have "q \<noteq> reroot s t k" by (auto simp: reroot_def prefix_def split: if_splits)
    then show ?thesis using IH s by (simp add: a)
  next
    case n
    then have "q = reroot s t k \<longleftrightarrow> q = k" using nt by (auto simp: reroot_def)
    then show ?thesis using IH n by (simp add: a)
  qed
qed

lemma sys_rename_cases:
  assumes "sys_rename d s t = (b, d')"
  obtains (failed) "\<not> b" "lookup d' = lookup d"
  | (same) b "s = t" "lookup d' = lookup d" "lookup d s \<noteq> None"
  | (moved) b "s \<noteq> t" "lookup d s \<noteq> None" "isdir d (butlast t)" "s \<noteq> []" "t \<noteq> []"
      "\<not> prefix s t" "\<not> has_children d t" "lookup d t \<noteq> None \<longrightarrow> isdir d s = isdir d t"
      "\<exists>d1. tick d = (False, d1) \<and>
         d' = d1\<lparr>nodes := map (\<lambda>(k, n). (reroot s t k, n)) (AList.delete t (nodes d1))\<rparr>"
  using assms
  by (auto simp: sys_rename_def tick_facts Let_def strict_prefix_def split: prod.splits if_splits)

lemma lookup_rename:
  assumes "tick d = (False, d1)" and "\<not> prefix s t" and "\<not> has_children d t"
    and "d' = d1\<lparr>nodes := map (\<lambda>(k, n). (reroot s t k, n)) (AList.delete t (nodes d1))\<rparr>"
  shows "lookup d' q =
    (if prefix t q then lookup d (reroot t s q) else if prefix s q then None else lookup d q)"
proof -
  let ?al = "AList.delete t (nodes d)"
  have al: "map_of ?al k = (if k = t then None else lookup d k)" for k
    by (simp add: lookup_def)
  have clear: "map_of ?al k = None" if "prefix t k" for k
    using assms(3) that unfolding al by (auto simp: has_children_iff strict_prefix_def)
  have "lookup d' q = map_of (map (\<lambda>(k, n). (reroot s t k, n)) ?al) q"
    using assms(1,4) tick_frame by (simp add: lookup_def)
  also have "\<dots> = (if prefix t q then map_of ?al (reroot t s q) else if prefix s q then None
      else map_of ?al q)"
    by (rule map_of_reroot [OF clear assms(2)])
  finally have *: "lookup d' q = \<dots>" .
  have "prefix t q \<Longrightarrow> reroot t s q \<noteq> t"
    using assms(2) by (auto simp: reroot_def dest: append_eq_prefixD)
  then show ?thesis unfolding * al by auto
qed

lemma sys_rename_agree [frame]:
  assumes "sys_rename d s t = (b, d')"
  shows "agree (\<lambda>k. \<not> prefix s k \<and> \<not> prefix t k) d d'"
proof -
  have env: "cwd d' = cwd d \<and> fd_limit d' = fd_limit d \<and> mtimes d' = mtimes d"
    using assms by (auto simp: sys_rename_def Let_def split: prod.splits if_splits dest: tick_frame)
  show ?thesis
    using assms
  proof (cases rule: sys_rename_cases)
    case moved
    then obtain d1 where "tick d = (False, d1)"
      and "d' = d1\<lparr>nodes := map (\<lambda>(k, n). (reroot s t k, n)) (AList.delete t (nodes d1))\<rparr>"
      by blast
    from lookup_rename [OF this(1) moved(7,8) this(2)] env show ?thesis by (simp add: agree_def)
  qed (use env in \<open>auto simp: agree_def\<close>)
qed

lemma distinct_reroot:
  assumes "distinct (map fst al)" and "\<And>k n. (k, n) \<in> set al \<Longrightarrow> \<not> prefix t k"
  shows "distinct (map fst (map (\<lambda>(k, n). (reroot s t k, n)) al))"
proof -
  have "inj_on (reroot s t) (fst ` set al)"
  proof (rule inj_onI)
    fix x y assume "x \<in> fst ` set al" "y \<in> fst ` set al" and eq: "reroot s t x = reroot s t y"
    then have "\<not> prefix t x" "\<not> prefix t y" using assms(2) by auto
    then show "x = y" using eq by (auto simp: reroot_def prefix_def split: if_splits)
  qed
  then show ?thesis using assms(1)
    by (simp add: distinct_map comp_def case_prod_unfold inj_on_def)
qed

lemma reroot_last: "q \<noteq> t \<Longrightarrow> prefix t q \<Longrightarrow>
    last (reroot t s q) = last q \<and> butlast (reroot t s q) = reroot t s (butlast q) \<and> prefix t (butlast q)
    \<and> q \<noteq> [] \<and> reroot t s q \<noteq> []"
  by (auto simp: reroot_def prefix_def butlast_append)

lemma sys_rename_wf:
  assumes ren: "sys_rename d s t = (b, d')" and wf: "wf_disk d" and pl: "t = [] \<or> plain_name (last t)"
  shows "wf_disk d'"
  using ren
proof (cases rule: sys_rename_cases)
  case moved
  then obtain d1 where tk: "tick d = (False, d1)"
    and d': "d' = d1\<lparr>nodes := map (\<lambda>(k, n). (reroot s t k, n)) (AList.delete t (nodes d1))\<rparr>"
    by blast
  note lk = lookup_rename [OF tk moved(7,8) d']
  have dist: "distinct (map fst (nodes d'))"
  proof -
    have "\<not> prefix t k" if "(k, n) \<in> set (AList.delete t (nodes d))" for k n
      using that moved(8) by (auto simp: has_children_def AList.delete_eq strict_prefix_def)
    then show ?thesis
      using wf_diskD(1) [OF wf] tick_frame [OF tk] unfolding d'
      by (simp del: map_map add: distinct_reroot)
  qed
  have ts: "\<not> prefix t s" using moved(2,3,8) by (auto simp: has_children_iff strict_prefix_def)
  have root: "isdir d' []"
    using moved(5,6) wf_diskD(2) [OF wf] by (auto simp: isdir_def lk)
  have "isdir d' (butlast k) \<and> plain_name (last k)" if k: "lookup d' k \<noteq> None" "k \<noteq> []" for k
  proof (cases "k = t")
    case True
    have "\<not> prefix t (butlast t)" "\<not> prefix s (butlast t)"
      using moved(6,7) by (auto simp: prefix_butlast_iff)
    then show ?thesis using True pl moved(4,6) by (simp add: isdir_def lk)
  next
    case kt: False
    show ?thesis
    proof (cases "prefix t k")
      case True
      note r = reroot_last [OF kt True, of s]
      from k True have "lookup d (reroot t s k) \<noteq> None" by (simp add: lk)
      then have "isdir d (butlast (reroot t s k)) \<and> plain_name (last (reroot t s k))"
        using r wf_diskD(3,4) [OF wf] by blast
      then show ?thesis using r by (simp add: isdir_def lk)
    next
      case False
      then have ns: "\<not> prefix s k" and ex: "lookup d k \<noteq> None" using k by (auto simp: lk split: if_splits)
      have "\<not> prefix t (butlast k)" "\<not> prefix s (butlast k)"
        using k(2) False ns by (auto simp: prefix_butlast_iff)
      then show ?thesis using wf_diskD(3,4) [OF wf ex k(2)] by (simp add: isdir_def lk)
    qed
  qed
  with dist root show ?thesis by (simp add: wf_disk_def)
next
  case failed
  then show ?thesis using ren wf
    by (auto simp: sys_rename_def Let_def wf_disk_tick split: prod.splits if_splits)
next
  case same
  then show ?thesis using ren wf
    by (auto simp: sys_rename_def Let_def wf_disk_tick split: prod.splits if_splits)
qed

section \<open>Creating directories\<close>

lemma make_dirs_agree:
  "make_dirs d st made cs = (ok, new, d') \<Longrightarrow> agree (\<lambda>k. lookup d k \<noteq> None) d d'"
proof (induction d st made cs rule: make_dirs.induct)
  case (2 d st made c cs)
  show ?case
  proof (cases "isdir d st \<and> c \<noteq> [] \<and> c \<noteq> ''.'' \<and> c \<noteq> ''..'' \<and> lookup d (st @ [c]) = None")
    case True
    obtain b d1 where mk: "sys_mkdir d (st @ [c]) = (b, d1)" by force
    have a1: "agree (\<lambda>k. lookup d k \<noteq> None) d d1"
      using sys_mkdir_agree [OF mk] True by (auto elim: agree_mono)
    show ?thesis
    proof (cases b)
      case True': True
      with 2 mk True have "agree (\<lambda>k. lookup d1 k \<noteq> None) d1 d'" by auto
      then have "agree (\<lambda>k. lookup d k \<noteq> None) d1 d'"
        using a1 by (auto elim!: agree_mono simp: agree_lookup)
      then show ?thesis using a1 by (blast intro: agree_trans)
    next
      case False
      then show ?thesis using "2.prems" mk True a1 by simp
    qed
  next
    case False
    then show ?thesis using 2 by (auto split: if_splits)
  qed
qed auto

lemma make_dirs_wf:
  "make_dirs d st made cs = (ok, new, d') \<Longrightarrow> wf_disk d \<Longrightarrow> wf_disk d'"
proof (induction d st made cs rule: make_dirs.induct)
  case (2 d st made c cs)
  obtain b d1 where mk: "sys_mkdir d (st @ [c]) = (b, d1)" by force
  have "c \<noteq> [] \<Longrightarrow> c \<noteq> ''.'' \<Longrightarrow> c \<noteq> ''..'' \<Longrightarrow> wf_disk d1"
    using sys_mkdir_wf [OF mk "2.prems"(2)] by (simp add: plain_name_def)
  then show ?case using 2 mk by (auto split: if_splits bool.splits)
qed auto

definition dotless :: "apath \<Rightarrow> bool" where
  "dotless cs \<longleftrightarrow> ''.'' \<notin> set cs \<and> ''..'' \<notin> set cs"

lemma dotless_simps [simp]: "dotless []" "dotless (c # cs) \<longleftrightarrow> c \<noteq> ''.'' \<and> c \<noteq> ''..'' \<and> dotless cs"
  by (auto simp: dotless_def)

lemma norm_stack_prefix: "dotless cs \<Longrightarrow> prefix st (norm_stack st cs)"
proof (induction cs arbitrary: st)
  case (Cons c cs)
  then have "prefix st (norm_stack (st @ [c]) cs)" by (meson append_prefixD dotless_simps(2))
  with Cons show ?case by simp
qed simp

text \<open>Only proper extensions of the starting directory along the path are created.\<close>

lemma make_dirs_along:
  "make_dirs d st made cs = (ok, new, d') \<Longrightarrow> dotless cs \<Longrightarrow>
   agree (\<lambda>k. \<not> (strict_prefix st k \<and> prefix k (norm_stack st cs))) d d'"
proof (induction d st made cs rule: make_dirs.induct)
  case (2 d st made c cs)
  obtain b d1 where mk: "sys_mkdir d (st @ [c]) = (b, d1)" by force
  let ?P = "\<lambda>k. \<not> (strict_prefix (st @ [c]) k \<and> prefix k (norm_stack (st @ [c]) cs))"
  let ?Q = "\<lambda>k. \<not> (strict_prefix st k \<and> prefix k (norm_stack (st @ [c]) cs))"
  have PQ: "?Q k \<Longrightarrow> ?P k" for k
    by (auto simp: strict_prefix_def prefix_def)
  have new: "agree ?Q d d1" if "dotless cs"
    using sys_mkdir_agree [OF mk] norm_stack_prefix [OF that, of "st @ [c]"]
    by (auto elim!: agree_mono simp: strict_prefix_def)
  consider "\<not> isdir d st" | "c = []" | (old) "isdir d st" "c \<noteq> []" "lookup d (st @ [c]) \<noteq> None"
    | (mk) "isdir d st" "c \<noteq> []" "lookup d (st @ [c]) = None" by blast
  then show ?case
  proof cases
    case old
    then have "agree ?P d d'" using 2 by auto
    then have "agree ?Q d d'" using PQ by (rule agree_mono)
    then show ?thesis using old 2 by simp
  next
    case mk': mk
    have "agree ?P d1 d' \<or> d' = d1" using 2 mk' mk by (cases b) auto
    then have "agree ?Q d1 d'"
    proof
      assume "agree ?P d1 d'"
      then show ?thesis using PQ by (rule agree_mono)
    qed simp
    then have "agree ?Q d d'" using new 2 by (auto intro: agree_trans)
    then show ?thesis using mk' 2 by simp
  qed (use 2 in \<open>auto split: if_splits\<close>)
qed auto

section \<open>Removing and copying trees\<close>

lemma remove_each_agree:
  "remove_each d qs n = (ok, m, d') \<Longrightarrow> agree (\<lambda>k. k \<notin> set qs) d d'"
proof (induction d qs n rule: remove_each.induct)
  case (2 d q qs n)
  obtain b d1 where rm: "sys_remove d q = (b, d1)" by force
  have a1: "agree (\<lambda>k. k \<notin> set (q # qs)) d d1" using sys_remove_agree [OF rm] by (auto elim: agree_mono)
  have "agree (\<lambda>k. k \<notin> set qs) d1 d'" using 2 rm by (cases b) auto
  then have "agree (\<lambda>k. k \<notin> set (q # qs)) d1 d'" by (rule agree_mono) simp
  with a1 show ?case by (rule agree_trans)
qed auto

lemma remove_each_wf: "remove_each d qs n = (ok, m, d') \<Longrightarrow> wf_disk d \<Longrightarrow> wf_disk d'"
proof (induction d qs n rule: remove_each.induct)
  case (2 d q qs n)
  obtain b d1 where rm: "sys_remove d q = (b, d1)" by force
  then show ?case using 2 sys_remove_wf [OF rm] by (auto split: bool.splits)
qed auto

lemma remove_each_gone:
  "remove_each d qs n = (True, m, d') \<Longrightarrow> \<forall>q\<in>set qs. lookup d' q = None"
proof (induction d qs n rule: remove_each.induct)
  case (2 d q qs n)
  obtain b d1 where rm: "sys_remove d q = (b, d1)" by force
  with 2 have b: b and rest: "remove_each d1 qs (Suc n) = (True, m, d')" by (auto split: bool.splits)
  have "lookup d1 q = None" using rm b by (simp add: sys_remove_True)
  then have "q \<notin> set qs \<Longrightarrow> lookup d' q = None"
    using remove_each_agree [OF rest] by (simp add: agree_lookup)
  then show ?case using 2 rm b by auto
qed auto

lemma copy_tree_agree:
  "copy_tree fuel ov d s t = (ok, d') \<Longrightarrow> agree (outside t) d d'"
  "copy_entries fuel ov d t es = (ok, d') \<Longrightarrow> agree (outside t) d d'"
proof (induction fuel ov d s t and fuel ov d t es arbitrary: ok d' and ok d'
    rule: copy_tree_copy_entries.induct)
  case (2 fuel ov d s t)
  obtain b d1 where mk: "(if lookup d t = None then sys_mkdir d t else (isdir d t, d)) = (b, d1)" by force
  then have a1: "agree (outside t) d d1"
    by (auto split: if_splits elim!: agree_mono dest!: sys_mkdir_agree)
  show ?case using 2 mk a1 by (auto split: bool.splits intro: agree_trans)
next
  case (4 fuel ov d t k n es)
  let ?t' = "t @ [last k]"
  let ?r = "case n of Dir \<Rightarrow> copy_tree fuel ov d k ?t'
    | File bs \<Rightarrow> if lookup d ?t' \<noteq> None \<and> \<not> ov then (False, d) else sys_write d ?t' bs"
  obtain b d1 where r: "?r = (b, d1)" by force
  have "agree (outside t) d d1"
  proof (cases n)
    case Dir
    with r have "copy_tree fuel ov d k ?t' = (b, d1)" by simp
    from "4.IH"(1) [OF refl Dir this] show ?thesis
      by (rule agree_mono) (auto simp: prefix_def)
  next
    case (File bs)
    with r show ?thesis by (auto split: if_splits elim!: agree_mono dest!: sys_write_agree)
  qed
  moreover have "agree (outside t) d1 d'"
    using "4.prems" r "4.IH"(2) [OF refl r [symmetric]] by (cases b) (auto simp: Let_def)
  ultimately show ?case by (rule agree_trans)
qed auto

lemma copy_tree_wf:
  "copy_tree fuel ov d s t = (ok, d') \<Longrightarrow> wf_disk d \<Longrightarrow> (t = [] \<or> plain_name (last t)) \<Longrightarrow> wf_disk d'"
  "copy_entries fuel ov d t es = (ok, d') \<Longrightarrow> wf_disk d \<Longrightarrow> (\<forall>(k, n)\<in>set es. plain_name (last k)) \<Longrightarrow>
   wf_disk d'"
proof (induction fuel ov d s t and fuel ov d t es arbitrary: ok d' and ok d'
    rule: copy_tree_copy_entries.induct)
  case (2 fuel ov d s t)
  obtain b d1 where mk: "(if lookup d t = None then sys_mkdir d t else (isdir d t, d)) = (b, d1)" by force
  then have w1: "wf_disk d1" using 2 by (auto split: if_splits dest: sys_mkdir_wf)
  have "plain_name (last k)" if "(k, n) \<in> set (children d1 s)" for k n
    using that wf_diskD(4) [OF w1] lookup_in_nodes by (fastforce simp: children_def)
  then have "\<forall>(k, n)\<in>set (children d1 s). plain_name (last k)" by blast
  then show ?case using 2 mk w1 by (cases b) auto
next
  case (4 fuel ov d t k n es)
  let ?t' = "t @ [last k]"
  let ?r = "case n of Dir \<Rightarrow> copy_tree fuel ov d k ?t'
    | File bs \<Rightarrow> if lookup d ?t' \<noteq> None \<and> \<not> ov then (False, d) else sys_write d ?t' bs"
  obtain b d1 where r: "?r = (b, d1)" by force
  have "wf_disk d1"
  proof (cases n)
    case Dir
    with r have "copy_tree fuel ov d k ?t' = (b, d1)" by simp
    from "4.IH"(1) [OF refl Dir this] show ?thesis using "4.prems" by simp
  next
    case (File bs)
    with r show ?thesis using "4.prems" by (auto split: if_splits dest: sys_write_wf)
  qed
  then show ?case
    using "4.prems" r "4.IH"(2) [OF refl r [symmetric]] by (cases b) (auto simp: Let_def)
qed auto

section \<open>Path resolution\<close>

lemma walk_norm: "walk d st cs = Some q \<Longrightarrow> q = norm_stack st cs \<and> lookup d q \<noteq> None"
  by (induction d st cs rule: walk.induct) (auto split: if_splits)

lemma walk_plain:
  assumes "wf_disk d"
  shows "list_all plain_name cs \<Longrightarrow> walk d st cs = (if lookup d (st @ cs) = None then None else Some (st @ cs))"
proof (induction cs arbitrary: st)
  case (Cons c cs)
  then have c: "c \<noteq> []" "c \<noteq> ''.''" "c \<noteq> ''..''" by (auto simp: plain_name_def)
  have "\<not> isdir d st \<Longrightarrow> lookup d (st @ c # cs) = None"
    using wf_prefix_exists [OF assms, of st "c # cs"] by (cases "lookup d (st @ c # cs)") auto
  then show ?case using Cons c by auto
qed simp

lemma walk_trailing:
  assumes "wf_disk d" and "list_all plain_name cs"
  shows "walk d st (cs @ [[]]) = (if isdir d (st @ cs) then Some (st @ cs) else None)"
  using assms(2)
proof (induction cs arbitrary: st)
  case Nil
  then show ?case by (auto dest: isdir_lookup)
next
  case (Cons c cs)
  then have c: "c \<noteq> []" "c \<noteq> ''.''" "c \<noteq> ''..''" by (auto simp: plain_name_def)
  have "\<not> isdir d st \<Longrightarrow> \<not> isdir d (st @ c # cs)"
    using wf_prefix_exists [OF assms(1), of st "c # cs"] by (auto dest: isdir_lookup)
  then show ?case using Cons c by auto
qed

lemma locate_Abs: "locate d (Abs cs) = walk d [] cs"
  by (simp add: locate_def)

lemma locate_exists: "locate d p = Some q \<Longrightarrow> lookup d q \<noteq> None"
  by (auto simp: locate_def dest: walk_norm split: fpath.splits if_splits)

lemma status_locate: "status d p = Some n \<longleftrightarrow> (\<exists>q. locate d p = Some q \<and> lookup d q = Some n)"
  by (auto simp: status_def split: Option.bind_splits)

lemma locate_plain_Abs: "wf_disk d \<Longrightarrow> lookup d q \<noteq> None \<Longrightarrow> locate d (Abs q) = Some q"
  by (simp add: locate_Abs walk_plain wf_plain_names)

section \<open>Example disks\<close>

text \<open>A disk with the given nodes that refuses nothing.\<close>

definition disk_of :: "(apath \<times> node) list \<Rightarrow> disk" where
  "disk_of ns = \<lparr>nodes = ns, faults = [], cwd = [], fd_limit = 64, mtimes = (\<lambda>_. 0)\<rparr>"

lemma disk_of_simps [simp]: "lookup (disk_of ns) = map_of ns" "faults (disk_of ns) = []" "cwd (disk_of ns) = []"
  "nodes (disk_of ns) = ns" "fd_limit (disk_of ns) = 64"
  by (simp_all add: disk_of_def lookup_def fun_eq_iff)

lemma wf_disk_of:
  assumes "distinct (map fst ns)"
    and "list_all (\<lambda>(k, n). if k = [] then n = Dir else map_of ns (butlast k) = Some Dir \<and> plain_name (last k)) ns"
    and "([], Dir) \<in> set ns"
  shows "wf_disk (disk_of ns)"
  using assms by (auto simp: wf_disk_def isdir_def list_all_iff dest!: map_of_SomeD split: if_splits)

end
