(* ===== verification/Libraries.thy ===== *)
theory Libraries
  imports Prelude "HOL-Library.Countable"
begin

text \<open>
  The third-party libraries MiniDrive links against, as parameters of the model: libsodium and
  nlohmann/json. Each is a record of the entry points the sources call; what the sources rely on is
  stated as a named predicate (\<^verbatim>\<open>hash_width\<close>, \<^verbatim>\<open>hex_laws\<close>, \<^verbatim>\<open>json_laws\<close>, ...), used as a hypothesis
  where a property needs it. The reference instances at the end show that the predicates can be
  met together.
\<close>

section \<open>libsodium\<close>

text \<open>
  \<^verbatim>\<open>generichash\<close> is the one-shot \<^verbatim>\<open>crypto_generichash\<close> with 32 output bytes and no key,
  \<^verbatim>\<open>generichash_multi\<close> the result of init, one update per block and final. \<^verbatim>\<open>hex2bin\<close> takes the
  capacity of the output buffer. \<^verbatim>\<open>pwhash_str\<close> draws a salt, given as its first argument.
\<close>

record sodium =
  generichash :: "bytes \<Rightarrow> bytes"
  generichash_multi :: "bytes list \<Rightarrow> bytes"
  bin2hex :: "bytes \<Rightarrow> string"
  hex2bin :: "nat \<Rightarrow> string \<Rightarrow> bytes option"
  pwhash_str :: "nat \<Rightarrow> string \<Rightarrow> string option"
  pwhash_str_verify :: "string \<Rightarrow> string \<Rightarrow> bool"

definition hash_width :: "sodium \<Rightarrow> bool" where
  "hash_width S \<longleftrightarrow> (\<forall>bs. length (generichash S bs) = 32)"

definition hash_multipart :: "sodium \<Rightarrow> bool" where
  "hash_multipart S \<longleftrightarrow> (\<forall>bss. generichash_multi S bss = generichash S (concat bss))"

definition hex_laws :: "sodium \<Rightarrow> bool" where
  "hex_laws S \<longleftrightarrow> (\<forall>h. length (bin2hex S h) = 2 * length h) \<and>
     (\<forall>h n. length h \<le> n \<longrightarrow> hex2bin S n (bin2hex S h) = Some h)"

definition pwhash_laws :: "sodium \<Rightarrow> bool" where
  "pwhash_laws S \<longleftrightarrow> (\<forall>salt pw h. pwhash_str S salt pw = Some h \<longrightarrow> pwhash_str_verify S h pw)"

section \<open>nlohmann/json\<close>

text \<open>
  Constructors and accessors of a JSON value type \<^verbatim>\<open>'j\<close>. An accessor that throws is \<^verbatim>\<open>None\<close>:
  \<^verbatim>\<open>jat\<close> is \<^verbatim>\<open>at\<close>, \<^verbatim>\<open>jindex\<close> reading through \<^verbatim>\<open>operator[]\<close>, the getters are \<^verbatim>\<open>get\<close> at a type; \<^verbatim>\<open>get_num\<close> yields the number before the
  conversion to the requested width, \<^verbatim>\<open>jis_object\<close> is \<^verbatim>\<open>is_object\<close>, \<^verbatim>\<open>jset\<close> is assignment through \<^verbatim>\<open>operator[]\<close>, \<^verbatim>\<open>jiter\<close> the range a
  \<^verbatim>\<open>for\<close> loop visits, \<^verbatim>\<open>jpretty\<close> is \<^verbatim>\<open>dump\<close> with an indentation.
\<close>

record 'j json_lib =
  jobj :: "(string \<times> 'j) list \<Rightarrow> 'j"
  jarr :: "'j list \<Rightarrow> 'j"
  jstr :: "string \<Rightarrow> 'j"
  juint :: "nat \<Rightarrow> 'j"
  jint :: "int \<Rightarrow> 'j"
  jbool :: "bool \<Rightarrow> 'j"
  jset :: "'j \<Rightarrow> string \<Rightarrow> 'j \<Rightarrow> 'j"
  jat :: "'j \<Rightarrow> string \<Rightarrow> 'j option"
  get_str :: "'j \<Rightarrow> string option"
  get_num :: "'j \<Rightarrow> int option"
  get_bool :: "'j \<Rightarrow> bool option"
  get_arr :: "'j \<Rightarrow> 'j list option"
  jis_object :: "'j \<Rightarrow> bool"
  jindex :: "'j \<Rightarrow> string \<Rightarrow> 'j option"
  jiter :: "'j \<Rightarrow> 'j list"
  jpretty :: "nat \<Rightarrow> 'j \<Rightarrow> bytes"
  jdump :: "'j \<Rightarrow> bytes"
  jparse :: "bytes \<Rightarrow> 'j option"

definition json_laws :: "'j json_lib \<Rightarrow> bool" where
  "json_laws J \<longleftrightarrow>
     (\<forall>kvs k. distinct (map fst kvs) \<longrightarrow> jat J (jobj J kvs) k = map_of kvs k) \<and>
     (\<forall>kvs k v. distinct (map fst kvs) \<longrightarrow> jset J (jobj J kvs) k v = jobj J (AList.update k v kvs)) \<and>
     (\<forall>s. get_str J (jstr J s) = Some s) \<and> (\<forall>n. get_num J (juint J n) = Some (int n)) \<and>
     (\<forall>n. get_num J (jint J n) = Some n) \<and>
     (\<forall>b. get_bool J (jbool J b) = Some b) \<and> (\<forall>js. get_arr J (jarr J js) = Some js) \<and> (\<forall>js. jiter J (jarr J js) = js) \<and>
     (\<forall>kvs k v. distinct (map fst kvs) \<longrightarrow> map_of kvs k = Some v \<longrightarrow> jindex J (jobj J kvs) k = Some v) \<and>
     (\<forall>kvs. jis_object J (jobj J kvs))"

definition json_text :: "'j json_lib \<Rightarrow> bool" where
  "json_text J \<longleftrightarrow> (\<forall>j. jparse J (jdump J j) = Some j \<and> jdump J j \<noteq> []) \<and>
     (\<forall>n j. jparse J (jpretty J n j) = Some j \<and> jpretty J n j \<noteq> [])"

lemma json_lawsD:
  assumes "json_laws J"
  shows json_at: "distinct (map fst kvs) \<Longrightarrow> jat J (jobj J kvs) k = map_of kvs k"
    and json_set: "distinct (map fst kvs) \<Longrightarrow> jset J (jobj J kvs) k v = jobj J (AList.update k v kvs)"
    and json_str: "get_str J (jstr J s) = Some s" and json_num: "get_num J (juint J n) = Some (int n)"
    and json_int: "get_num J (jint J i) = Some i"
    and json_bool: "get_bool J (jbool J b) = Some b" and json_arr: "get_arr J (jarr J js) = Some js"
    and json_iter: "jiter J (jarr J js) = js"
    and json_index: "distinct (map fst kvs) \<Longrightarrow> map_of kvs k = Some v \<Longrightarrow> jindex J (jobj J kvs) k = Some v"
    and json_is_object: "jis_object J (jobj J kvs)"
  using assms by (auto simp: json_laws_def)

text \<open>\<^verbatim>\<open>get<uint32_t>()\<close> and its siblings convert with \<^verbatim>\<open>static_cast\<close>: no range check.\<close>

definition get_word :: "'j json_lib \<Rightarrow> 'j \<Rightarrow> 'a::len word option" where
  "get_word J j = map_option of_int (get_num J j)"

lemma get_word_juint: "json_laws J \<Longrightarrow> get_word J (juint J (unat w)) = Some w"
  by (simp add: get_word_def json_num)

text \<open>\<^verbatim>\<open>value(key, default)\<close>: the default for a missing key, an exception on anything but an object.\<close>

definition jvalue :: "'j json_lib \<Rightarrow> ('j \<Rightarrow> 'a option) \<Rightarrow> 'a \<Rightarrow> 'j \<Rightarrow> string \<Rightarrow> 'a option" where
  "jvalue J get dflt j k =
     (if \<not> jis_object J j then None else case jat J j k of None \<Rightarrow> Some dflt | Some v \<Rightarrow> get v)"

lemma jvalue_jobj:
  "json_laws J \<Longrightarrow> distinct (map fst kvs) \<Longrightarrow> map_of kvs k = Some v \<Longrightarrow> jvalue J get dflt (jobj J kvs) k = get v"
  by (simp add: jvalue_def json_is_object json_at)

text \<open>\<^verbatim>\<open>get<std::vector<T>>()\<close>: the elements in order, failing when one of them fails.\<close>

definition get_vector :: "'j json_lib \<Rightarrow> ('j \<Rightarrow> 'a option) \<Rightarrow> 'j \<Rightarrow> 'a list option" where
  "get_vector J f j = Option.bind (get_arr J j) (\<lambda>js. those (map f js))"

lemma those_map_Some: "(\<And>x. x \<in> set xs \<Longrightarrow> f (g x) = Some x) \<Longrightarrow> those (map f (map g xs)) = Some xs"
  by (induction xs) auto

lemma get_vector_jarr:
  "json_laws J \<Longrightarrow> (\<And>x. x \<in> set xs \<Longrightarrow> f (g x) = Some x) \<Longrightarrow>
   get_vector J f (jarr J (map g xs)) = Some xs"
  unfolding get_vector_def by (simp only: json_arr bind.bind_lunit those_map_Some)

section \<open>Reference instances\<close>

datatype jval = JObj "(string \<times> jval) list" | JArr "jval list" | JStr string | JNum int | JBool bool

instance jval :: countable
  by countable_datatype

definition json_ref :: "jval json_lib" where
  "json_ref = \<lparr>jobj = JObj, jarr = JArr, jstr = JStr, juint = (\<lambda>n. JNum (int n)), jint = JNum, jbool = JBool,
     jset = (\<lambda>j k v. case j of JObj kvs \<Rightarrow> JObj (AList.update k v kvs) | _ \<Rightarrow> JObj [(k, v)]),
     jat = (\<lambda>j k. case j of JObj kvs \<Rightarrow> map_of kvs k | _ \<Rightarrow> None),
     get_str = (\<lambda>j. case j of JStr s \<Rightarrow> Some s | _ \<Rightarrow> None),
     get_num = (\<lambda>j. case j of JNum n \<Rightarrow> Some n | _ \<Rightarrow> None),
     get_bool = (\<lambda>j. case j of JBool b \<Rightarrow> Some b | _ \<Rightarrow> None),
     get_arr = (\<lambda>j. case j of JArr js \<Rightarrow> Some js | _ \<Rightarrow> None),
     jis_object = (\<lambda>j. case j of JObj _ \<Rightarrow> True | _ \<Rightarrow> False),
     jindex = (\<lambda>j k. case j of JObj kvs \<Rightarrow> Some (case map_of kvs k of None \<Rightarrow> JArr [] | Some v \<Rightarrow> v) | _ \<Rightarrow> None),
     jiter = (\<lambda>j. case j of JArr js \<Rightarrow> js | JObj kvs \<Rightarrow> map snd kvs | _ \<Rightarrow> [j]),
     jpretty = (\<lambda>_ j. 1 # replicate (to_nat j) 0),
     jdump = (\<lambda>j. 1 # replicate (to_nat j) 0), jparse = (\<lambda>bs. Some (from_nat (length bs - 1)))\<rparr>"

lemma json_ref_laws: "json_laws json_ref" "json_text json_ref"
  by (simp_all add: json_laws_def json_text_def json_ref_def)

text \<open>An instance that keeps nothing in a text: every parse yields empty tables.\<close>

definition json_blank :: "jval json_lib" where
  "json_blank = \<lparr>jobj = JObj, jarr = JArr, jstr = JStr, juint = (\<lambda>n. JNum (int n)), jint = JNum, jbool = JBool,
     jset = (\<lambda>j k v. j), jat = (\<lambda>j k. case j of JObj kvs \<Rightarrow> map_of kvs k | _ \<Rightarrow> None),
     get_str = (\<lambda>j. case j of JStr s \<Rightarrow> Some s | _ \<Rightarrow> None),
     get_num = (\<lambda>j. case j of JNum n \<Rightarrow> Some n | _ \<Rightarrow> None),
     get_bool = (\<lambda>j. case j of JBool b \<Rightarrow> Some b | _ \<Rightarrow> None),
     get_arr = (\<lambda>j. case j of JArr js \<Rightarrow> Some js | _ \<Rightarrow> None),
     jis_object = (\<lambda>j. case j of JObj _ \<Rightarrow> True | _ \<Rightarrow> False),
     jindex = (\<lambda>j k. case j of JObj kvs \<Rightarrow> map_of kvs k | _ \<Rightarrow> None),
     jiter = (\<lambda>j. case j of JArr js \<Rightarrow> js | _ \<Rightarrow> []), jpretty = (\<lambda>_ _. [1]), jdump = (\<lambda>_. [1]),
     jparse = (\<lambda>_. Some (JObj [(''entries'', JArr []), (''users'', JArr [])]))\<rparr>"

text \<open>A value type with two texts, for properties of the framing alone.\<close>

definition json_bit :: "bool json_lib" where
  "json_bit = \<lparr>jobj = (\<lambda>_. True), jarr = (\<lambda>_. True), jstr = (\<lambda>_. True), juint = (\<lambda>n. n \<noteq> 0), jint = (\<lambda>n. n \<noteq> 0),
     jbool = (\<lambda>b. b), jset = (\<lambda>j k v. j), jat = (\<lambda>j k. None), get_str = (\<lambda>j. None),
     get_num = (\<lambda>j. Some (if j then 1 else 0)), get_bool = Some, get_arr = (\<lambda>j. None), jis_object = (\<lambda>_. False),
     jindex = (\<lambda>j k. None), jiter = (\<lambda>j. [j]),
     jpretty = (\<lambda>_ j. if j then [116, 114, 117, 101] else [102, 97, 108, 115, 101]),
     jdump = (\<lambda>j. if j then [116, 114, 117, 101] else [102, 97, 108, 115, 101]),
     jparse = (\<lambda>bs. if bs = [116, 114, 117, 101] then Some True
       else if bs = [102, 97, 108, 115, 101] then Some False else None)\<rparr>"

lemma json_bit_text: "json_text json_bit"
  by (simp add: json_text_def json_bit_def)

text \<open>A 32-byte sum checksum stands in for the hash, two letters per byte for the hex form.\<close>

definition hex_digits :: "u8 \<Rightarrow> string" where
  "hex_digits b = [char_of (unat b div 16 + 65), char_of (unat b mod 16 + 65)]"

fun undigits :: "string \<Rightarrow> bytes" where
  "undigits (a # b # s) =
     of_nat ((of_char a - 65) * 16 + (of_char b - 65)) # undigits s"
| "undigits s = []"

definition sodium_ref :: sodium where
  "sodium_ref = \<lparr>generichash = (\<lambda>bs. 1 # sum_list bs # replicate 30 0),
     generichash_multi = (\<lambda>bss. 1 # sum_list (concat bss) # replicate 30 0),
     bin2hex = (\<lambda>h. concat (map hex_digits h)),
     hex2bin = (\<lambda>n s. if length s div 2 \<le> n then Some (undigits s) else None),
     pwhash_str = (\<lambda>salt pw. Some pw), pwhash_str_verify = (\<lambda>h pw. h = pw)\<rparr>"

lemma undigits_hex: "undigits (hex_digits b @ s) = b # undigits s"
proof -
  have b: "unat b < 256" using unsigned_less [of b] by simp
  have "of_char (char_of (unat b div 16 + 65) :: char) = unat b div 16 + 65"
    "of_char (char_of (unat b mod 16 + 65) :: char) = unat b mod 16 + 65"
    using b by (simp_all add: of_char_of take_bit_eq_mod)
  then show ?thesis by (simp add: hex_digits_def)
qed

lemma undigits_bin2hex: "undigits (concat (map hex_digits h)) = h"
  by (induction h) (simp_all add: undigits_hex)

lemma length_bin2hex_ref: "length (concat (map hex_digits h)) = 2 * length h"
  by (induction h) (simp_all add: hex_digits_def)

lemma sodium_ref_laws: "hash_width sodium_ref" "hash_multipart sodium_ref" "hex_laws sodium_ref"
  "pwhash_laws sodium_ref"
  by (simp_all add: hash_width_def hash_multipart_def hex_laws_def pwhash_laws_def sodium_ref_def
      undigits_bin2hex length_bin2hex_ref)

end
