(* ===== verification/Protocol.thy ===== *)
theory Protocol
  imports Libraries
begin

text \<open>
  The wire protocol of \<^verbatim>\<open>shared/\<close>: the message structs of \<^verbatim>\<open>protocol/message.hpp\<close> with their JSON
  conversions (\<^verbatim>\<open>message.cpp\<close>), the status and command words, the chunk flags, and the two framings
  both sides implement: a length-prefixed JSON body, and the packed 13-byte chunk header followed
  by the chunk data.
\<close>

section \<open>Messages\<close>

record ChunkInfo =
  ci_index :: u32
  ci_size :: u32
  ci_chunk_hash :: string

record FileEntry =
  fe_relative_path :: string
  fe_size :: u32
  fe_file_hash :: string
  fe_last_modified :: u64
  fe_is_directory :: bool

record TierInfo =
  ti_name :: string
  ti_description :: string
  ti_is_current :: bool

record Request =
  req_cmd :: string
  req_first_argument :: string
  req_second_argument :: string
  req_size :: u32
  req_file_hash :: string
  req_chunks :: "ChunkInfo list"

record Response =
  res_status :: string
  res_code :: u16
  res_message :: string
  res_file_hash :: string
  res_chunks :: "ChunkInfo list"
  res_files :: "FileEntry list"
  res_tiers :: "TierInfo list"

record ChunkHeader =
  ch_transfer_id :: u32
  ch_index :: u32
  ch_size :: u32
  ch_flags :: u8

abbreviation "flag_OK \<equiv> (0 :: u8)"
abbreviation "flag_ERROR \<equiv> (1 :: u8)"
abbreviation "flag_CHUNK_MISMATCH \<equiv> (2 :: u8)"
abbreviation "flag_LAST \<equiv> (3 :: u8)"
abbreviation "flag_SEND \<equiv> (4 :: u8)"
abbreviation "flag_DONE \<equiv> (5 :: u8)"
abbreviation "flag_EXIT \<equiv> (6 :: u8)"

section \<open>JSON conversions\<close>

definition chunk_to_json :: "'j json_lib \<Rightarrow> ChunkInfo \<Rightarrow> 'j" where
  "chunk_to_json J ci = jobj J [(''index'', juint J (unat (ci_index ci))),
     (''size'', juint J (unat (ci_size ci))), (''chunk_hash'', jstr J (ci_chunk_hash ci))]"

definition chunk_from_json :: "'j json_lib \<Rightarrow> 'j \<Rightarrow> ChunkInfo option" where
  "chunk_from_json J j = do {
     i \<leftarrow> jat J j ''index'' \<bind> get_word J;
     s \<leftarrow> jat J j ''size'' \<bind> get_word J;
     h \<leftarrow> jat J j ''chunk_hash'' \<bind> get_str J;
     Some \<lparr>ci_index = i, ci_size = s, ci_chunk_hash = h\<rparr> }"

definition file_to_json :: "'j json_lib \<Rightarrow> FileEntry \<Rightarrow> 'j" where
  "file_to_json J fe = jobj J [(''relative_path'', jstr J (fe_relative_path fe)),
     (''size'', juint J (unat (fe_size fe))), (''file_hash'', jstr J (fe_file_hash fe)),
     (''last_modified'', juint J (unat (fe_last_modified fe))),
     (''is_directory'', jbool J (fe_is_directory fe))]"

definition file_from_json :: "'j json_lib \<Rightarrow> 'j \<Rightarrow> FileEntry option" where
  "file_from_json J j = do {
     p \<leftarrow> jat J j ''relative_path'' \<bind> get_str J;
     s \<leftarrow> jat J j ''size'' \<bind> get_word J;
     h \<leftarrow> jat J j ''file_hash'' \<bind> get_str J;
     t \<leftarrow> jat J j ''last_modified'' \<bind> get_word J;
     b \<leftarrow> jat J j ''is_directory'' \<bind> get_bool J;
     Some \<lparr>fe_relative_path = p, fe_size = s, fe_file_hash = h, fe_last_modified = t,
       fe_is_directory = b\<rparr> }"

definition tier_to_json :: "'j json_lib \<Rightarrow> TierInfo \<Rightarrow> 'j" where
  "tier_to_json J ti = jobj J [(''name'', jstr J (ti_name ti)),
     (''description'', jstr J (ti_description ti)), (''is_current'', jbool J (ti_is_current ti))]"

definition tier_from_json :: "'j json_lib \<Rightarrow> 'j \<Rightarrow> TierInfo option" where
  "tier_from_json J j = do {
     n \<leftarrow> jat J j ''name'' \<bind> get_str J;
     d \<leftarrow> jat J j ''description'' \<bind> get_str J;
     c \<leftarrow> jat J j ''is_current'' \<bind> get_bool J;
     Some \<lparr>ti_name = n, ti_description = d, ti_is_current = c\<rparr> }"

text \<open>A list field that is written only when it is not empty, and read only when it is present.\<close>

definition set_nonempty :: "'j json_lib \<Rightarrow> string \<Rightarrow> ('a \<Rightarrow> 'j) \<Rightarrow> 'a list \<Rightarrow> 'j \<Rightarrow> 'j" where
  "set_nonempty J k f xs j = (if xs = [] then j else jset J j k (jarr J (map f xs)))"

definition get_if_present :: "'j json_lib \<Rightarrow> string \<Rightarrow> ('j \<Rightarrow> 'a option) \<Rightarrow> 'a list \<Rightarrow> 'j \<Rightarrow> 'a list option" where
  "get_if_present J k f old j =
     (case jat J j k of None \<Rightarrow> Some old | Some v \<Rightarrow> get_vector J f v)"

definition request_to_json :: "'j json_lib \<Rightarrow> Request \<Rightarrow> 'j" where
  "request_to_json J req = set_nonempty J ''chunks'' (chunk_to_json J) (req_chunks req)
     (jobj J [(''cmd'', jstr J (req_cmd req)),
       (''first_argument'', jstr J (req_first_argument req)),
       (''second_argument'', jstr J (req_second_argument req)),
       (''size'', juint J (unat (req_size req))),
       (''file_hash'', jstr J (req_file_hash req))])"

definition request_from_json :: "'j json_lib \<Rightarrow> 'j \<Rightarrow> Request option" where
  "request_from_json J j = do {
     c \<leftarrow> jat J j ''cmd'' \<bind> get_str J;
     a1 \<leftarrow> jat J j ''first_argument'' \<bind> get_str J;
     a2 \<leftarrow> jat J j ''second_argument'' \<bind> get_str J;
     s \<leftarrow> jat J j ''size'' \<bind> get_word J;
     h \<leftarrow> jat J j ''file_hash'' \<bind> get_str J;
     cs \<leftarrow> get_if_present J ''chunks'' (chunk_from_json J) [] j;
     Some \<lparr>req_cmd = c, req_first_argument = a1, req_second_argument = a2, req_size = s,
       req_file_hash = h, req_chunks = cs\<rparr> }"

definition response_to_json :: "'j json_lib \<Rightarrow> Response \<Rightarrow> 'j" where
  "response_to_json J res =
     set_nonempty J ''tiers'' (tier_to_json J) (res_tiers res)
      (set_nonempty J ''files'' (file_to_json J) (res_files res)
       (set_nonempty J ''chunks'' (chunk_to_json J) (res_chunks res)
        (jobj J [(''status'', jstr J (res_status res)), (''code'', juint J (unat (res_code res))),
          (''message'', jstr J (res_message res)), (''file_hash'', jstr J (res_file_hash res))])))"

definition response_from_json :: "'j json_lib \<Rightarrow> 'j \<Rightarrow> Response option" where
  "response_from_json J j = do {
     s \<leftarrow> jat J j ''status'' \<bind> get_str J;
     c \<leftarrow> jat J j ''code'' \<bind> get_word J;
     m \<leftarrow> jat J j ''message'' \<bind> get_str J;
     h \<leftarrow> jat J j ''file_hash'' \<bind> get_str J;
     cs \<leftarrow> get_if_present J ''chunks'' (chunk_from_json J) [] j;
     fs \<leftarrow> get_if_present J ''files'' (file_from_json J) [] j;
     ts \<leftarrow> get_if_present J ''tiers'' (tier_from_json J) [] j;
     Some \<lparr>res_status = s, res_code = c, res_message = m, res_file_hash = h, res_chunks = cs,
       res_files = fs, res_tiers = ts\<rparr> }"

section \<open>Framing\<close>

text \<open>\<^verbatim>\<open>htonl\<close> and \<^verbatim>\<open>ntohl\<close> with the four bytes as they travel, most significant first.\<close>

definition htonl :: "u32 \<Rightarrow> bytes" where
  "htonl w = [ucast (drop_bit 24 w), ucast (drop_bit 16 w), ucast (drop_bit 8 w), ucast w]"

definition ntohl :: "bytes \<Rightarrow> u32" where
  "ntohl bs = fold (\<lambda>b acc. push_bit 8 acc + ucast b) bs 0"

definition encode_header :: "ChunkHeader \<Rightarrow> bytes" where
  "encode_header ch = htonl (ch_transfer_id ch) @ htonl (ch_index ch) @ htonl (ch_size ch) @ [ch_flags ch]"

definition decode_header :: "bytes \<Rightarrow> ChunkHeader" where
  "decode_header bs = \<lparr>ch_transfer_id = ntohl (take 4 bs), ch_index = ntohl (take 4 (drop 4 bs)),
     ch_size = ntohl (take 4 (drop 8 bs)), ch_flags = bs ! 12\<rparr>"

definition send_chunk :: "ChunkHeader \<Rightarrow> bytes \<Rightarrow> bytes" where
  "send_chunk ch data = encode_header ch @ data"

text \<open>\<^verbatim>\<open>async_read\<close> of the header, then of as many bytes as it announces; \<^verbatim>\<open>None\<close> while they are missing.\<close>

definition read_chunk_frame :: "bytes \<Rightarrow> (ChunkHeader \<times> bytes \<times> bytes) option" where
  "read_chunk_frame s =
     (if length s < 13 then None
      else let ch = decode_header s; n = unat (ch_size ch); s' = drop 13 s
           in if length s' < n then None else Some (ch, take n s', drop n s'))"

definition write_json :: "'j json_lib \<Rightarrow> 'j \<Rightarrow> bytes option" where
  "write_json J j =
     (let body = jdump J j
      in if length body > 4294967295 then None else Some (htonl (of_nat (length body)) @ body))"

datatype 'j json_frame = Incomplete | Invalid_Frame | Json_Frame 'j bytes

definition read_json_frame :: "'j json_lib \<Rightarrow> bytes \<Rightarrow> 'j json_frame" where
  "read_json_frame J s =
     (if length s < 4 then Incomplete
      else let n = unat (ntohl (take 4 s)); s' = drop 4 s
           in if n = 0 then Invalid_Frame
              else if length s' < n then Incomplete
              else case jparse J (take n s') of None \<Rightarrow> Invalid_Frame
                   | Some j \<Rightarrow> Json_Frame j (drop n s'))"

section \<open>Round trips\<close>

lemma chunk_roundtrip: "json_laws J \<Longrightarrow> chunk_from_json J (chunk_to_json J ci) = Some ci"
  by (simp add: chunk_to_json_def chunk_from_json_def json_at json_str get_word_juint)

lemma file_roundtrip: "json_laws J \<Longrightarrow> file_from_json J (file_to_json J fe) = Some fe"
  by (simp add: file_to_json_def file_from_json_def json_at json_str json_bool get_word_juint)

lemma tier_roundtrip: "json_laws J \<Longrightarrow> tier_from_json J (tier_to_json J ti) = Some ti"
  by (simp add: tier_to_json_def tier_from_json_def json_at json_str json_bool)

lemma json_at_set_nonempty:
  "json_laws J \<Longrightarrow> distinct (map fst kvs) \<Longrightarrow>
   set_nonempty J k f xs (jobj J kvs) = jobj J (if xs = [] then kvs else AList.update k (jarr J (map f xs)) kvs)"
  by (simp add: set_nonempty_def json_set)

lemma get_set_nonempty:
  assumes "json_laws J" and "\<And>x. f (g x) = Some x"
    and "jat J j k = (if xs = [] then None else Some (jarr J (map g xs)))"
  shows "get_if_present J k f [] j = Some xs"
  using assms by (auto simp: get_if_present_def get_vector_jarr)

text \<open>
  A request survives the JSON conversion, also when the chunk list is empty and therefore absent
  from the object.
\<close>

lemma request_roundtrip:
  assumes "json_laws J"
  shows "request_from_json J (request_to_json J req) = Some req"
proof -
  let ?j = "request_to_json J req"
  have at: "jat J ?j k = map_of ([(''cmd'', jstr J (req_cmd req)),
       (''first_argument'', jstr J (req_first_argument req)),
       (''second_argument'', jstr J (req_second_argument req)),
       (''size'', juint J (unat (req_size req))),
       (''file_hash'', jstr J (req_file_hash req))] @
       (if req_chunks req = [] then [] else [(''chunks'', jarr J (map (chunk_to_json J) (req_chunks req)))])) k"
    for k using assms by (simp add: request_to_json_def json_at_set_nonempty json_at)
  have "get_if_present J ''chunks'' (chunk_from_json J) [] ?j = Some (req_chunks req)"
    by (rule get_set_nonempty [OF assms chunk_roundtrip [OF assms]]) (simp add: at)
  then show ?thesis
    by (simp add: request_from_json_def at json_str [OF assms] get_word_juint [OF assms])
qed

lemma response_roundtrip:
  assumes "json_laws J"
  shows "response_from_json J (response_to_json J res) = Some res"
proof -
  let ?j = "response_to_json J res"
  have at: "jat J ?j k = map_of ([(''status'', jstr J (res_status res)),
       (''code'', juint J (unat (res_code res))), (''message'', jstr J (res_message res)),
       (''file_hash'', jstr J (res_file_hash res))] @
       (if res_chunks res = [] then [] else [(''chunks'', jarr J (map (chunk_to_json J) (res_chunks res)))]) @
       (if res_files res = [] then [] else [(''files'', jarr J (map (file_to_json J) (res_files res)))]) @
       (if res_tiers res = [] then [] else [(''tiers'', jarr J (map (tier_to_json J) (res_tiers res)))])) k"
    for k using assms by (simp add: response_to_json_def json_at_set_nonempty json_at)
  have "get_if_present J ''chunks'' (chunk_from_json J) [] ?j = Some (res_chunks res)"
    by (rule get_set_nonempty [OF assms chunk_roundtrip [OF assms]]) (simp add: at)
  moreover have "get_if_present J ''files'' (file_from_json J) [] ?j = Some (res_files res)"
    by (rule get_set_nonempty [OF assms file_roundtrip [OF assms]]) (simp add: at)
  moreover have "get_if_present J ''tiers'' (tier_from_json J) [] ?j = Some (res_tiers res)"
    by (rule get_set_nonempty [OF assms tier_roundtrip [OF assms]]) (simp add: at)
  ultimately show ?thesis
    by (simp add: response_from_json_def at json_str [OF assms] get_word_juint [OF assms])
qed

lemma length_htonl [simp]: "length (htonl w) = 4"
  by (simp add: htonl_def)

lemma ucast_byte: "(ucast (ucast (w :: u32) :: u8) :: u32) = take_bit 8 w"
  by (simp add: unsigned_ucast_eq)

lemma ntohl_htonl [simp]: "ntohl (htonl w) = w"
proof -
  have step: "push_bit 8 (drop_bit (n + 8) w) + take_bit 8 (drop_bit n w) = drop_bit n w" for n
  proof -
    have "drop_bit (n + 8) w = drop_bit 8 (drop_bit n w)" by (simp add: add.commute)
    then show ?thesis by (simp only: bits_ident)
  qed
  have "ntohl (htonl w) = push_bit 8 (push_bit 8 (push_bit 8 (take_bit 8 (drop_bit 24 w))
      + take_bit 8 (drop_bit 16 w)) + take_bit 8 (drop_bit 8 w)) + take_bit 8 w"
    by (simp add: ntohl_def htonl_def ucast_byte)
  moreover have "take_bit 8 (drop_bit 24 w) = drop_bit 24 w"
    by (rule bit_word_eqI) (auto simp: bit_simps dest: bit_imp_le_length)
  ultimately show ?thesis using step [of 16] step [of 8] step [of 0] by simp
qed

lemma decode_encode_header: "decode_header (encode_header ch @ s) = ch"
  by (simp add: decode_header_def encode_header_def nth_append)

text \<open>
  Property (C20). The binary framing is lossless and self-delimiting: from a stream that starts with
  one sent chunk, the receiver reads back exactly that header and that data and leaves the rest of
  the stream for the next frame.
\<close>

theorem chunk_frame_roundtrip:
  assumes "length data = unat (ch_size ch)"
  shows "read_chunk_frame (send_chunk ch data @ rest) = Some (ch, data, rest)"
proof -
  have "length (encode_header ch) = 13" by (simp add: encode_header_def)
  then show ?thesis
    using assms decode_encode_header [of ch "data @ rest"]
    by (simp add: read_chunk_frame_def send_chunk_def Let_def)
qed

theorem chunk_frame_roundtrip_witness:
  "length [10 :: u8, 20] = unat (2 :: u32) \<and>
   read_chunk_frame (send_chunk \<lparr>ch_transfer_id = 7, ch_index = 258, ch_size = 2, ch_flags = 4\<rparr> [10, 20] @ [99])
   = Some (\<lparr>ch_transfer_id = 7, ch_index = 258, ch_size = 2, ch_flags = 4\<rparr>, [10, 20], [99])"
  using chunk_frame_roundtrip [of "[10, 20]"
    "\<lparr>ch_transfer_id = 7, ch_index = 258, ch_size = 2, ch_flags = 4\<rparr>" "[99]"] by simp

text \<open>
  The control framing is lossless: a JSON message that the sender's size check lets
  through is read back as the same value, and the bytes after it are left for the next frame.
\<close>

lemma json_frame_roundtrip:
  assumes "json_text J" and "write_json J j = Some s"
  shows "read_json_frame J (s @ rest) = Json_Frame j rest"
proof -
  let ?b = "jdump J j"
  have len: "length ?b \<le> 4294967295" and s: "s = htonl (of_nat (length ?b)) @ ?b"
    using assms(2) by (auto simp: write_json_def Let_def split: if_splits)
  have "unat (of_nat (length ?b) :: u32) = length ?b"
    using len by (simp add: unat_of_nat)
  then show ?thesis
    using assms(1) by (simp add: s read_json_frame_def Let_def json_text_def)
qed

end
