(* ===== verification/FsUtils.thy ===== *)
theory FsUtils
  imports Disk_Laws Protocol
begin

text \<open>
  \<^verbatim>\<open>fsutils\<close> (\<^verbatim>\<open>shared/src/filesystem/utils.cpp\<close>): path resolution and the subpath test that confines
  a session to its user directory, the non-throwing wrappers around \<^verbatim>\<open>std::filesystem\<close>, chunked
  reading and writing, hashing and directory scans. A function that changes the disk returns the new
  disk beside its result.
\<close>

section \<open>Constants and metadata\<close>

definition CHUNK_SIZE :: u32 where "CHUNK_SIZE = 256 * 1024"

definition HASH_ERROR :: bytes where "HASH_ERROR = replicate 32 0"

abbreviation (input) SIZE_ERROR :: u64 where "SIZE_ERROR \<equiv> UINT64_MAX"

record FileMetadata =
  fm_absolute_path :: fpath
  fm_size :: u32
  fm_last_modified :: u64
  fm_hash :: bytes

definition no_metadata :: FileMetadata where
  "no_metadata = \<lparr>fm_absolute_path = Rel [], fm_size = 0, fm_last_modified = 0, fm_hash = HASH_ERROR\<rparr>"

section \<open>Paths\<close>

definition normalize :: "disk \<Rightarrow> fpath \<Rightarrow> fpath" where
  "normalize d p = weakly_canonical d p"

definition absolute :: "disk \<Rightarrow> fpath \<Rightarrow> fpath" where
  "absolute d p = normalize d (fs_absolute d p)"

definition relative :: "disk \<Rightarrow> fpath \<Rightarrow> fpath \<Rightarrow> fpath" where
  "relative d base p = fs_relative d p base"

definition resolve_path :: "disk \<Rightarrow> fpath \<Rightarrow> fpath \<Rightarrow> fpath \<Rightarrow> fpath" where
  "resolve_path d user_dir current_dir p =
     (if is_absolute p then absolute d (path_append user_dir (relative_path p))
      else absolute d (path_append current_dir p))"

definition exists :: "disk \<Rightarrow> fpath \<Rightarrow> bool" where
  "exists d p = fs_exists d p"

definition is_file :: "disk \<Rightarrow> fpath \<Rightarrow> bool" where
  "is_file d p = fs_is_regular_file d p"

definition is_directory :: "disk \<Rightarrow> fpath \<Rightarrow> bool" where
  "is_directory d p = fs_is_directory d p"

definition paths_equal :: "disk \<Rightarrow> fpath \<Rightarrow> fpath \<Rightarrow> bool" where
  "paths_equal d p1 p2 \<longleftrightarrow> normalize d p1 = normalize d p2"

text \<open>The element loop of \<^verbatim>\<open>is_subpath\<close>: no early mismatch, and the base is used up.\<close>

fun subpath_loop :: "apath \<Rightarrow> apath \<Rightarrow> bool" where
  "subpath_loop (b # bs) (s # ss) = (if b \<noteq> s then False else subpath_loop bs ss)"
| "subpath_loop bs ss = (bs = [])"

definition is_subpath :: "disk \<Rightarrow> fpath \<Rightarrow> fpath \<Rightarrow> bool" where
  "is_subpath d base sub =
     (case (weakly_canonical d base, weakly_canonical d sub) of
        (Abs bs, Abs ss) \<Rightarrow> subpath_loop (''/'' # bs) (''/'' # ss)
      | (Rel bs, Rel ss) \<Rightarrow> subpath_loop bs ss
      | (Abs bs, Rel ss) \<Rightarrow> subpath_loop (''/'' # bs) ss
      | (Rel bs, Abs ss) \<Rightarrow> subpath_loop bs (''/'' # ss))"

section \<open>File information\<close>

definition get_file_size :: "disk \<Rightarrow> fpath \<Rightarrow> u64" where
  "get_file_size d p =
     (case fs_file_size d p of None \<Rightarrow> SIZE_ERROR
      | Some n \<Rightarrow> if int n > 4294967295 then SIZE_ERROR else of_nat n)"

definition get_last_write_time :: "disk \<Rightarrow> fpath \<Rightarrow> u64" where
  "get_last_write_time d p = (case locate d p of None \<Rightarrow> UINT64_MAX | Some q \<Rightarrow> mtimes d q)"

section \<open>Directories and files\<close>

definition mkdir :: "disk \<Rightarrow> fpath \<Rightarrow> bool \<times> disk" where
  "mkdir d p = (case fs_create_directories d p of (ok, created, d') \<Rightarrow> (ok \<and> created, d'))"

definition rmdir :: "disk \<Rightarrow> fpath \<Rightarrow> bool \<times> disk" where
  "rmdir d p = (case fs_remove_all d p of (ok, n, d') \<Rightarrow> (ok \<and> (of_nat n :: u32) > 0, d'))"

text \<open>\<^verbatim>\<open>std::ofstream\<close> on a path: the file is created, or truncated when it exists.\<close>

definition open_new :: "disk \<Rightarrow> fpath \<Rightarrow> bool \<times> disk" where
  "open_new d p =
     (case target d p of None \<Rightarrow> (False, d)
      | Some q \<Rightarrow> if trailing_slash p then (False, d) else sys_write d q [])"

definition create_empty_file :: "disk \<Rightarrow> fpath \<Rightarrow> bool \<times> disk" where
  "create_empty_file d p = (if fs_exists d p then (False, d) else open_new d p)"

definition remove_file :: "disk \<Rightarrow> fpath \<Rightarrow> bool \<times> disk" where
  "remove_file d p = (case fs_remove d p of (ok, removed, d') \<Rightarrow> (ok \<and> removed, d'))"

text \<open>
  How the metadata files are rewritten: \<^verbatim>\<open>std::ofstream\<close> on a \<^verbatim>\<open>.tmp\<close> sibling, the text, then a
  rename over the old file. A failed open or rename is an exception, the state of the stream after
  writing is not looked at.
\<close>

definition stream_write :: "disk \<Rightarrow> fpath \<Rightarrow> bytes \<Rightarrow> bool \<times> disk" where
  "stream_write d p bs = (case locate d p of None \<Rightarrow> (False, d) | Some q \<Rightarrow> sys_write d q bs)"

definition save_text :: "disk \<Rightarrow> fpath \<Rightarrow> bytes \<Rightarrow> bool \<times> disk" where
  "save_text d file bs =
     (let tmp = path_concat file ''.tmp''
      in case open_new d tmp of
           (False, d1) \<Rightarrow> (False, d1)
         | (True, d1) \<Rightarrow> fs_rename (snd (stream_write d1 tmp bs)) tmp file)"

text \<open>The common opening of \<^verbatim>\<open>copy_path\<close> and \<^verbatim>\<open>move_path\<close>: parents created, destination cleared.\<close>

definition prepare_dest :: "disk \<Rightarrow> fpath \<Rightarrow> bool \<Rightarrow> bool \<times> disk" where
  "prepare_dest d dest overwrite =
     (case (if path_empty (parent_path dest) then (True, False, d)
            else fs_create_directories d (parent_path dest)) of
        (False, _, d1) \<Rightarrow> (False, d1)
      | (True, _, d1) \<Rightarrow>
          if overwrite \<and> fs_exists d1 dest
          then (case fs_remove_all d1 dest of (ok, _, d2) \<Rightarrow> (ok, d2)) else (True, d1))"

definition copy_path :: "disk \<Rightarrow> fpath \<Rightarrow> fpath \<Rightarrow> bool \<Rightarrow> bool \<times> disk" where
  "copy_path d src dest overwrite =
     (if \<not> fs_exists d src then (False, d)
      else case prepare_dest d dest overwrite of
        (False, d1) \<Rightarrow> (False, d1)
      | (True, d1) \<Rightarrow>
          if fs_is_directory d1 src
          then (case fs_create_directories d1 dest of
                  (False, _, d2) \<Rightarrow> (False, d2)
                | (True, _, d2) \<Rightarrow> fs_copy d2 src dest False)
          else fs_copy_file d1 src dest overwrite)"

definition move_path :: "disk \<Rightarrow> fpath \<Rightarrow> fpath \<Rightarrow> bool \<Rightarrow> bool \<times> disk" where
  "move_path d src dest overwrite =
     (if \<not> fs_exists d src then (False, d)
      else case prepare_dest d dest overwrite of
        (False, d1) \<Rightarrow> (False, d1)
      | (True, d1) \<Rightarrow>
         (case fs_rename d1 src dest of
            (True, d2) \<Rightarrow> (True, d2)
          | (False, d2) \<Rightarrow>
              if fs_is_directory d2 src
              then (case fs_create_directories d2 dest of
                      (False, _, d3) \<Rightarrow> (False, d3)
                    | (True, _, d3) \<Rightarrow>
                        (case fs_copy d3 src dest True of
                           (False, d4) \<Rightarrow> (False, d4)
                         | (True, d4) \<Rightarrow> (case fs_remove_all d4 src of (ok, _, d5) \<Rightarrow> (ok, d5))))
              else (case fs_copy_file d2 src dest overwrite of
                      (False, d3) \<Rightarrow> (False, d3)
                    | (True, d3) \<Rightarrow> (case fs_remove d3 src of (ok, _, d4) \<Rightarrow> (ok, d4)))))"

section \<open>Chunks\<close>

definition splice :: "nat \<Rightarrow> bytes \<Rightarrow> bytes \<Rightarrow> bytes" where
  "splice off data c =
     (if data = [] then c
      else take off (c @ replicate (off - length c) 0) @ data @ drop (off + length data) c)"

definition write_chunk :: "disk \<Rightarrow> fpath \<Rightarrow> u32 \<Rightarrow> bytes \<Rightarrow> bool \<times> disk" where
  "write_chunk d p offset data =
     (case status d p of
        Some (File c) \<Rightarrow> (case locate d p of Some q \<Rightarrow> sys_write d q (splice (unat offset) data c)
                          | None \<Rightarrow> (False, d))
      | _ \<Rightarrow>
        (case open_new d p of
           (False, d1) \<Rightarrow> (False, d1)
         | (True, d1) \<Rightarrow> (case locate d1 p of Some q \<Rightarrow> sys_write d1 q (splice (unat offset) data [])
                          | None \<Rightarrow> (False, d1))))"

definition read_chunk :: "disk \<Rightarrow> fpath \<Rightarrow> u32 \<Rightarrow> u32 \<Rightarrow> bytes" where
  "read_chunk d p offset sz =
     (case status d p of Some (File c) \<Rightarrow> take (unat sz) (drop (unat offset) c) | _ \<Rightarrow> [])"

definition chunk_count :: "u32 \<Rightarrow> u32" where
  "chunk_count file_size = (if file_size = 0 then 0 else (file_size + CHUNK_SIZE - 1) div CHUNK_SIZE)"

section \<open>Hashes\<close>

definition is_hash_error :: "bytes \<Rightarrow> bool" where
  "is_hash_error h = list_all (\<lambda>b. b = 0) h"

text \<open>The read loop of \<^verbatim>\<open>hash_file\<close>: blocks of 8192 bytes, a short block ends it.\<close>

function hash_blocks :: "bytes \<Rightarrow> bytes list" where
  "hash_blocks c =
     (if int (length c) < 8192 then (if c = [] then [] else [c])
      else take 8192 c # hash_blocks (drop 8192 c))"
  by pat_completeness auto
termination
  by (relation "measure length") auto

declare hash_blocks.simps [simp del]

definition hash_file :: "sodium \<Rightarrow> disk \<Rightarrow> fpath \<Rightarrow> bytes" where
  "hash_file S d p =
     (case status d p of None \<Rightarrow> HASH_ERROR
      | Some Dir \<Rightarrow> generichash_multi S []
      | Some (File c) \<Rightarrow> generichash_multi S (hash_blocks c))"

definition hash_chunk :: "sodium \<Rightarrow> bytes \<Rightarrow> bytes" where
  "hash_chunk S data = generichash S data"

definition hash_to_hex :: "sodium \<Rightarrow> bytes \<Rightarrow> string" where
  "hash_to_hex S h = bin2hex S h"

definition hex_to_hash :: "sodium \<Rightarrow> string \<Rightarrow> bytes" where
  "hex_to_hash S hex =
     (if length hex div 2 \<noteq> 32 then HASH_ERROR
      else case hex2bin S 32 hex of None \<Rightarrow> HASH_ERROR
           | Some h \<Rightarrow> if length h \<noteq> 32 then HASH_ERROR else h)"

section \<open>Scans\<close>

definition is_scan_file_error :: "FileMetadata \<Rightarrow> bool" where
  "is_scan_file_error fm \<longleftrightarrow> path_empty (fm_absolute_path fm) \<and> fm_size fm = 0"

definition is_scan_dir_error :: "FileMetadata list \<Rightarrow> bool" where
  "is_scan_dir_error fms = (case fms of [fm] \<Rightarrow> is_scan_file_error fm | _ \<Rightarrow> False)"

definition scan_file :: "sodium \<Rightarrow> disk \<Rightarrow> fpath \<Rightarrow> FileMetadata" where
  "scan_file S d p =
     (if get_file_size d p = SIZE_ERROR then no_metadata
      else if is_hash_error (hash_file S d p) then no_metadata
      else \<lparr>fm_absolute_path = absolute d p, fm_size = ucast (get_file_size d p),
            fm_last_modified = get_last_write_time d p, fm_hash = hash_file S d p\<rparr>)"

definition process_entry :: "sodium \<Rightarrow> disk \<Rightarrow> fpath \<Rightarrow> FileMetadata option" where
  "process_entry S d p =
     (let fm = \<lparr>fm_absolute_path = absolute d p, fm_size = 0,
                fm_last_modified = get_last_write_time d p, fm_hash = HASH_ERROR\<rparr>
      in if is_file d p
         then if get_file_size d p = SIZE_ERROR then None
              else if is_hash_error (hash_file S d p) then None
              else Some (fm\<lparr>fm_size := ucast (get_file_size d p), fm_hash := hash_file S d p\<rparr>)
         else Some fm)"

definition scan_directory :: "sodium \<Rightarrow> disk \<Rightarrow> fpath \<Rightarrow> bool \<Rightarrow> FileMetadata list" where
  "scan_directory S d dir recursive =
     (case locate d dir of None \<Rightarrow> []
      | Some q \<Rightarrow>
          if \<not> isdir d q then []
          else case those (map (\<lambda>(k, n). process_entry S d (Abs k))
                            (if recursive then below d q else children d q)) of
                 None \<Rightarrow> [no_metadata]
               | Some fms \<Rightarrow> fms)"

definition is_compute_chunks_error :: "ChunkInfo list \<Rightarrow> bool" where
  "is_compute_chunks_error cs = (case cs of [c] \<Rightarrow> ci_index c = 0 \<and> ci_size c = 0 | _ \<Rightarrow> False)"

definition no_chunk :: ChunkInfo where
  "no_chunk = \<lparr>ci_index = 0, ci_size = 0, ci_chunk_hash = []\<rparr>"

text \<open>One turn of the loop of \<^verbatim>\<open>compute_chunks\<close>; \<^verbatim>\<open>None\<close> is its error return.\<close>

definition chunk_at :: "sodium \<Rightarrow> disk \<Rightarrow> FileMetadata \<Rightarrow> u32 \<Rightarrow> ChunkInfo option" where
  "chunk_at S d fm i =
     (let offset = i * CHUNK_SIZE;
          chunk_size = min CHUNK_SIZE (fm_size fm - offset);
          data = read_chunk d (fm_absolute_path fm) offset chunk_size
      in if data = [] then None
         else let h = hash_chunk S data
              in if is_hash_error h then None
                 else Some \<lparr>ci_index = i, ci_size = chunk_size, ci_chunk_hash = hash_to_hex S h\<rparr>)"

definition compute_chunks :: "sodium \<Rightarrow> disk \<Rightarrow> FileMetadata \<Rightarrow> ChunkInfo list" where
  "compute_chunks S d fm =
     (case those (map (\<lambda>i. chunk_at S d fm (of_nat i)) [0..<unat (chunk_count (fm_size fm))]) of
        None \<Rightarrow> [no_chunk] | Some cs \<Rightarrow> cs)"

end
