(* ===== verification/FsUtils_Laws.thy ===== *)
theory FsUtils_Laws
  imports FsUtils
begin

text \<open>
  Laws of \<^verbatim>\<open>fsutils\<close>. The first group is about confinement: a path that a session resolved and that
  passed \<^verbatim>\<open>is_subpath\<close> is \<^verbatim>\<open>confined\<close> to the user directory, and every operation on confined paths
  leaves the rest of the disk alone, whatever faults occur; the locales \<^verbatim>\<open>confined_op\<close> and
  \<^verbatim>\<open>confined_op2\<close> state this contract and are interpreted on the operations the session handlers
  call. The second group is about chunks and hashes.
\<close>

section \<open>Confinement\<close>

lemma subpath_loop_prefix: "subpath_loop bs ss \<longleftrightarrow> prefix bs ss"
  by (induction bs ss rule: subpath_loop.induct) auto

lemma is_subpath_Abs:
  "weakly_canonical d base = Abs bs \<Longrightarrow> weakly_canonical d sub = Abs ss \<Longrightarrow>
   is_subpath d base sub \<longleftrightarrow> prefix bs ss"
  by (simp add: is_subpath_def subpath_loop_prefix)

text \<open>A path as \<^verbatim>\<open>resolve_path\<close> leaves it: plain names and perhaps a trailing separator.\<close>

definition resolved :: "fpath \<Rightarrow> apath \<Rightarrow> bool" where
  "resolved p cs \<longleftrightarrow> list_all plain_name cs \<and> (p = Abs cs \<or> (p = Abs (cs @ [[]]) \<and> cs \<noteq> []))"

definition confined :: "apath \<Rightarrow> fpath \<Rightarrow> bool" where
  "confined u p \<longleftrightarrow> (\<exists>cs. resolved p cs \<and> prefix u cs)"

lemma weakly_canonical_resolved:
  assumes "wf_disk d" and "list_all plain_name st"
  shows "\<exists>cs. resolved (weakly_canonical d (Abs ps)) cs"
proof (cases "walk d [] ps")
  case None
  have "list_all plain_name (norm_stack [] ps)" by (simp add: norm_stack_plain)
  then show ?thesis using None
    by (auto simp: weakly_canonical_def locate_Abs fs_absolute_def resolved_def lexically_normal_def Let_def)
next
  case (Some q)
  then have "list_all plain_name q" using walk_norm wf_plain_names [OF assms(1)] by blast
  then show ?thesis using Some by (auto simp: weakly_canonical_def locate_Abs resolved_def)
qed

lemma resolve_path_resolved:
  assumes "wf_disk d"
  shows "\<exists>cs. resolved (resolve_path d (Abs u) (Abs c) p) cs"
  using weakly_canonical_resolved [OF assms, of "[]"]
  by (auto simp: resolve_path_def absolute_def normalize_def fs_absolute_def path_append_def
      relative_path_def is_absolute_def split: fpath.splits)

lemma resolved_locate:
  assumes "wf_disk d" and "resolved p cs" and "locate d p = Some q"
  shows "q = cs"
  using assms by (auto simp: resolved_def locate_Abs walk_plain walk_trailing split: if_splits)

lemma lexically_normal_resolved:
  "list_all plain_name cs \<Longrightarrow> lexically_normal cs = cs"
  "list_all plain_name cs \<Longrightarrow> cs \<noteq> [] \<Longrightarrow> lexically_normal (cs @ [[]]) = cs @ [[]]"
proof -
  assume pl: "list_all plain_name cs"
  have "cs \<noteq> [] \<Longrightarrow> plain_name (last cs)" using pl by (simp add: list_all_iff)
  then show "lexically_normal cs = cs"
    using pl by (auto simp: lexically_normal_def norm_stack_id plain_name_def)
  show "cs \<noteq> [] \<Longrightarrow> lexically_normal (cs @ [[]]) = cs @ [[]]"
    using pl by (simp add: lexically_normal_def norm_stack_id)
qed

lemma prefix_trailing:
  "list_all plain_name u \<Longrightarrow> prefix u (cs @ [[]]) \<Longrightarrow> prefix u cs"
  by (auto simp: prefix_snoc plain_name_def)

lemma confinedI:
  assumes wf: "wf_disk d" and u: "lookup d u \<noteq> None" and res: "resolved p cs"
    and sub: "is_subpath d (Abs u) p"
  shows "confined u p"
proof -
  have pu: "list_all plain_name u" using wf u by (rule wf_plain_names)
  have cu: "weakly_canonical d (Abs u) = Abs u"
    using wf u by (simp add: weakly_canonical_def locate_plain_Abs)
  have "prefix u cs"
  proof (cases "locate d p")
    case None
    then have "weakly_canonical d p = p"
      using res by (auto simp: resolved_def weakly_canonical_def fs_absolute_def lexically_normal_resolved)
    then show ?thesis
      using res sub pu by (auto simp: resolved_def is_subpath_Abs [OF cu] dest: prefix_trailing)
  next
    case (Some q)
    then have "weakly_canonical d p = Abs q" by (simp add: weakly_canonical_def)
    then show ?thesis using sub resolved_locate [OF wf res Some] by (simp add: is_subpath_Abs [OF cu])
  qed
  with res show ?thesis by (auto simp: confined_def)
qed

lemma confined_locate:
  "wf_disk d \<Longrightarrow> confined u p \<Longrightarrow> locate d p = Some q \<Longrightarrow> prefix u q"
  by (auto simp: confined_def dest: resolved_locate)

lemma walk_butlast_plain:
  "wf_disk d \<Longrightarrow> list_all plain_name cs \<Longrightarrow> cs \<noteq> [] \<Longrightarrow>
   walk d [] (butlast cs) = (if lookup d (butlast cs) = None then None else Some (butlast cs))"
  by (subst walk_plain) (auto simp: list_all_iff dest: in_set_butlastD)

lemma resolved_target:
  assumes wf: "wf_disk d" and res: "resolved p cs" and tg: "target d p = Some t"
  shows "t = cs \<and> (cs \<noteq> [] \<longrightarrow> plain_name (last cs) \<and> isdir d (butlast cs))"
proof (cases "cs = []")
  case True
  then show ?thesis using assms by (auto simp: resolved_def target_def locate_def split: if_splits)
next
  case False
  have "plain_name (last cs)" using res False by (simp add: resolved_def list_all_iff)
  moreover have "last cs \<noteq> []" using calculation by (simp add: plain_name_def)
  ultimately show ?thesis
    using assms False
    by (auto simp: resolved_def target_def Let_def walk_butlast_plain split: if_splits option.splits)
qed

lemma plain_dotless: "list_all plain_name cs \<Longrightarrow> dotless cs"
  by (induction cs) (auto simp: plain_name_def)

lemma dotless_append: "dotless (xs @ ys) \<longleftrightarrow> dotless xs \<and> dotless ys"
  by (auto simp: dotless_def)

lemma list_all_butlast: "list_all P xs \<Longrightarrow> list_all P (butlast xs)"
  by (auto simp: list_all_iff dest: in_set_butlastD)

lemma make_dirs_confined:
  assumes wf: "wf_disk d" and u: "isdir d u" and pl: "list_all plain_name cs"
    and cmp: "prefix u cs \<or> prefix cs u" and dr: "dr = [] \<or> dr = [[]]"
    and mk: "make_dirs d [] made (cs @ dr) = (ok, new, d')"
  shows "agree (outside u) d d'" and "wf_disk d'" and "isdir d' u"
proof -
  have dl: "dotless (cs @ dr)" using plain_dotless [OF pl] dr by (auto simp: dotless_append)
  have nm: "norm_stack [] (cs @ dr) = cs" using pl dr norm_stack_id [of cs "[]"] by auto
  note old = make_dirs_agree [OF mk] and along = make_dirs_along [OF mk dl, unfolded nm]
  have "lookup d' q = lookup d q" if "outside u q" for q
  proof (cases "lookup d q = None")
    case True
    have "\<not> prefix q cs"
    proof
      assume "prefix q cs"
      with cmp that have "prefix q u"
        by (metis prefix_same_cases prefix_order.trans)
      then obtain r where "u = q @ r" by (auto simp: prefix_def)
      then show False using wf_prefix_exists [OF wf, of q r] u True by (auto dest: isdir_lookup)
    qed
    then show ?thesis using along by (simp add: agree_lookup)
  next
    case False
    then show ?thesis using old by (simp add: agree_lookup)
  qed
  then show "agree (outside u) d d'" using agree_env [OF old] by (simp add: agree_def)
  show "wf_disk d'" using mk wf by (rule make_dirs_wf)
  show "isdir d' u" using old u by (auto simp: isdir_def agree_lookup)
qed

lemma create_directories_confined:
  assumes "wf_disk d" and "isdir d u" and "confined u p"
    and "fs_create_directories d p = (ok, new, d')"
  shows "agree (outside u) d d'" and "wf_disk d'" and "isdir d' u"
proof -
  obtain cs where res: "resolved p cs" and pre: "prefix u cs \<or> prefix cs u"
    using assms(3) by (auto simp: confined_def)
  obtain dr where p: "p = Abs (cs @ dr)" "dr = [] \<or> dr = [[]]" and pl: "list_all plain_name cs"
    using res by (cases "p = Abs cs") (auto simp: resolved_def)
  have mk: "make_dirs d [] False (cs @ dr) = (ok, new, d')"
    using assms(4) p by (simp add: fs_create_directories_def)
  note r = make_dirs_confined [OF assms(1,2) pl pre p(2) mk]
  show "agree (outside u) d d'" "wf_disk d'" "isdir d' u" by (fact r)+
qed

lemma create_parents_confined:
  assumes "wf_disk d" and "isdir d u" and "confined u p"
    and "fs_create_directories d (parent_path p) = (ok, new, d')"
  shows "agree (outside u) d d'" and "wf_disk d'" and "isdir d' u"
proof -
  obtain cs where res: "resolved p cs" and pre: "prefix u cs"
    using assms(3) by (auto simp: confined_def)
  have bl: "prefix u (butlast cs) \<or> prefix (butlast cs) u"
    using pre by (metis prefix_same_cases prefixeq_butlast)
  obtain bs where p: "parent_path p = Abs (bs @ [])" "list_all plain_name bs" "prefix u bs \<or> prefix bs u"
    using res pre bl
    by (cases "p = Abs cs") (auto simp: resolved_def parent_path_def list_all_butlast)
  have mk: "make_dirs d [] False (bs @ []) = (ok, new, d')"
    using assms(4) p by (simp add: fs_create_directories_def)
  note r = make_dirs_confined [OF assms(1,2) p(2,3) _ mk]
  show "agree (outside u) d d'" "wf_disk d'" "isdir d' u" by (rule r; simp)+
qed

text \<open>Everything outside \<^verbatim>\<open>u\<close> is as before and the disk is still a tree.\<close>

definition safe_step :: "apath \<Rightarrow> disk \<Rightarrow> disk \<Rightarrow> bool" where
  "safe_step u d d' \<longleftrightarrow> agree (outside u) d d' \<and> wf_disk d'"

lemma safe_step_refl: "wf_disk d \<Longrightarrow> safe_step u d d"
  by (simp add: safe_step_def)

lemma safe_step_trans: "safe_step u d d1 \<Longrightarrow> safe_step u d1 d2 \<Longrightarrow> safe_step u d d2"
  by (auto simp: safe_step_def intro: agree_trans)

lemma safe_step_wf: "safe_step u d d' \<Longrightarrow> wf_disk d'"
  by (simp add: safe_step_def)

lemma agree_outside_mono: "agree (outside q) d d' \<Longrightarrow> prefix u q \<Longrightarrow> agree (outside u) d d'"
  by (erule agree_mono) (auto intro: prefix_order.trans)

lemma agree_other_outside: "agree (\<lambda>k. k \<noteq> q) d d' \<Longrightarrow> prefix u q \<Longrightarrow> agree (outside u) d d'"
  by (erule agree_mono) auto

lemma remove_all_inside:
  assumes "locate d p = Some q" and "fs_remove_all d p = (ok, n, d')"
  shows "agree (outside q) d d'"
proof -
  have "remove_each d (rev (sort_key length (q # map fst (below d q)))) 0 = (ok, n, d')"
    using assms by (simp add: fs_remove_all_def)
  from remove_each_agree [OF this] show ?thesis
    by (rule agree_mono) (auto simp: below_def strict_prefix_def set_insort_key)
qed

lemma remove_all_safe:
  assumes "wf_disk d" and "confined u p" and "fs_remove_all d p = (ok, n, d')"
  shows "safe_step u d d'"
proof (cases "locate d p")
  case None
  then show ?thesis using assms by (simp add: fs_remove_all_def safe_step_def)
next
  case (Some q)
  have "agree (outside u) d d'"
    using remove_all_inside [OF Some assms(3)] confined_locate [OF assms(1,2) Some]
    by (rule agree_outside_mono)
  moreover have "wf_disk d'"
    using assms(1,3) Some by (auto simp: fs_remove_all_def dest: remove_each_wf)
  ultimately show ?thesis by (simp add: safe_step_def)
qed

lemma confined_target:
  assumes "wf_disk d" and "confined u p" and "target d p = Some t"
  shows "prefix u t" and "t = [] \<or> plain_name (last t)"
  using assms by (auto simp: confined_def dest!: resolved_target)

lemma remove_safe:
  assumes "wf_disk d" and "confined u p" and "fs_remove d p = (ok, b, d')"
  shows "safe_step u d d'"
proof (cases "locate d p")
  case None
  then show ?thesis using assms by (simp add: fs_remove_def safe_step_def)
next
  case (Some q)
  with assms(3) obtain b' where rm: "sys_remove d q = (b', d')"
    by (auto simp: fs_remove_def split: prod.splits)
  show ?thesis
    using agree_other_outside [OF sys_remove_agree [OF rm] confined_locate [OF assms(1,2) Some]]
      sys_remove_wf [OF rm assms(1)] by (simp add: safe_step_def)
qed

lemma rename_safe:
  assumes "wf_disk d" and "confined u p" and "confined u p'" and "fs_rename d p p' = (ok, d')"
  shows "safe_step u d d' \<and> (\<not> ok \<longrightarrow> lookup d' = lookup d)"
proof (cases "d' = d \<and> \<not> ok")
  case True
  then show ?thesis using assms(1) by (simp add: safe_step_def)
next
  case False
  with assms(4) obtain s t where s: "locate d p = Some s" and t: "target d p' = Some t"
    and rn: "sys_rename d s t = (ok, d')"
    by (auto simp: fs_rename_def split: option.splits if_splits)
  have "prefix u s" "prefix u t"
    using confined_locate [OF assms(1,2) s] confined_target [OF assms(1,3) t] by auto
  then have "agree (outside u) d d'"
    using sys_rename_agree [OF rn] by (auto elim!: agree_mono intro: prefix_order.trans)
  moreover have "wf_disk d'"
    using rn assms(1) confined_target(2) [OF assms(1,3) t] by (rule sys_rename_wf)
  moreover have "\<not> ok \<longrightarrow> lookup d' = lookup d"
    using rn by (cases rule: sys_rename_cases) auto
  ultimately show ?thesis by (simp add: safe_step_def)
qed

lemma copy_file_safe:
  assumes "wf_disk d" and "confined u p'" and "fs_copy_file d p p' ov = (ok, d')"
  shows "safe_step u d d'"
proof (cases "d' = d")
  case False
  with assms(3) obtain t bs where t: "target d p' = Some t" and wr: "sys_write d t bs = (ok, d')"
    by (auto simp: fs_copy_file_def split: option.splits node.splits if_splits)
  show ?thesis
    using agree_other_outside [OF sys_write_agree [OF wr] confined_target(1) [OF assms(1,2) t]]
      sys_write_wf [OF wr assms(1) confined_target(2) [OF assms(1,2) t]] by (simp add: safe_step_def)
qed (use assms(1) in \<open>simp add: safe_step_def\<close>)

lemma copy_safe:
  assumes "wf_disk d" and "confined u p'" and "fs_copy d p p' ov = (ok, d')"
  shows "safe_step u d d'"
proof (cases "d' = d")
  case False
  with assms(3) obtain s t where t: "target d p' = Some t"
    and cp: "copy_tree (fd_limit d) ov d s t = (ok, d')"
    by (auto simp: fs_copy_def split: option.splits)
  show ?thesis
    using agree_outside_mono [OF copy_tree_agree(1) [OF cp] confined_target(1) [OF assms(1,2) t]]
      copy_tree_wf(1) [OF cp assms(1) confined_target(2) [OF assms(1,2) t]] by (simp add: safe_step_def)
qed (use assms(1) in \<open>simp add: safe_step_def\<close>)

lemma create_directories_safe:
  assumes "wf_disk d" and "isdir d u" and "confined u p" and "fs_create_directories d p = (ok, new, d')"
  shows "safe_step u d d' \<and> isdir d' u"
  using create_directories_confined [OF assms] by (simp add: safe_step_def)

lemma prepare_dest_safe:
  assumes "wf_disk d" and "isdir d u" and "confined u p" and "prepare_dest d p False = (ok, d')"
  shows "safe_step u d d' \<and> isdir d' u"
proof -
  have ne: "\<not> path_empty (parent_path p)"
    using assms(3) by (auto simp: confined_def resolved_def path_simps)
  obtain b new d1 where "fs_create_directories d (parent_path p) = (b, new, d1)" by (metis prod_cases3)
  with create_parents_confined [OF assms(1-3) this] assms(4) ne show ?thesis
    by (auto simp: prepare_dest_def safe_step_def split: bool.splits)
qed

section \<open>The contract of the session's operations\<close>

lemma resolve_confined:
  assumes "wf_disk d" and "isdir d u" and "is_subpath d (Abs u) (resolve_path d (Abs u) (Abs c) arg)"
  shows "confined u (resolve_path d (Abs u) (Abs c) arg)"
proof -
  obtain cs where "resolved (resolve_path d (Abs u) (Abs c) arg) cs"
    using resolve_path_resolved [OF assms(1)] by blast
  from confinedI [OF assms(1) isdir_lookup [OF assms(2)] this assms(3)] show ?thesis .
qed

locale confined_op =
  fixes op :: "disk \<Rightarrow> fpath \<Rightarrow> bool \<times> disk"
  assumes op_safe: "wf_disk d \<Longrightarrow> isdir d u \<Longrightarrow> confined u p \<Longrightarrow> safe_step u d (snd (op d p))"
begin

text \<open>An operation behind the session's guard: resolve, check the subpath, operate.\<close>

lemma guarded:
  assumes "wf_disk d" and "isdir d u" and "is_subpath d (Abs u) (resolve_path d (Abs u) (Abs c) arg)"
  shows "safe_step u d (snd (op d (resolve_path d (Abs u) (Abs c) arg)))"
  by (rule op_safe [OF assms(1,2) resolve_confined [OF assms]])

end

locale confined_op2 =
  fixes op2 :: "disk \<Rightarrow> fpath \<Rightarrow> fpath \<Rightarrow> bool \<times> disk"
  assumes op2_safe: "wf_disk d \<Longrightarrow> isdir d u \<Longrightarrow> confined u p \<Longrightarrow> confined u p' \<Longrightarrow>
    safe_step u d (snd (op2 d p p'))"
begin

lemma guarded2:
  assumes "wf_disk d" and "isdir d u" and "is_subpath d (Abs u) (resolve_path d (Abs u) (Abs c) a)"
    and "is_subpath d (Abs u) (resolve_path d (Abs u) (Abs c) b)"
  shows "safe_step u d (snd (op2 d (resolve_path d (Abs u) (Abs c) a) (resolve_path d (Abs u) (Abs c) b)))"
  by (rule op2_safe [OF assms(1,2) resolve_confined [OF assms(1-3)] resolve_confined [OF assms(1,2,4)]])

end

lemma mkdir_safe: "wf_disk d \<Longrightarrow> isdir d u \<Longrightarrow> confined u p \<Longrightarrow> safe_step u d (snd (mkdir d p))"
  by (cases "fs_create_directories d p") (auto simp: mkdir_def dest: create_directories_safe)

lemma rmdir_safe: "wf_disk d \<Longrightarrow> confined u p \<Longrightarrow> safe_step u d (snd (rmdir d p))"
  by (cases "fs_remove_all d p") (auto simp: rmdir_def dest: remove_all_safe)

lemma remove_file_safe: "wf_disk d \<Longrightarrow> confined u p \<Longrightarrow> safe_step u d (snd (remove_file d p))"
  by (cases "fs_remove d p") (auto simp: remove_file_def dest: remove_safe)

interpretation mkdir_op: confined_op mkdir
  by unfold_locales (rule mkdir_safe)

interpretation rmdir_op: confined_op rmdir
  by unfold_locales (rule rmdir_safe)

interpretation remove_file_op: confined_op remove_file
  by unfold_locales (rule remove_file_safe)

lemma copy_path_safe:
  assumes wf: "wf_disk d" and u: "isdir d u" and p: "confined u p" "confined u p'"
  shows "safe_step u d (snd (copy_path d p p' False))"
proof (cases "fs_exists d p")
  case True
  obtain b d1 where pd: "prepare_dest d p' False = (b, d1)" by force
  note s1 = prepare_dest_safe [OF wf u p(2) pd]
  show ?thesis
  proof (cases "b \<and> fs_is_directory d1 p")
    case dir: True
    obtain b2 new d2 where cd: "fs_create_directories d1 p' = (b2, new, d2)" by (metis prod_cases3)
    note s2 = create_directories_safe [OF safe_step_wf [OF conjunct1 [OF s1]] conjunct2 [OF s1] p(2) cd]
    obtain b3 d3 where cp: "fs_copy d2 p p' False = (b3, d3)" by force
    note s3 = copy_safe [OF safe_step_wf [OF conjunct1 [OF s2]] p(2) cp]
    show ?thesis
      using s1 s2 s3 True pd dir cd cp
      by (cases b2) (auto simp: copy_path_def intro: safe_step_trans)
  next
    case False
    obtain b3 d3 where cp: "fs_copy_file d1 p p' False = (b3, d3)" by force
    note s3 = copy_file_safe [OF safe_step_wf [OF conjunct1 [OF s1]] p(2) cp]
    show ?thesis
      using s1 s3 True pd False cp by (cases b) (auto simp: copy_path_def intro: safe_step_trans)
  qed
qed (use wf in \<open>simp add: copy_path_def safe_step_refl\<close>)

lemma move_path_safe:
  assumes wf: "wf_disk d" and u: "isdir d u" and p: "confined u p" "confined u p'"
  shows "safe_step u d (snd (move_path d p p' False))"
proof (cases "fs_exists d p")
  case True
  obtain b d1 where pd: "prepare_dest d p' False = (b, d1)" by force
  note s1 = prepare_dest_safe [OF wf u p(2) pd]
  from s1 have w1: "wf_disk d1" by (auto dest: safe_step_wf)
  obtain b2 d2 where rn: "fs_rename d1 p p' = (b2, d2)" by force
  note s2 = rename_safe [OF w1 p rn]
  from s1 s2 have w2: "wf_disk d2" and u2: "\<not> b2 \<Longrightarrow> isdir d2 u" by (auto simp: isdir_def dest: safe_step_wf)
  obtain b3 new d3 where cd: "fs_create_directories d2 p' = (b3, new, d3)" by (metis prod_cases3)
  have s3: "\<not> b2 \<Longrightarrow> safe_step u d2 d3" using create_directories_safe [OF w2 u2 p(2) cd] by simp
  obtain b4 d4 where cp: "fs_copy d3 p p' True = (b4, d4)" by force
  have s4: "\<not> b2 \<Longrightarrow> safe_step u d3 d4" using copy_safe [OF safe_step_wf [OF s3] p(2) cp] .
  obtain b5 n d5 where ra: "fs_remove_all d4 p = (b5, n, d5)" by (metis prod_cases3)
  have s5: "\<not> b2 \<Longrightarrow> safe_step u d4 d5" using remove_all_safe [OF safe_step_wf [OF s4] p(1) ra] .
  obtain c3 e3 where cf: "fs_copy_file d2 p p' False = (c3, e3)" by force
  note f3 = copy_file_safe [OF w2 p(2) cf]
  obtain c4 c5 e4 where rm: "fs_remove e3 p = (c4, c5, e4)" by (metis prod_cases3)
  note f4 = remove_safe [OF safe_step_wf [OF f3] p(1) rm]
  have s: "safe_step u d d1" "safe_step u d1 d2" using s1 s2 by auto
  have "snd (move_path d p p' False) \<in> {d1, d2, e3, e4} \<or>
      (\<not> b2 \<and> snd (move_path d p p' False) \<in> {d3, d4, d5})"
    using True pd rn cd cp ra cf rm by (auto simp: move_path_def split: bool.splits)
  moreover have "safe_step u d d1" "safe_step u d d2" "safe_step u d e3" "safe_step u d e4"
    using s f3 f4 by (blast intro: safe_step_trans)+
  moreover have "\<not> b2 \<Longrightarrow> safe_step u d d3" "\<not> b2 \<Longrightarrow> safe_step u d d4" "\<not> b2 \<Longrightarrow> safe_step u d d5"
    using s s3 s4 s5 by (blast intro: safe_step_trans)+
  ultimately show ?thesis by blast
qed (use wf in \<open>simp add: move_path_def safe_step_refl\<close>)

interpretation copy_op: confined_op2 "\<lambda>d p p'. copy_path d p p' False"
  by unfold_locales (rule copy_path_safe)

interpretation move_op: confined_op2 "\<lambda>d p p'. move_path d p p' False"
  by unfold_locales (rule move_path_safe)

section \<open>Rewriting a metadata file\<close>

definition tmp_of :: "apath \<Rightarrow> apath" where
  "tmp_of q = butlast q @ [last q @ ''.tmp'']"

text \<open>A place where a metadata file can live: its directory exists, neither name is a directory.\<close>

definition file_slot :: "disk \<Rightarrow> apath \<Rightarrow> bool" where
  "file_slot d q \<longleftrightarrow> q \<noteq> [] \<and> plain_name (last q) \<and> isdir d (butlast q) \<and>
     lookup d q \<noteq> Some Dir \<and> lookup d (tmp_of q) \<noteq> Some Dir"

lemma tmp_of_simps [simp]: "tmp_of q \<noteq> []" "butlast (tmp_of q) = butlast q" "last (tmp_of q) = last q @ ''.tmp''"
  by (simp_all add: tmp_of_def)

lemma tmp_of_neq: "q \<noteq> [] \<Longrightarrow> tmp_of q \<noteq> q"
  by (cases q rule: rev_cases) (auto simp: tmp_of_def)

lemma not_prefix_tmp: "q \<noteq> [] \<Longrightarrow> \<not> prefix (tmp_of q) q"
  by (cases q rule: rev_cases) (auto simp: tmp_of_def prefix_def)

lemma plain_tmp: "plain_name w \<Longrightarrow> plain_name (w @ ''.tmp'')"
  by (cases w) (auto simp: plain_name_def append_eq_Cons_conv)

lemma sys_write_ok:
  assumes "faults d = []" and "q \<noteq> []" and "isdir d (butlast q)" and "lookup d q \<noteq> Some Dir"
  shows "sys_write d q bs = (True, put d q (File bs))"
  using assms by (simp add: sys_write_def tick_no_faults)

lemma wf_file_leaf: "wf_disk d \<Longrightarrow> \<not> isdir d q \<Longrightarrow> strict_prefix q k \<Longrightarrow> lookup d k = None"
  using wf_prefix_exists [of d q] by (fastforce elim!: strict_prefixE' simp: prefix_def)

lemma fs_rename_False: "fs_rename d p p' = (False, d') \<Longrightarrow> lookup d' = lookup d"
  unfolding fs_rename_def by (auto split: option.splits if_splits elim: sys_rename_cases)

lemma slot_target:
  assumes wf: "wf_disk d" and slot: "file_slot d q"
  shows "target d (Abs (tmp_of q)) = Some (tmp_of q)" and "path_concat (Abs q) ''.tmp'' = Abs (tmp_of q)"
    and "\<not> trailing_slash (Abs (tmp_of q))" and "\<not> trailing_slash (Abs q)" and "plain_name (last (tmp_of q))"
    and "list_all plain_name (butlast q)"
proof -
  note q = slot [unfolded file_slot_def]
  show pq: "list_all plain_name (butlast q)"
    using wf_plain_names [OF wf, of "butlast q"] q by (auto simp: isdir_def)
  then have wk: "walk d [] (butlast q) = Some (butlast q)"
    using q by (simp add: walk_plain [OF wf] isdir_def)
  show "path_concat (Abs q) ''.tmp'' = Abs (tmp_of q)" using q by (simp add: path_concat_def tmp_of_def)
  show pt: "plain_name (last (tmp_of q))" using q plain_tmp by simp
  show "target d (Abs (tmp_of q)) = Some (tmp_of q)"
    using q pt wk by (simp add: target_def Let_def) (simp add: tmp_of_def)
  show "\<not> trailing_slash (Abs (tmp_of q))" "\<not> trailing_slash (Abs q)"
    using pt q by (auto simp: trailing_slash_def plain_name_def)
qed

lemma tmp_write_ok:
  assumes wf: "wf_disk d" and slot: "file_slot d q" and nf: "faults d = []"
  defines "d1 \<equiv> put d (tmp_of q) (File [])"
  shows "open_new d (Abs (tmp_of q)) = (True, d1)"
    and "stream_write d1 (Abs (tmp_of q)) bs = (True, put d1 (tmp_of q) (File bs))"
    and "wf_disk (put d1 (tmp_of q) (File bs))"
proof -
  let ?t = "tmp_of q"
  note q = slot [unfolded file_slot_def] and t = slot_target [OF wf slot]
  have w1: "wf_disk d1" unfolding d1_def using wf q t(5) by (intro wf_put) auto
  show "wf_disk (put d1 ?t (File bs))" using q t(5) by (intro wf_put [OF w1]) (auto simp: isdir_def d1_def)
  show "open_new d (Abs ?t) = (True, d1)"
    using t sys_write_ok [OF nf, of ?t] q by (simp add: open_new_def d1_def)
  have b: "butlast q \<noteq> ?t" using q by (auto simp: isdir_def)
  have "locate d1 (Abs ?t) = Some ?t" using w1 by (simp add: locate_plain_Abs d1_def)
  then show "stream_write d1 (Abs ?t) bs = (True, put d1 ?t (File bs))"
    using sys_write_ok [of d1 ?t bs] nf q b by (simp add: stream_write_def isdir_def d1_def)
qed

lemma save_text_ok:
  assumes wf: "wf_disk d" and slot: "file_slot d q" and nf: "faults d = []"
  obtains d' where "save_text d (Abs q) bs = (True, d')" "wf_disk d'" "faults d' = []"
    "\<And>k. lookup d' k = (if k = q then Some (File bs) else if k = tmp_of q then None else lookup d k)"
proof -
  let ?t = "tmp_of q"
  let ?d1 = "put d ?t (File [])" and ?d2 = "put (put d ?t (File [])) ?t (File bs)"
  note q = slot [unfolded file_slot_def]
  note pq = slot_target(6) [OF wf slot] and tmp = slot_target(2) [OF wf slot]
  have pt: "plain_name (last ?t)" "last ?t \<noteq> []" "last q \<noteq> []"
    using q plain_tmp by (auto simp: plain_name_def)
  note op = tmp_write_ok(1) [OF assms] and st = tmp_write_ok(2) [OF assms, of bs] and w2 = tmp_write_ok(3) [OF assms, of bs]
  have b: "butlast q \<noteq> ?t" using q by (auto simp: isdir_def)
  have lt: "locate ?d2 (Abs ?t) = Some ?t" using w2 by (simp add: locate_plain_Abs)
  have wk2: "walk ?d2 [] (butlast q) = Some (butlast q)"
    using q pq b by (simp add: walk_plain [OF w2] isdir_def)
  then have tq: "target ?d2 (Abs q) = Some q"
    using q pt b by (simp add: target_def Let_def isdir_def)
  have nc: "\<not> has_children ?d2 q"
    using wf_file_leaf [OF w2, of q] q tmp_of_neq [of q] by (auto simp: has_children_iff isdir_def)
  have np: "\<not> prefix ?t q" using q by (simp add: not_prefix_tmp)
  obtain d' where rn: "sys_rename ?d2 ?t q = (True, d')"
    and d': "d' = ?d2\<lparr>nodes := map (\<lambda>(k, n). (reroot ?t q k, n)) (AList.delete q (nodes ?d2))\<rparr>"
    using q nc np b nf tmp_of_neq [of q]
    by (auto simp: sys_rename_def tick_no_faults isdir_def strict_prefix_def)
  have "lookup d' k = (if k = q then Some (File bs) else if k = ?t then None else lookup d k)" for k
  proof -
    have "lookup d' k = (if prefix q k then lookup ?d2 (reroot q ?t k) else if prefix ?t k then None
        else lookup ?d2 k)"
      by (rule lookup_rename [OF tick_no_faults np nc d']) (simp add: nf)
    moreover have "strict_prefix ?t k \<Longrightarrow> lookup d k = None"
      using wf_file_leaf [OF wf, of ?t] q by (simp add: isdir_def)
    moreover have "strict_prefix q k \<Longrightarrow> lookup d k = None \<and> lookup ?d2 (reroot q ?t k) = None"
      using wf_file_leaf [OF wf, of q k] wf_file_leaf [OF w2, of ?t "reroot q ?t k"] q
      by (auto simp: isdir_def reroot_def strict_prefix_def prefix_def)
    ultimately show ?thesis
      by (cases "k = q"; cases "k = ?t") (auto simp: reroot_def strict_prefix_def)
  qed
  moreover have "save_text d (Abs q) bs = (True, d')"
    using op st lt tq rn pt q by (simp add: save_text_def tmp Let_def fs_rename_def trailing_slash_def)
  moreover have "wf_disk d'" using rn w2 q by (auto intro: sys_rename_wf)
  moreover have "faults d' = []" using nf by (simp add: d')
  ultimately show thesis using that by blast
qed

text \<open>
  The contract of a metadata file kept as text: what is written can be decoded, up to what the
  format drops. The users of \<^verbatim>\<open>save_text\<close> interpret it with their own JSON conversions.
\<close>

locale text_codec =
  fixes enc :: "'a \<Rightarrow> bytes" and dec :: "bytes \<Rightarrow> 'b option" and valid :: "'a \<Rightarrow> bool" and stored :: "'a \<Rightarrow> 'b"
  assumes dec_enc: "valid x \<Longrightarrow> dec (enc x) = Some (stored x)" and enc_nonempty: "valid x \<Longrightarrow> enc x \<noteq> []"
begin

lemma saved:
  assumes "wf_disk d" and "file_slot d q" and "faults d = []" and "valid x"
  obtains d' c cs where "save_text d (Abs q) (enc x) = (True, d')" "status d' (Abs q) = Some (File (c # cs))"
    "dec (c # cs) = Some (stored x)" "wf_disk d'" "faults d' = []" "file_slot d' q"
    "\<And>k. k \<noteq> q \<Longrightarrow> k \<noteq> tmp_of q \<Longrightarrow> lookup d' k = lookup d k"
proof -
  obtain d' where d': "save_text d (Abs q) (enc x) = (True, d')" "wf_disk d'" "faults d' = []"
    "\<And>k. lookup d' k = (if k = q then Some (File (enc x)) else if k = tmp_of q then None else lookup d k)"
    using save_text_ok [OF assms(1-3)] by blast
  obtain c cs where c: "enc x = c # cs" using enc_nonempty [OF assms(4)] by (cases "enc x") auto
  have "file_slot d' q"
    using assms(2) d'(4) tmp_of_neq [of q]
    by (auto simp: file_slot_def isdir_def)
  moreover have "status d' (Abs q) = Some (File (c # cs))"
    using d'(2,4) by (simp add: status_def locate_plain_Abs c)
  ultimately show thesis using that d' dec_enc [OF assms(4)] c by simp
qed

end

end
