(* ===== verification/Spell.thy ===== *)
theory Spell
  imports FsUtils_Laws
begin

text \<open>
  Relative paths and paths with dots: the file a path such as \<^verbatim>\<open>./data/client_cwd/.partial/partmeta.json\<close>
  names, and that the operations on it are those on the absolute path.
\<close>

section \<open>Paths that spell a place\<close>

text \<open>
  A path with no element but names and dots, the last one a name, spells a place, read in the directory
  \<^verbatim>\<open>b\<close>. The client's own files have such paths, beginning with a dot.
\<close>

definition undot :: "apath \<Rightarrow> apath" where
  "undot cs = filter (\<lambda>c. c \<noteq> ''.'') cs"

definition dotted :: "apath \<Rightarrow> bool" where
  "dotted cs \<longleftrightarrow> list_all (\<lambda>c. c = ''.'' \<or> plain_name c) cs"

definition spells :: "apath \<Rightarrow> fpath \<Rightarrow> apath \<Rightarrow> bool" where
  "spells b p q = (case (case p of Abs cs \<Rightarrow> ([], cs) | Rel cs \<Rightarrow> (b, cs)) of (st, cs) \<Rightarrow>
     cs \<noteq> [] \<and> plain_name (last cs) \<and> dotted cs \<and> q = st @ undot cs)"

lemma undot_simps [simp]: "undot [] = []" "undot (c # cs) = (if c = ''.'' then undot cs else c # undot cs)"
  "undot (cs @ ds) = undot cs @ undot ds"
  by (simp_all add: undot_def)

lemma dotted_simps [simp]: "dotted []" "dotted (c # cs) \<longleftrightarrow> (c = ''.'' \<or> plain_name c) \<and> dotted cs"
  "dotted (cs @ ds) \<longleftrightarrow> dotted cs \<and> dotted ds"
  by (simp_all add: dotted_def)

lemma undot_plain: "dotted cs \<Longrightarrow> list_all plain_name (undot cs)"
  by (induction cs) auto

lemma plain_undot: "list_all plain_name cs \<Longrightarrow> undot cs = cs \<and> dotted cs"
  by (induction cs) (auto simp: plain_name_def)

lemma spells_plain: "q \<noteq> [] \<Longrightarrow> list_all plain_name q \<Longrightarrow> spells b (Abs q) q"
  by (auto simp: spells_def plain_undot list_all_iff)

lemma walk_dotted_dir:
  assumes "wf_disk d"
  shows "dotted cs \<Longrightarrow> isdir d (st @ undot cs) \<Longrightarrow> walk d st cs = Some (st @ undot cs)"
proof (induction cs arbitrary: st)
  case (Cons c cs)
  have "isdir d st" using Cons.prems(2) wf_prefix_exists [OF assms, of st "undot (c # cs)"]
    by (cases "undot (c # cs) = []") (auto simp: isdir_def)
  then show ?case using Cons by (auto simp: plain_name_def)
qed (simp add: isdir_def)

lemma walk_dotted:
  assumes wf: "wf_disk d" and cs: "dotted cs" and c: "plain_name c"
  shows "walk d st (cs @ [c]) = (if lookup d (st @ undot cs @ [c]) = None then None else Some (st @ undot cs @ [c]))"
proof (cases "isdir d (st @ undot cs)")
  case True
  have "walk d st (cs @ ds) = walk d (st @ undot cs) ds" if "isdir d (st @ undot cs)" for ds
    using cs that
  proof (induction cs arbitrary: st)
    case (Cons a cs)
    have "isdir d st" using Cons.prems(2) wf_prefix_exists [OF wf, of st "undot (a # cs)"]
      by (cases "undot (a # cs) = []") (auto simp: isdir_def)
    then show ?case using Cons by (auto simp: plain_name_def)
  qed simp
  from this [OF True, of "[c]"] show ?thesis using True c by (simp add: plain_name_def)
next
  case False
  have "walk d st (cs @ [c]) = None" using cs False
  proof (induction cs arbitrary: st)
    case (Cons a cs)
    then show ?case by (auto simp: plain_name_def)
  qed (use c in simp)
  moreover have "lookup d (st @ undot cs @ [c]) = None"
    using False wf_diskD(3) [OF wf, of "st @ undot cs @ [c]"] by (cases "lookup d (st @ undot cs @ [c])") (simp_all add: butlast_append)
  ultimately show ?thesis by simp
qed

lemma spellsE:
  assumes "spells b p q"
  obtains st cs c where "p = Abs (cs @ [c]) \<and> st = [] \<or> p = Rel (cs @ [c]) \<and> st = b" "plain_name c" "dotted cs" "q = st @ undot cs @ [c]"
proof -
  obtain st cs where s: "p = Abs cs \<and> st = [] \<or> p = Rel cs \<and> st = b" "cs \<noteq> []" "plain_name (last cs)" "dotted cs" "q = st @ undot cs"
    using assms by (cases p) (auto simp: spells_def)
  then show thesis using that [of "butlast cs" "last cs" st] by (cases cs rule: rev_cases) (auto simp: plain_name_def)
qed

lemma spells_place:
  assumes "spells b p q"
  shows "q \<noteq> []" and "plain_name (last q)" and "\<not> trailing_slash p"
  using assms by (auto elim!: spellsE simp: trailing_slash_def plain_name_def)

lemma locate_spelled:
  assumes "wf_disk d" and "spells (cwd d) p q"
  shows "locate d p = (if lookup d q = None then None else Some q)"
  using assms(2) by (rule spellsE) (auto simp: locate_def walk_dotted [OF assms(1)])

lemma target_spelled:
  assumes "wf_disk d" and "spells (cwd d) p q" and "isdir d (butlast q)"
  shows "target d p = Some q"
proof -
  obtain st cs c where p: "p = Abs (cs @ [c]) \<and> st = [] \<or> p = Rel (cs @ [c]) \<and> st = cwd d" "plain_name c" "dotted cs" "q = st @ undot cs @ [c]"
    using assms(2) by (rule spellsE)
  have "walk d st cs = Some (st @ undot cs)" using walk_dotted_dir [OF assms(1) p(3), of st] assms(3) p(4) by (simp add: butlast_append)
  then show ?thesis using p assms(3) by (auto simp: target_def Let_def plain_name_def butlast_append)
qed

lemma absolute_spelled:
  assumes wf: "wf_disk d" and s: "spells (cwd d) p q" and w: "list_all plain_name (cwd d)"
  shows "absolute d p = Abs q"
proof -
  obtain st cs c where p: "p = Abs (cs @ [c]) \<and> st = [] \<or> p = Rel (cs @ [c]) \<and> st = cwd d" "plain_name c" "dotted cs" "q = st @ undot cs @ [c]"
    using s by (rule spellsE)
  have "cwd d \<noteq> [] \<Longrightarrow> last (cwd d) \<noteq> []" using w by (auto simp: list_all_iff plain_name_def)
  then have a: "fs_absolute d p = Abs (st @ cs @ [c])" using p(1) by (auto simp: fs_absolute_def append_names_def)
  have st: "dotted st" "undot st = st" using p(1) w plain_undot by auto
  then have q: "q = undot (st @ cs @ [c])" using p(2,4) by (simp add: plain_name_def)
  have l: "locate d (Abs (st @ cs @ [c])) = (if lookup d q = None then None else Some q)"
    using walk_dotted [OF wf, of "st @ cs" c "[]"] st p by (simp add: locate_Abs)
  have n: "norm_stack s ds = s @ undot ds" if "dotted ds" for s ds
    using that by (induction ds arbitrary: s) (auto simp: plain_name_def)
  have "lexically_normal (st @ cs @ [c]) = q"
    using n [of "st @ cs @ [c]" "[]"] st p q by (auto simp: lexically_normal_def Let_def plain_name_def)
  then show ?thesis using a l by (simp add: absolute_def normalize_def weakly_canonical_def fs_absolute_def)
qed

lemma spells_tmp: "spells b p q \<Longrightarrow> spells b (path_concat p ''.tmp'') (tmp_of q)"
proof (erule spellsE)
  fix st cs c
  assume p: "p = Abs (cs @ [c]) \<and> st = [] \<or> p = Rel (cs @ [c]) \<and> st = b" "plain_name c" "dotted cs" "q = st @ undot cs @ [c]"
  then show ?thesis using plain_tmp [OF p(2)]
    by (auto simp: path_concat_def spells_def tmp_of_def butlast_append plain_name_def)
qed

lemma spells_sibling:
  assumes "spells b p q" and "plain_name n"
  shows "spells b (path_append (parent_path p) (Rel [n])) (butlast q @ [n])"
  using assms(1)
proof (rule spellsE)
  fix st cs c
  assume p: "p = Abs (cs @ [c]) \<and> st = [] \<or> p = Rel (cs @ [c]) \<and> st = b" "plain_name c" "dotted cs" "q = st @ undot cs @ [c]"
  have "cs \<noteq> [] \<Longrightarrow> last cs \<noteq> []" using p(3) by (cases cs rule: rev_cases) (auto simp: plain_name_def)
  then have ap: "append_names cs [n] = cs @ [n]" by (auto simp: append_names_def)
  show ?thesis using p assms(2) by (auto simp: ap path_append_def parent_path_def spells_def butlast_append plain_name_def)
qed

text \<open>A metadata file is rewritten at the place its path spells.\<close>

lemma put_cwd [simp]: "cwd (put d q n) = cwd d"
  by (simp add: put_def)

lemma save_text_spelled:
  assumes wf: "wf_disk d" and slot: "file_slot d q" and nf: "faults d = []" and s: "spells (cwd d) p q"
  shows "save_text d p bs = save_text d (Abs q) bs"
proof -
  let ?t = "tmp_of q" and ?d1 = "put d (tmp_of q) (File [])"
  let ?d2 = "put ?d1 ?t (File bs)"
  note q = slot [unfolded file_slot_def] and t = slot_target [OF wf slot] and w = tmp_write_ok [OF wf slot nf]
  note st = spells_tmp [OF s] and w3 = w(3) [of bs]
  have "list_all plain_name q" using t(6) q by (cases q rule: rev_cases) auto
  then have sq: "spells b (Abs q) q" "spells b (Abs ?t) ?t" for b
    using t(5,6) q by (auto intro!: spells_plain simp: tmp_of_def)
  have w1: "wf_disk ?d1" using wf q t(5) by (intro wf_put) auto
  have b: "butlast q \<noteq> ?t" using q by (auto simp: isdir_def)
  have o: "open_new d (path_concat p ''.tmp'') = (True, ?d1)"
    using w(1) target_spelled [OF wf st] target_spelled [OF wf sq(2)] q t(3) spells_place(3) [OF st] by (simp add: open_new_def)
  have v: "stream_write ?d1 (path_concat p ''.tmp'') bs = (True, ?d2)"
    using w(2) [of bs] locate_spelled [OF w1, of "path_concat p ''.tmp''" ?t] locate_spelled [OF w1 sq(2)] st by (simp add: stream_write_def)
  have "target ?d2 p = target ?d2 (Abs q)"
    using target_spelled [OF w3, of p q] target_spelled [OF w3 sq(1)] s q b by (simp add: isdir_def)
  moreover have "locate ?d2 (path_concat p ''.tmp'') = locate ?d2 (Abs ?t)"
    using locate_spelled [OF w3, of "path_concat p ''.tmp''" ?t] locate_spelled [OF w3 sq(2)] st by simp
  ultimately have "fs_rename ?d2 (path_concat p ''.tmp'') p = fs_rename ?d2 (Abs ?t) (Abs q)"
    using spells_place(3) [OF s] t(4) by (simp add: fs_rename_def split: option.splits)
  then show ?thesis using o v w(1,2) t(2) by (simp add: save_text_def)
qed

end
