(* ===== verification/Database.thy ===== *)
theory Database
  imports FsUtils_Laws
begin

text \<open>
  \<^verbatim>\<open>Database\<close> (\<^verbatim>\<open>server/src/database.cpp\<close>) and \<^verbatim>\<open>password\<close> (\<^verbatim>\<open>server/src/password.cpp\<close>): the user
  accounts in \<^verbatim>\<open>users.json\<close>. Every operation reads the file first; the entries kept in the object
  only matter while the file is absent. A thrown exception is \<^verbatim>\<open>None\<close> or a false success flag.
\<close>

section \<open>Passwords\<close>

definition hash_password :: "sodium \<Rightarrow> nat \<Rightarrow> string \<Rightarrow> string option" where
  "hash_password S salt password = pwhash_str S salt password"

definition verify_password :: "sodium \<Rightarrow> string \<Rightarrow> string \<Rightarrow> bool" where
  "verify_password S password hash = pwhash_str_verify S hash password"

section \<open>Accounts\<close>

record DatabaseEntry =
  de_username :: string
  de_password_hash :: string
  de_storage_class :: string

record Database =
  db_path :: fpath
  db_entries :: "DatabaseEntry list"

definition user_to_json :: "'j json_lib \<Rightarrow> DatabaseEntry \<Rightarrow> 'j" where
  "user_to_json J e = jobj J [(''username'', jstr J (de_username e)),
     (''password_hash'', jstr J (de_password_hash e)), (''storage_class'', jstr J (de_storage_class e))]"

definition user_from_json :: "'j json_lib \<Rightarrow> 'j \<Rightarrow> DatabaseEntry option" where
  "user_from_json J j = do {
     u \<leftarrow> jindex J j ''username'' \<bind> get_str J;
     h \<leftarrow> jindex J j ''password_hash'' \<bind> get_str J;
     c \<leftarrow> (if jat J j ''storage_class'' \<noteq> None then jindex J j ''storage_class'' \<bind> get_str J else Some []);
     Some \<lparr>de_username = u, de_password_hash = h, de_storage_class = c\<rparr> }"

definition users_text :: "'j json_lib \<Rightarrow> DatabaseEntry list \<Rightarrow> bytes" where
  "users_text J es = jpretty J 4 (jobj J [(''users'', jarr J (map (user_to_json J) es))])"

definition users_of_text :: "'j json_lib \<Rightarrow> bytes \<Rightarrow> DatabaseEntry list option" where
  "users_of_text J c = do {
     j \<leftarrow> jparse J c;
     us \<leftarrow> jindex J j ''users'';
     those (map (user_from_json J) (jiter J us)) }"

definition db_load :: "'j json_lib \<Rightarrow> disk \<Rightarrow> Database \<Rightarrow> Database option" where
  "db_load J d db =
     (case status d (db_path db) of
        None \<Rightarrow> Some db
      | Some (File (c # cs)) \<Rightarrow> map_option (\<lambda>es. db\<lparr>db_entries := es\<rparr>) (users_of_text J (c # cs))
      | _ \<Rightarrow> Some (db\<lparr>db_entries := []\<rparr>))"

definition db_save :: "'j json_lib \<Rightarrow> disk \<Rightarrow> Database \<Rightarrow> bool \<times> disk" where
  "db_save J d db = save_text d (db_path db) (users_text J (db_entries db))"

text \<open>The constructor; \<^verbatim>\<open>None\<close> when saving throws.\<close>

definition new_database :: "'j json_lib \<Rightarrow> disk \<Rightarrow> fpath \<Rightarrow> Database option \<times> disk" where
  "new_database J d p =
     (let db = \<lparr>db_path = p, db_entries = []\<rparr>
      in case (if get_file_size d p = 0 then db_save J d db else (True, d)) of
           (ok, d1) \<Rightarrow> (if ok then Some db else None, d1))"

definition user_exists :: "'j json_lib \<Rightarrow> disk \<Rightarrow> Database \<Rightarrow> string \<Rightarrow> (bool \<times> Database) option" where
  "user_exists J d db u =
     map_option (\<lambda>db. (list_ex (\<lambda>e. de_username e = u) (db_entries db), db)) (db_load J d db)"

definition validate_user :: "sodium \<Rightarrow> 'j json_lib \<Rightarrow> disk \<Rightarrow> Database \<Rightarrow> string \<Rightarrow> string \<Rightarrow> (bool \<times> Database) option" where
  "validate_user S J d db u pw =
     map_option (\<lambda>db. (list_ex (\<lambda>e. de_username e = u \<and> verify_password S pw (de_password_hash e)) (db_entries db), db))
       (db_load J d db)"

definition add_user ::
  "sodium \<Rightarrow> 'j json_lib \<Rightarrow> nat \<Rightarrow> disk \<Rightarrow> Database \<Rightarrow> string \<Rightarrow> string \<Rightarrow> string \<Rightarrow> bool \<times> disk \<times> Database" where
  "add_user S J salt d db u pw cls =
     (case db_load J d db of None \<Rightarrow> (False, d, db)
      | Some db1 \<Rightarrow>
         (case hash_password S salt pw of None \<Rightarrow> (False, d, db1)
          | Some h \<Rightarrow>
             let db2 = db1\<lparr>db_entries := db_entries db1 @
                   [\<lparr>de_username = u, de_password_hash = h, de_storage_class = cls\<rparr>]\<rparr>;
                 (ok, d1) = db_save J d db2
             in (ok, d1, db2)))"

definition get_storage_class :: "'j json_lib \<Rightarrow> disk \<Rightarrow> Database \<Rightarrow> string \<Rightarrow> (string \<times> Database) option" where
  "get_storage_class J d db u =
     map_option (\<lambda>db. (case List.find (\<lambda>e. de_username e = u) (db_entries db) of
                         None \<Rightarrow> [] | Some e \<Rightarrow> de_storage_class e, db)) (db_load J d db)"

text \<open>The loop of \<^verbatim>\<open>set_storage_class\<close>: the first entry with the name is changed.\<close>

fun set_first_class :: "string \<Rightarrow> string \<Rightarrow> DatabaseEntry list \<Rightarrow> DatabaseEntry list option" where
  "set_first_class u cls [] = None"
| "set_first_class u cls (e # es) =
     (if de_username e = u then Some (e\<lparr>de_storage_class := cls\<rparr> # es)
      else map_option (\<lambda>es'. e # es') (set_first_class u cls es))"

text \<open>The result: no exception, the returned value, the new disk and object.\<close>

definition set_storage_class ::
  "'j json_lib \<Rightarrow> disk \<Rightarrow> Database \<Rightarrow> string \<Rightarrow> string \<Rightarrow> bool \<times> bool \<times> disk \<times> Database" where
  "set_storage_class J d db u cls =
     (case db_load J d db of None \<Rightarrow> (False, False, d, db)
      | Some db1 \<Rightarrow>
         (case set_first_class u cls (db_entries db1) of None \<Rightarrow> (True, False, d, db1)
          | Some es \<Rightarrow>
             let db2 = db1\<lparr>db_entries := es\<rparr>; (ok, d1) = db_save J d db2
             in (ok, ok, d1, db2)))"

section \<open>Round trip\<close>

lemma user_roundtrip: "json_laws J \<Longrightarrow> user_from_json J (user_to_json J e) = Some e"
  by (simp add: user_from_json_def user_to_json_def json_at json_index json_str)

lemma users_roundtrip:
  assumes "json_laws J" and "json_text J"
  shows "users_of_text J (users_text J es) = Some es"
proof -
  have "those (map (user_from_json J) (map (user_to_json J) es)) = Some es"
    using user_roundtrip [OF assms(1)] by (intro those_map_Some)
  then show ?thesis
    using assms by (simp add: users_of_text_def users_text_def json_text_def json_index json_iter)
qed

interpretation db_file: text_codec "users_text J" "users_of_text J" "\<lambda>es. json_laws J \<and> json_text J" "\<lambda>es. es"
  for J :: "'j json_lib"
proof
  fix es :: "DatabaseEntry list" assume J: "json_laws J \<and> json_text J"
  then show "users_of_text J (users_text J es) = Some es" by (simp add: users_roundtrip)
  show "users_text J es \<noteq> []" using J by (simp add: users_text_def json_text_def)
qed

text \<open>A disk on which the account file is present and holds the given entries.\<close>

definition db_holds :: "'j json_lib \<Rightarrow> disk \<Rightarrow> Database \<Rightarrow> DatabaseEntry list \<Rightarrow> bool" where
  "db_holds J d db es \<longleftrightarrow> (\<exists>db'. db_load J d db = Some db' \<and> db_entries db' = es \<and> db_path db' = db_path db)"

lemma db_save_holds:
  assumes "json_laws J" and "json_text J" and "wf_disk d" and "faults d = []" and "db_path db = Abs q" and "file_slot d q"
  obtains d' where "db_save J d db = (True, d')" "wf_disk d'" "faults d' = []" "file_slot d' q"
    "\<And>db2. db_path db2 = Abs q \<Longrightarrow> db_holds J d' db2 (db_entries db)"
proof -
  obtain d' c cs where "save_text d (Abs q) (users_text J (db_entries db)) = (True, d')"
    "status d' (Abs q) = Some (File (c # cs))" "users_of_text J (c # cs) = Some (db_entries db)"
    "wf_disk d'" "faults d' = []" "file_slot d' q"
    by (rule db_file.saved [OF assms(3,6,4), where J = J and x = "db_entries db"]) (use assms(1,2) in simp)
  then show thesis using assms(5) that by (auto simp: db_save_def db_holds_def db_load_def)
qed

lemma holds_validate:
  "db_holds J d db es \<Longrightarrow> map_option fst (validate_user S J d db u pw) =
     Some (\<exists>e\<in>set es. de_username e = u \<and> verify_password S pw (de_password_hash e))"
  by (auto simp: db_holds_def validate_user_def list_ex_iff)

lemma holds_class:
  "db_holds J d db es \<Longrightarrow> map_option fst (get_storage_class J d db u) =
     Some (case List.find (\<lambda>e. de_username e = u) es of None \<Rightarrow> [] | Some e \<Rightarrow> de_storage_class e)"
  by (auto simp: db_holds_def get_storage_class_def)

lemma holds_exists:
  "db_holds J d db es \<Longrightarrow> map_option fst (user_exists J d db u) = Some (\<exists>e\<in>set es. de_username e = u)"
  by (auto simp: db_holds_def user_exists_def list_ex_iff)

lemmas holds_simps = holds_validate holds_class holds_exists

lemma find_append: "List.find P (xs @ ys) = (case List.find P xs of None \<Rightarrow> List.find P ys | Some x \<Rightarrow> Some x)"
  by (induction xs) auto

lemma find_absent: "\<forall>e\<in>set es. de_username e \<noteq> u \<Longrightarrow> List.find (\<lambda>e. de_username e = u) es = None"
  by (induction es) auto

text \<open>
  Property (C17). Registration works and disturbs nobody: once \<^verbatim>\<open>add_user\<close> has returned, the new user's
  password is accepted and the tier is the one recorded for a name that was free before; for every
  other name each password is accepted or refused exactly as before.
\<close>

theorem registered_user_can_login:
  assumes "json_laws J" and "json_text J" and "pwhash_laws S" and "wf_disk d" and "faults d = []"
    and "db_path db = Abs q" and "file_slot d q" and "db_holds J d db es" and "hash_password S salt pw = Some h"
  shows "\<exists>d' db'. add_user S J salt d db u pw cls = (True, d', db') \<and>
    map_option fst (validate_user S J d' db' u pw) = Some True \<and>
    ((\<forall>e\<in>set es. de_username e \<noteq> u) \<longrightarrow> map_option fst (get_storage_class J d' db' u) = Some cls) \<and>
    (\<forall>v w. v \<noteq> u \<longrightarrow> map_option fst (validate_user S J d' db' v w) = map_option fst (validate_user S J d db v w) \<and>
       map_option fst (get_storage_class J d' db' v) = map_option fst (get_storage_class J d db v))"
proof -
  let ?e = "\<lparr>de_username = u, de_password_hash = h, de_storage_class = cls\<rparr>"
  obtain db1 where db1: "db_load J d db = Some db1" "db_entries db1 = es" "db_path db1 = Abs q"
    using assms(6,8) by (auto simp: db_holds_def)
  let ?db2 = "db1\<lparr>db_entries := es @ [?e]\<rparr>"
  obtain d' where d': "db_save J d ?db2 = (True, d')" and h': "db_holds J d' ?db2 (es @ [?e])"
    by (rule db_save_holds [OF assms(1,2,4,5) _ assms(7), of ?db2]) (use db1(3) in \<open>simp_all\<close>)
  have "add_user S J salt d db u pw cls = (True, d', ?db2)"
    using d' db1(1,2) assms(9) by (simp add: add_user_def)
  moreover have "verify_password S pw h"
    using assms(3,9) by (auto simp: pwhash_laws_def verify_password_def hash_password_def)
  ultimately show ?thesis
    by (intro exI [of _ d'] exI [of _ ?db2])
      (auto simp: holds_simps [OF h'] holds_simps [OF assms(8)] find_append find_absent
        split: option.splits)
qed

theorem registered_user_can_login_witness:
  "\<exists>d' db'. add_user sodium_ref json_ref 0 (disk_of [([], Dir)]) \<lparr>db_path = Abs [''users.json''], db_entries = []\<rparr>
      ''bob'' ''secret'' ''hot'' = (True, d', db') \<and>
    map_option fst (validate_user sodium_ref json_ref d' db' ''bob'' ''secret'') = Some True"
proof -
  let ?db = "\<lparr>db_path = Abs [''users.json''], db_entries = []\<rparr>"
  have wf: "wf_disk (disk_of [([], Dir)])" by (rule wf_disk_of) simp_all
  have fs: "file_slot (disk_of [([], Dir)]) [''users.json'']"
    by (simp add: file_slot_def plain_name_def isdir_def)
  have h: "db_holds json_ref (disk_of [([], Dir)]) ?db []"
    by (simp add: db_holds_def db_load_def status_def locate_def isdir_def)
  have "hash_password sodium_ref 0 ''secret'' = Some ''secret''"
    by (simp add: hash_password_def sodium_ref_def)
  from registered_user_can_login [OF json_ref_laws sodium_ref_laws(4) wf _ _ fs h this, of "''bob''" "''hot''"]
  show ?thesis by auto
qed

lemma set_first_class_None: "set_first_class u cls es = None \<longleftrightarrow> (\<forall>e\<in>set es. de_username e \<noteq> u)"
  by (induction es) auto

lemma set_first_class_Some:
  "set_first_class u cls es = Some es' \<Longrightarrow> map de_username es' = map de_username es \<and>
     map de_password_hash es' = map de_password_hash es \<and> (\<exists>e\<in>set es. de_username e = u)"
  by (induction es arbitrary: es') (auto split: if_splits)

lemma set_first_class_find:
  "set_first_class u cls es = Some es' \<Longrightarrow> List.find (\<lambda>e. de_username e = v) es' =
     (if v = u then map_option (\<lambda>e. e\<lparr>de_storage_class := cls\<rparr>) (List.find (\<lambda>e. de_username e = v) es)
      else List.find (\<lambda>e. de_username e = v) es)"
  by (induction es arbitrary: es') (auto split: if_splits)

lemma same_credentials:
  assumes "map de_username es' = map de_username es" and "map de_password_hash es' = map de_password_hash es"
  shows "(\<exists>e\<in>set es'. P (de_username e) (de_password_hash e)) = (\<exists>e\<in>set es. P (de_username e) (de_password_hash e))"
proof -
  have z: "map (\<lambda>e. (de_username e, de_password_hash e)) xs = zip (map de_username xs) (map de_password_hash xs)" for xs
    by (induction xs) auto
  have "set (map (\<lambda>e. (de_username e, de_password_hash e)) es') = set (map (\<lambda>e. (de_username e, de_password_hash e)) es)"
    unfolding z assms ..
  then have "(\<exists>p\<in>(\<lambda>e. (de_username e, de_password_hash e)) ` set es'. P (fst p) (snd p)) =
      (\<exists>p\<in>(\<lambda>e. (de_username e, de_password_hash e)) ` set es. P (fst p) (snd p))"
    by (simp only: set_map)
  then show ?thesis by simp
qed

text \<open>
  Changing a tier touches the tier alone: \<^verbatim>\<open>set_storage_class\<close> answers whether the user
  exists; afterwards that user's tier is the new one, everybody else's is unchanged, and every
  password of every user is accepted or refused as before.
\<close>

lemma set_storage_class_only:
  assumes "json_laws J" and "json_text J" and "wf_disk d" and "faults d = []"
    and "db_path db = Abs q" and "file_slot d q" and "db_holds J d db es"
  shows "\<exists>d' db'. set_storage_class J d db u cls = (True, \<exists>e\<in>set es. de_username e = u, d', db') \<and>
    (\<forall>v. map_option fst (get_storage_class J d' db' v) =
       (if v = u \<and> (\<exists>e\<in>set es. de_username e = u) then Some cls else map_option fst (get_storage_class J d db v))) \<and>
    (\<forall>v w. map_option fst (validate_user S J d' db' v w) = map_option fst (validate_user S J d db v w))"
proof -
  obtain db1 where db1: "db_load J d db = Some db1" "db_entries db1 = es" "db_path db1 = Abs q"
    using assms(5,7) by (auto simp: db_holds_def)
  show ?thesis
  proof (cases "set_first_class u cls es")
    case None
    then have no: "\<forall>e\<in>set es. de_username e \<noteq> u" by (simp add: set_first_class_None)
    have "db_holds J d db1 es"
      using db1 assms(5) by (auto simp: db_holds_def db_load_def split: option.splits node.splits list.splits)
    with no None db1 show ?thesis
      by (intro exI [of _ d] exI [of _ db1]) (simp add: set_storage_class_def holds_simps holds_simps [OF assms(7)])
  next
    case (Some es')
    let ?db2 = "db1\<lparr>db_entries := es'\<rparr>"
    obtain d' where d': "db_save J d ?db2 = (True, d')" and h': "db_holds J d' ?db2 es'"
      by (rule db_save_holds [OF assms(1-4) _ assms(6), of ?db2]) (use db1(3) in \<open>simp_all\<close>)
    have "set_storage_class J d db u cls = (True, True, d', ?db2)"
      using d' db1 Some by (simp add: set_storage_class_def)
    moreover note sp = set_first_class_Some [OF Some] and set_first_class_find [OF Some]
    moreover have "(\<exists>e\<in>set es'. de_username e = v \<and> verify_password S w (de_password_hash e)) =
        (\<exists>e\<in>set es. de_username e = v \<and> verify_password S w (de_password_hash e))" for v w
      using sp by (intro same_credentials) auto
    moreover have "\<exists>e. List.find (\<lambda>e. de_username e = u) es = Some e"
      using sp by (meson find_None_iff not_None_eq)
    ultimately show ?thesis
      by (intro exI [of _ d'] exI [of _ ?db2]) (auto simp: holds_simps [OF h'] holds_simps [OF assms(7)])
  qed
qed

end
