(* ===== verification/Chunks.thy ===== *)
theory Chunks
  imports FsUtils_Laws
begin

text \<open>
  Correctness of the chunking and hashing group of \<^verbatim>\<open>fsutils\<close>: the chunk count at its machine
  width, the chunk plan \<^verbatim>\<open>compute_chunks\<close> writes against a reference splitting of the content, the
  block-wise file hash against the one-shot hash, the hexadecimal form of a digest, and the
  reassembly of a file from its chunks in any order of arrival.
\<close>

section \<open>Counting\<close>

lemma unat_CHUNK_SIZE [simp]: "unat CHUNK_SIZE = 262144"
  by (simp add: CHUNK_SIZE_def)

lemma chunk_count_unat:
  "unat (chunk_count n) = (if unat n \<le> 2 ^ 32 - 262144 then (unat n + 262143) div 262144 else 0)"
proof (cases "n = 0")
  case False
  have n: "unat n < 4294967296" by (rule unat_u32_less)
  have s: "n + CHUNK_SIZE - 1 = n + 262143" by (simp add: CHUNK_SIZE_def)
  have "unat (n + 262143) = (unat n + 262143) mod 4294967296"
    by (simp add: unat_word_ariths)
  also have "\<dots> = (if unat n \<le> 4294705152 then unat n + 262143 else unat n + 262143 - 4294967296)"
    using n by (auto simp: mod_if)
  finally show ?thesis
    using False n by (auto simp: chunk_count_def s unat_div)
qed (simp add: chunk_count_def)

text \<open>
  Property (C21). \<^verbatim>\<open>chunk_count\<close> is the number of 256 KiB chunks needed, rounded up, for every size up
  to \<^verbatim>\<open>2^32 - 2^18\<close>; above it the 32-bit sum \<^verbatim>\<open>file_size + CHUNK_SIZE - 1\<close> wraps around and the
  count is 0.
\<close>

theorem chunk_count_value:
  "unat (chunk_count n) = (if unat n \<le> 2 ^ 32 - 262144 then (unat n + 262143) div 262144 else 0)"
  by (rule chunk_count_unat)

section \<open>The reference splitting\<close>

function slices :: "bytes \<Rightarrow> bytes list" where
  "slices c = (if c = [] then [] else take 262144 c # slices (drop 262144 c))"
  by pat_completeness auto
termination
  by (relation "measure length") auto

declare slices.simps [simp del]

definition slice :: "bytes \<Rightarrow> nat \<Rightarrow> bytes" where
  "slice c i = take 262144 (drop (i * 262144) c)"

lemma concat_slices [simp]: "concat (slices c) = c"
proof (induction c rule: slices.induct)
  case (1 c)
  then show ?case by (subst slices.simps) simp
qed

lemma slices_nth: "slices c = map (slice c) [0..<(length c + 262143) div 262144]"
proof (induction c rule: slices.induct)
  case (1 c)
  show ?case
  proof (cases "c = []")
    case False
    have s: "slice (drop 262144 c) i = slice c (Suc i)" for i
      by (simp add: slice_def add.commute)
    have s0: "take 262144 c = slice c 0" by (simp add: slice_def)
    have "(length c + 262143) div 262144 = Suc ((length c - 262144 + 262143) div 262144)"
      using False by (cases "262144 \<le> length c") (auto simp: le_div_geq Suc_leI)
    then have up: "[0..<(length c + 262143) div 262144] =
        0 # map Suc [0..<(length c - 262144 + 262143) div 262144]"
      by (simp add: map_Suc_upt upt_conv_Cons)
    show ?thesis
      by (subst slices.simps) (simp add: False 1 up s s0 o_def)
  qed (simp add: slices.simps)
qed

lemma slice_nonempty: "i * 262144 < length c \<Longrightarrow> slice c i \<noteq> []"
  by (simp add: slice_def)

section \<open>Hashes\<close>

lemma concat_hash_blocks [simp]: "concat (hash_blocks c) = c"
proof (induction c rule: hash_blocks.induct)
  case (1 c)
  then show ?case by (subst hash_blocks.simps) simp
qed

lemma hash_file_content:
  "hash_multipart S \<Longrightarrow> status d p = Some (File c) \<Longrightarrow> hash_file S d p = generichash S c"
  by (simp add: hash_file_def hash_multipart_def)

text \<open>
  Property (C22). The hash of a file, read in blocks of 8192 bytes, is the hash of its content: it
  equals what \<^verbatim>\<open>hash_chunk\<close> computes on the whole content at once.
\<close>

theorem hash_file_is_hash_chunk:
  assumes "hash_multipart S" and "status d p = Some (File c)"
  shows "hash_file S d p = hash_chunk S c"
  using assms by (simp add: hash_file_content hash_chunk_def)

theorem hash_file_is_hash_chunk_witness:
  "hash_file sodium_ref \<lparr>nodes = [([], Dir), ([''a''], File [1, 2, 3])], faults = [], cwd = [],
      fd_limit = 8, mtimes = (\<lambda>_. 0)\<rparr> (Abs [''a'']) = hash_chunk sodium_ref [1, 2, 3]"
  by (rule hash_file_is_hash_chunk [OF sodium_ref_laws(2)])
    (simp add: status_def locate_def isdir_def lookup_def)

text \<open>
  A digest survives the text form used in messages and in the metadata files.
\<close>

lemma hash_hex_roundtrip:
  assumes "hex_laws S" and "length h = 32"
  shows "hex_to_hash S (hash_to_hex S h) = h"
  using assms by (simp add: hex_to_hash_def hash_to_hex_def hex_laws_def)

section \<open>The chunk plan\<close>

lemma those_map_total: "(\<And>x. x \<in> set xs \<Longrightarrow> f x = Some (g x)) \<Longrightarrow> those (map f xs) = Some (map g xs)"
  by (induction xs) auto

text \<open>The plan a content should get: one entry per slice, in order.\<close>

definition plan_entry :: "sodium \<Rightarrow> nat \<Rightarrow> bytes \<Rightarrow> ChunkInfo" where
  "plan_entry S i s =
     \<lparr>ci_index = of_nat i, ci_size = of_nat (length s), ci_chunk_hash = hash_to_hex S (hash_chunk S s)\<rparr>"

definition plan :: "sodium \<Rightarrow> bytes \<Rightarrow> ChunkInfo list" where
  "plan S c = map (\<lambda>(i, s). plan_entry S i s) (enumerate 0 (slices c))"

lemma plan_nth: "plan S c = map (\<lambda>i. plan_entry S i (slice c i)) [0..<(length c + 262143) div 262144]"
  by (auto simp: plan_def slices_nth enumerate_eq_zip intro!: nth_equalityI)

lemma chunk_offset:
  "i * 262144 < 4294967296 \<Longrightarrow> unat (of_nat i * CHUNK_SIZE :: u32) = i * 262144"
  by (simp add: CHUNK_SIZE_def unat_word_ariths unat_of_nat)

lemma chunk_at_slice:
  assumes st: "status d (fm_absolute_path fm) = Some (File c)" and len: "length c = unat (fm_size fm)"
    and i: "i * 262144 < length c" and nz: "\<not> is_hash_error (hash_chunk S (slice c i))"
  shows "chunk_at S d fm (of_nat i) = Some (plan_entry S i (slice c i))"
proof -
  have lt: "length c < 4294967296" using len unat_u32_less [of "fm_size fm"] by simp
  then have off: "unat (of_nat i * CHUNK_SIZE :: u32) = i * 262144" using i by (intro chunk_offset) simp
  have le: "of_nat i * CHUNK_SIZE \<le> fm_size fm" using off i len by (simp add: word_le_nat_alt)
  have sub: "unat (fm_size fm - of_nat i * CHUNK_SIZE) = length c - i * 262144"
    using le off len by (simp add: unat_sub)
  have sz: "unat (min CHUNK_SIZE (fm_size fm - of_nat i * CHUNK_SIZE)) = length (slice c i)"
    using sub by (auto simp: min_def word_le_nat_alt slice_def)
  then have "min CHUNK_SIZE (fm_size fm - of_nat i * CHUNK_SIZE) = of_nat (length (slice c i))"
    by (metis of_nat_unat ucast_id)
  moreover have "read_chunk d (fm_absolute_path fm) (of_nat i * CHUNK_SIZE)
      (min CHUNK_SIZE (fm_size fm - of_nat i * CHUNK_SIZE)) = slice c i"
    by (simp only: read_chunk_def st off sz option.case node.case) (auto simp: slice_def min_def)
  ultimately show ?thesis
    using slice_nonempty [OF i] nz by (simp add: chunk_at_def Let_def plan_entry_def)
qed

lemma compute_chunks_slices:
  assumes "status d (fm_absolute_path fm) = Some (File c)" and "length c = unat (fm_size fm)"
    and "length c \<le> 2 ^ 32 - 262144" and "\<And>s. s \<in> set (slices c) \<Longrightarrow> \<not> is_hash_error (hash_chunk S s)"
  shows "compute_chunks S d fm = plan S c \<and> concat (slices c) = c \<and> length (plan S c) = length (slices c)"
proof -
  let ?n = "(length c + 262143) div 262144"
  have cnt: "unat (chunk_count (fm_size fm)) = ?n"
    using assms(2,3) by (simp add: chunk_count_unat)
  have "chunk_at S d fm (of_nat i) = Some (plan_entry S i (slice c i))" if "i \<in> set [0..<?n]" for i
  proof (rule chunk_at_slice [OF assms(1,2)])
    show "i * 262144 < length c" using that by (auto simp: less_eq_div_iff_mult_less_eq)
    show "\<not> is_hash_error (hash_chunk S (slice c i))"
      using that by (intro assms(4)) (auto simp: slices_nth)
  qed
  then have "those (map (\<lambda>i. chunk_at S d fm (of_nat i)) [0..<?n]) = Some (map (\<lambda>i. plan_entry S i (slice c i)) [0..<?n])"
    by (rule those_map_total)
  then show ?thesis
    by (simp add: compute_chunks_def cnt plan_nth slices_nth [symmetric]) (simp add: slices_nth)
qed

text \<open>
  Property (C12). \<^verbatim>\<open>compute_chunks\<close> on the metadata of a file is the reference plan of its content: the
  slices are numbered in order, concatenate to the content, and each entry carries the size and the
  hash of its slice. The size has to stay below the overflow of \<^verbatim>\<open>chunk_count\<close>, and no slice may
  hash to the all-zero digest the code reserves for errors.
\<close>

theorem compute_chunks_plan:
  assumes "status d (fm_absolute_path fm) = Some (File c)" and "length c = unat (fm_size fm)"
    and "length c \<le> 2 ^ 32 - 262144" and "\<And>s. s \<in> set (slices c) \<Longrightarrow> \<not> is_hash_error (hash_chunk S s)"
  shows "compute_chunks S d fm = plan S c \<and> concat (slices c) = c \<and> length (plan S c) = length (slices c)"
  using assms by (rule compute_chunks_slices)

theorem compute_chunks_plan_witness:
  "compute_chunks sodium_ref \<lparr>nodes = [([], Dir), ([''a''], File [1, 2, 3])], faults = [], cwd = [],
      fd_limit = 8, mtimes = (\<lambda>_. 0)\<rparr>
     \<lparr>fm_absolute_path = Abs [''a''], fm_size = 3, fm_last_modified = 0, fm_hash = HASH_ERROR\<rparr> =
   plan sodium_ref [1, 2, 3]"
proof -
  have "\<not> is_hash_error (hash_chunk sodium_ref s)" for s
    by (simp add: is_hash_error_def hash_chunk_def sodium_ref_def)
  then show ?thesis
    using compute_chunks_plan [where c = "[1, 2, 3]" and S = sodium_ref
        and d = "\<lparr>nodes = [([], Dir), ([''a''], File [1, 2, 3])], faults = [], cwd = [],
          fd_limit = 8, mtimes = (\<lambda>_. 0)\<rparr>"
        and fm = "\<lparr>fm_absolute_path = Abs [''a''], fm_size = 3, fm_last_modified = 0, fm_hash = HASH_ERROR\<rparr>"]
    by (simp add: status_def locate_def isdir_def lookup_def)
qed

section \<open>Reassembly\<close>

lemma length_splice: "data \<noteq> [] \<Longrightarrow> length (splice off data x) = max (length x) (off + length data)"
  by (auto simp: splice_def)

lemma splice_nth:
  "data \<noteq> [] \<Longrightarrow> j < length (splice off data x) \<Longrightarrow> splice off data x ! j =
    (if off \<le> j \<and> j < off + length data then data ! (j - off) else if j < length x then x ! j else 0)"
  by (auto simp: splice_def nth_append min_def not_less)

text \<open>
  What a partial file holds when the chunks of \<^verbatim>\<open>I\<close> have arrived: every one of them is in place.
\<close>

definition partial_of :: "bytes \<Rightarrow> nat set \<Rightarrow> bytes \<Rightarrow> bool" where
  "partial_of c I x \<longleftrightarrow> length x \<le> length c \<and>
     (\<forall>j < length c. j div 262144 \<in> I \<longrightarrow> j < length x \<and> x ! j = c ! j)"

lemma partial_of_empty: "partial_of c {} []"
  by (simp add: partial_of_def)

lemma partial_of_splice:
  assumes "partial_of c I x" and i: "i * 262144 < length c"
  shows "partial_of c (insert i I) (splice (i * 262144) (slice c i) x)"
proof -
  note ne = slice_nonempty [OF i]
  have len: "i * 262144 + length (slice c i) = min (length c) (i * 262144 + 262144)"
    using i by (auto simp: slice_def)
  have mem: "j div 262144 = i \<longleftrightarrow> i * 262144 \<le> j \<and> j < i * 262144 + length (slice c i)"
    if "j < length c" for j
    using that by (auto simp: len div_nat_eqI)
  have val: "slice c i ! (j - i * 262144) = c ! j"
    if "i * 262144 \<le> j" "j < i * 262144 + length (slice c i)" for j
    using that by (auto simp: slice_def)
  show ?thesis
    using assms by (auto simp: partial_of_def length_splice [OF ne] splice_nth [OF ne] len mem val)
qed

lemma partial_of_all: "partial_of c I x \<Longrightarrow> {0..<length (slices c)} \<subseteq> I \<Longrightarrow> x = c"
proof -
  assume p: "partial_of c I x" and I: "{0..<length (slices c)} \<subseteq> I"
  have in_I: "j div 262144 \<in> I" if "j < length c" for j
    using that I by (auto simp: slices_nth subset_eq div_less_iff_less_mult)
  have "length x = length c"
  proof (cases "c = []")
    case False
    then have "length c - 1 < length x" using p in_I [of "length c - 1"] by (simp add: partial_of_def)
    moreover have "length x \<le> length c" using p by (simp add: partial_of_def)
    ultimately show ?thesis using False by (cases c) auto
  qed (use p in \<open>simp add: partial_of_def\<close>)
  then show "x = c"
    using p in_I by (auto simp: partial_of_def intro: nth_equalityI)
qed

text \<open>
  The data path of a transfer without its control messages: for every plan entry in the list, the
  sender's \<^verbatim>\<open>read_chunk\<close> and the receiver's \<^verbatim>\<open>write_chunk\<close>.
\<close>

fun transfer_chunks :: "disk \<Rightarrow> fpath \<Rightarrow> ChunkInfo list \<Rightarrow> disk \<Rightarrow> fpath \<Rightarrow> disk option" where
  "transfer_chunks ds ps [] dr pr = Some dr"
| "transfer_chunks ds ps (ci # cis) dr pr =
     (case write_chunk dr pr (ci_index ci * CHUNK_SIZE)
             (read_chunk ds ps (ci_index ci * CHUNK_SIZE) (ci_size ci)) of
        (True, dr') \<Rightarrow> transfer_chunks ds ps cis dr' pr
      | (False, dr') \<Rightarrow> None)"

lemma write_chunk_existing:
  assumes "wf_disk d" and "lookup d q = Some (File x)"
  shows "write_chunk d (Abs q) off data = sys_write d q (splice (unat off) data x)"
  using assms locate_plain_Abs [OF assms(1), of q] by (simp add: write_chunk_def status_def)

lemma sys_write_existing:
  assumes "wf_disk d" and "lookup d q = Some (File x)" and "sys_write d q bs = (ok, d')"
  shows "wf_disk d'" and "ok \<or> faults d \<noteq> []" and "faults d = [] \<Longrightarrow> faults d' = []"
proof -
  have "q \<noteq> []" using wf_diskD(2) [OF assms(1)] assms(2) by (auto simp: isdir_def)
  then have q: "q \<noteq> []" "isdir d (butlast q)" "plain_name (last q)"
    using wf_diskD(3,4) [OF assms(1), of q] assms(2) by auto
  show "wf_disk d'" using sys_write_wf [OF assms(3,1)] q by simp
  show "ok \<or> faults d \<noteq> []" and "faults d = [] \<Longrightarrow> faults d' = []"
    using assms(2,3) q by (auto simp: sys_write_def tick_def isdir_def lookup_def split: if_splits prod.splits list.splits)
qed

lemma read_chunk_slice:
  assumes "status d p = Some (File c)" and "length c < 4294967296" and "i * 262144 < length c"
  shows "read_chunk d p (of_nat i * CHUNK_SIZE) (of_nat (length (slice c i))) = slice c i"
proof -
  have "unat (of_nat (length (slice c i)) :: u32) = length (slice c i)"
    by (simp add: unat_of_nat slice_def min_def)
  then show ?thesis
    using assms chunk_offset [of i] by (auto simp: read_chunk_def slice_def min_def)
qed

lemma transfer_chunks_partial:
  assumes src: "status ds ps = Some (File c)" "length c < 4294967296"
  shows "set cis \<subseteq> set (plan S c) \<Longrightarrow> wf_disk dr \<Longrightarrow> lookup dr q = Some (File x) \<Longrightarrow> partial_of c I x \<Longrightarrow>
    (case transfer_chunks ds ps cis dr (Abs q) of None \<Rightarrow> faults dr \<noteq> []
     | Some dr' \<Rightarrow> wf_disk dr' \<and> (\<exists>x'. lookup dr' q = Some (File x') \<and>
         partial_of c (I \<union> (\<lambda>ci. unat (ci_index ci)) ` set cis) x'))"
proof (induction cis arbitrary: dr x I)
  case (Cons ci cis)
  then obtain i where ci: "ci = plan_entry S i (slice c i)" and "i < (length c + 262143) div 262144"
    by (auto simp: plan_nth)
  then have i: "i * 262144 < length c" by (auto simp: less_eq_div_iff_mult_less_eq)
  then have off: "unat (of_nat i * CHUNK_SIZE :: u32) = i * 262144" and ix: "unat (of_nat i :: u32) = i"
    using src(2) by (auto simp: chunk_offset unat_of_nat)
  obtain ok d1 where w: "sys_write dr q (splice (i * 262144) (slice c i) x) = (ok, d1)" by force
  note ex = sys_write_existing [OF Cons.prems(2,3) w]
  have wr: "write_chunk dr (Abs q) (ci_index ci * CHUNK_SIZE)
      (read_chunk ds ps (ci_index ci * CHUNK_SIZE) (ci_size ci)) = (ok, d1)"
    using write_chunk_existing [OF Cons.prems(2,3)] read_chunk_slice [OF src i] off w
    by (simp add: ci plan_entry_def)
  show ?case
  proof (cases ok)
    case True
    then have "lookup d1 q = Some (File (splice (i * 262144) (slice c i) x))"
      using w by (auto dest: sys_write_True)
    from Cons.IH [OF _ ex(1) this partial_of_splice [OF Cons.prems(4) i]] Cons.prems(1)
    have "case transfer_chunks ds ps cis d1 (Abs q) of None \<Rightarrow> faults d1 \<noteq> []
      | Some dr' \<Rightarrow> wf_disk dr' \<and> (\<exists>x'. lookup dr' q = Some (File x') \<and>
          partial_of c (insert i I \<union> (\<lambda>ci. unat (ci_index ci)) ` set cis) x')"
      by simp
    moreover have "transfer_chunks ds ps (ci # cis) dr (Abs q) = transfer_chunks ds ps cis d1 (Abs q)"
      using wr True by simp
    moreover have "unat (ci_index ci) = i" by (simp add: ci plan_entry_def ix)
    ultimately show ?thesis using ex(3) by (auto split: option.splits)
  next
    case False
    then show ?thesis using ex(2) by (simp add: wr)
  qed
qed (auto split: option.splits)



end
