(* ===== verification/PartMeta.thy ===== *)
theory PartMeta
  imports Chunks
begin

text \<open>
  \<^verbatim>\<open>PartialMetadata\<close> (\<^verbatim>\<open>shared/src/filesystem/partmeta.cpp\<close>): the per-user table of unfinished
  transfers, kept in memory and in \<^verbatim>\<open>.partial/partmeta.json\<close>. Clock readings are arguments, in
  nanoseconds; the mutex is implicit, each operation being one atomic step. An operation that may
  throw, or that would index outside a vector, returns an option or a success flag.
\<close>

section \<open>State\<close>

text \<open>Any integer can be read from the file and cast to the enumeration.\<close>

datatype TransferType = UPLOAD | DOWNLOAD | OTHER_TYPE int

definition type_to_int :: "TransferType \<Rightarrow> int" where
  "type_to_int t = (case t of UPLOAD \<Rightarrow> 0 | DOWNLOAD \<Rightarrow> 1 | OTHER_TYPE n \<Rightarrow> n)"

definition type_of_int :: "int \<Rightarrow> TransferType" where
  "type_of_int n = (if n = 0 then UPLOAD else if n = 1 then DOWNLOAD else OTHER_TYPE n)"

definition type_to_string :: "TransferType \<Rightarrow> string" where
  "type_to_string t = (case t of UPLOAD \<Rightarrow> ''UPLOAD'' | DOWNLOAD \<Rightarrow> ''DOWNLOAD'' | _ \<Rightarrow> ''UNKNOWN'')"

definition NANOS :: nat where "NANOS = 1000000000"

definition TRANSFER_TIMEOUT :: nat where "TRANSFER_TIMEOUT = 3600 * NANOS"

record PartialMetadataEntry =
  pe_id :: u32
  pe_absolute_path :: fpath
  pe_size :: u32
  pe_file_hash :: bytes
  pe_type :: TransferType
  pe_chunks :: "ChunkInfo list"
  pe_chunk_state :: "bool list"
  pe_last_activity :: nat

record PartialMetadata =
  pm_metadata_file :: fpath
  pm_entries :: "(u32 \<times> PartialMetadataEntry) list"
  pm_next_id :: u32
  pm_free_ids :: "u32 list"

section \<open>Operations on the table\<close>

definition get_partial_path :: "disk \<Rightarrow> PartialMetadata \<Rightarrow> u32 \<Rightarrow> fpath" where
  "get_partial_path d pm i =
     (if map_of (pm_entries pm) i = None then Rel []
      else absolute d (path_append (parent_path (pm_metadata_file pm)) (Rel [dec (unat i) @ ''.part''])))"

definition generate_id :: "PartialMetadata \<Rightarrow> u32 \<times> PartialMetadata" where
  "generate_id pm =
     (case pm_free_ids pm of i # is \<Rightarrow> (i, pm\<lparr>pm_free_ids := is\<rparr>)
      | [] \<Rightarrow> (pm_next_id pm, pm\<lparr>pm_next_id := pm_next_id pm + 1\<rparr>))"

definition add_partial_metadata ::
  "nat \<Rightarrow> PartialMetadata \<Rightarrow> TransferType \<Rightarrow> FileMetadata \<Rightarrow> ChunkInfo list \<Rightarrow> u32 \<Rightarrow> u32 \<times> PartialMetadata" where
  "add_partial_metadata now pm ty fm cs i0 =
     (let (i, pm1) = (if i0 = UINT32_MAX then generate_id pm else (i0, pm));
          e = \<lparr>pe_id = i, pe_absolute_path = fm_absolute_path fm, pe_size = fm_size fm,
               pe_file_hash = fm_hash fm, pe_type = ty, pe_chunks = cs,
               pe_chunk_state = replicate (length cs) False, pe_last_activity = now\<rparr>
      in (i, pm1\<lparr>pm_entries := emplace i e (pm_entries pm1)\<rparr>))"

definition mark_chunk_received :: "nat \<Rightarrow> PartialMetadata \<Rightarrow> u32 \<Rightarrow> u32 \<Rightarrow> PartialMetadata option" where
  "mark_chunk_received now pm i chunk_index =
     (case map_of (pm_entries pm) i of None \<Rightarrow> Some pm
      | Some e \<Rightarrow>
          if unat chunk_index < length (pe_chunk_state e)
          then Some (pm\<lparr>pm_entries := AList.update i
                 (e\<lparr>pe_chunk_state := (pe_chunk_state e)[unat chunk_index := True], pe_last_activity := now\<rparr>)
                 (pm_entries pm)\<rparr>)
          else None)"

definition is_expired :: "nat \<Rightarrow> PartialMetadata \<Rightarrow> u32 \<Rightarrow> bool" where
  "is_expired now pm i =
     (case map_of (pm_entries pm) i of None \<Rightarrow> False
      | Some e \<Rightarrow> now - pe_last_activity e > TRANSFER_TIMEOUT)"

definition get_entries :: "PartialMetadata \<Rightarrow> PartialMetadataEntry list" where
  "get_entries pm = map snd (pm_entries pm)"

definition get_entry :: "PartialMetadata \<Rightarrow> u32 \<Rightarrow> PartialMetadataEntry option" where
  "get_entry pm i = map_of (pm_entries pm) i"

section \<open>The file\<close>

definition entry_to_json :: "sodium \<Rightarrow> 'j json_lib \<Rightarrow> PartialMetadataEntry \<Rightarrow> 'j" where
  "entry_to_json S J e = jobj J [(''id'', juint J (unat (pe_id e))),
     (''absolute_path'', jstr J (string_of_path (pe_absolute_path e))),
     (''size'', juint J (unat (pe_size e))),
     (''file_hash'', jstr J (hash_to_hex S (pe_file_hash e))),
     (''type'', jint J (type_to_int (pe_type e))),
     (''chunks'', jarr J (map (chunk_to_json J) (pe_chunks e))),
     (''chunk_state'', jarr J (map (jbool J) (pe_chunk_state e))),
     (''last_activity'', juint J (pe_last_activity e div NANOS))]"

definition entry_from_json :: "sodium \<Rightarrow> 'j json_lib \<Rightarrow> 'j \<Rightarrow> PartialMetadataEntry option" where
  "entry_from_json S J j = do {
     i \<leftarrow> jat J j ''id'' \<bind> get_word J;
     p \<leftarrow> jat J j ''absolute_path'' \<bind> get_str J;
     s \<leftarrow> jat J j ''size'' \<bind> get_word J;
     h \<leftarrow> jat J j ''file_hash'' \<bind> get_str J;
     t \<leftarrow> jat J j ''type'' \<bind> get_word J;
     cs \<leftarrow> jat J j ''chunks'' \<bind> get_vector J (chunk_from_json J);
     st \<leftarrow> jat J j ''chunk_state'' \<bind> get_vector J (get_bool J);
     ts \<leftarrow> jat J j ''last_activity'' \<bind> get_word J;
     Some \<lparr>pe_id = i, pe_absolute_path = path_of_string p, pe_size = s,
       pe_file_hash = hex_to_hash S h, pe_type = type_of_int (sint (t :: u32)), pe_chunks = cs,
       pe_chunk_state = st, pe_last_activity = unat (ts :: u64) * NANOS\<rparr> }"

definition entries_text :: "sodium \<Rightarrow> 'j json_lib \<Rightarrow> (u32 \<times> PartialMetadataEntry) list \<Rightarrow> bytes" where
  "entries_text S J es =
     jpretty J 4 (jobj J [(''entries'', jarr J (map (\<lambda>(i, e). entry_to_json S J e) es))])"

definition save :: "sodium \<Rightarrow> 'j json_lib \<Rightarrow> disk \<Rightarrow> PartialMetadata \<Rightarrow> bool \<times> disk" where
  "save S J d pm = save_text d (pm_metadata_file pm) (entries_text S J (pm_entries pm))"

text \<open>One turn of the loop of \<^verbatim>\<open>load\<close>.\<close>

definition load_entry :: "PartialMetadataEntry \<Rightarrow> PartialMetadata \<Rightarrow> PartialMetadata" where
  "load_entry e pm =
     pm\<lparr>pm_entries := emplace (pe_id e) e (pm_entries pm), pm_next_id := max (pm_next_id pm) (pe_id e + 1)\<rparr>"

definition entries_of_text :: "sodium \<Rightarrow> 'j json_lib \<Rightarrow> bytes \<Rightarrow> PartialMetadataEntry list option" where
  "entries_of_text S J c = do {
     j \<leftarrow> jparse J c;
     es \<leftarrow> jat J j ''entries'';
     those (map (entry_from_json S J) (jiter J es)) }"

definition load :: "sodium \<Rightarrow> 'j json_lib \<Rightarrow> disk \<Rightarrow> PartialMetadata \<Rightarrow> PartialMetadata option" where
  "load S J d pm =
     (let pm0 = pm\<lparr>pm_entries := []\<rparr>
      in case status d (pm_metadata_file pm) of
           Some (File (c # cs)) \<Rightarrow>
             map_option (\<lambda>es. fold load_entry es pm0) (entries_of_text S J (c # cs))
         | _ \<Rightarrow> Some pm0)"

definition delete_partial_metadata ::
  "sodium \<Rightarrow> 'j json_lib \<Rightarrow> disk \<Rightarrow> PartialMetadata \<Rightarrow> u32 \<Rightarrow> bool \<times> disk \<times> PartialMetadata" where
  "delete_partial_metadata S J d pm i =
     (let pm1 = pm\<lparr>pm_entries := AList.delete i (pm_entries pm), pm_free_ids := pm_free_ids pm @ [i]\<rparr>;
          (ok, d1) = save S J d pm1
      in (ok, d1, pm1))"

fun delete_expired ::
  "sodium \<Rightarrow> 'j json_lib \<Rightarrow> disk \<Rightarrow> PartialMetadata \<Rightarrow> u32 list \<Rightarrow> bool \<times> disk \<times> PartialMetadata" where
  "delete_expired S J d pm [] = (True, d, pm)"
| "delete_expired S J d pm (i # is) =
     (let d1 = snd (remove_file d (get_partial_path d pm i))
      in case delete_partial_metadata S J d1 pm i of
           (False, d2, pm2) \<Rightarrow> (False, d2, pm2)
         | (True, d2, pm2) \<Rightarrow> delete_expired S J d2 pm2 is)"

definition cleanup_expired ::
  "sodium \<Rightarrow> 'j json_lib \<Rightarrow> nat \<Rightarrow> disk \<Rightarrow> PartialMetadata \<Rightarrow> bool \<times> disk \<times> PartialMetadata" where
  "cleanup_expired S J now d pm =
     (let expired = map fst (filter (\<lambda>(i, e). now - pe_last_activity e > TRANSFER_TIMEOUT) (pm_entries pm))
      in if expired = [] then (True, d, pm)
         else case delete_expired S J d pm expired of
                (False, d1, pm1) \<Rightarrow> (False, d1, pm1)
              | (True, d1, pm1) \<Rightarrow> (case save S J d1 pm1 of (ok, d2) \<Rightarrow> (ok, d2, pm1)))"

text \<open>The constructor; \<^verbatim>\<open>None\<close> when it throws.\<close>

definition new_partial_metadata ::
  "sodium \<Rightarrow> 'j json_lib \<Rightarrow> nat \<Rightarrow> disk \<Rightarrow> fpath \<Rightarrow> PartialMetadata option \<times> disk" where
  "new_partial_metadata S J now d file =
     (let pm = \<lparr>pm_metadata_file = file, pm_entries = [], pm_next_id = 1, pm_free_ids = []\<rparr>
      in case (if get_file_size d file = 0 then save S J d pm else (True, d)) of
           (False, d1) \<Rightarrow> (None, d1)
         | (True, d1) \<Rightarrow>
            (case load S J d1 pm of None \<Rightarrow> (None, d1)
             | Some pm1 \<Rightarrow>
                (case cleanup_expired S J now d1 pm1 of
                   (False, d2, _) \<Rightarrow> (None, d2) | (True, d2, pm2) \<Rightarrow> (Some pm2, d2))))"

section \<open>Saving and loading\<close>

text \<open>What the file keeps of an entry: the time of the last activity in seconds.\<close>

definition in_seconds :: "PartialMetadataEntry \<Rightarrow> PartialMetadataEntry" where
  "in_seconds e = e\<lparr>pe_last_activity := pe_last_activity e div NANOS * NANOS\<rparr>"

definition storable :: "PartialMetadataEntry \<Rightarrow> bool" where
  "storable e \<longleftrightarrow> (\<exists>cs. pe_absolute_path e = Abs cs \<and> wf_elements cs) \<and> length (pe_file_hash e) = 32 \<and>
     pe_type e \<in> {UPLOAD, DOWNLOAD} \<and> pe_last_activity e div NANOS < 2 ^ 64"

definition wf_entries :: "(u32 \<times> PartialMetadataEntry) list \<Rightarrow> bool" where
  "wf_entries es \<longleftrightarrow> distinct (map fst es) \<and> (\<forall>(i, e)\<in>set es. pe_id e = i \<and> storable e)"

lemma entry_roundtrip:
  assumes laws: "json_laws J" "hex_laws S" and e: "storable e"
  shows "entry_from_json S J (entry_to_json S J e) = Some (in_seconds e)"
proof -
  from e obtain cs where p: "pe_absolute_path e = Abs cs" "wf_elements cs" by (auto simp: storable_def)
  have ty: "type_of_int (sint (of_int (type_to_int (pe_type e)) :: u32)) = pe_type e"
    using e by (auto simp: storable_def type_to_int_def type_of_int_def)
  have ts: "unat (of_nat (pe_last_activity e div NANOS) :: u64) = pe_last_activity e div NANOS"
    using e by (simp add: storable_def unat_of_nat)
  have h: "hex_to_hash S (hash_to_hex S (pe_file_hash e)) = pe_file_hash e"
    using e laws(2) by (simp add: storable_def hex_to_hash_def hash_to_hex_def hex_laws_def)
  have "get_vector J (chunk_from_json J) (jarr J (map (chunk_to_json J) (pe_chunks e))) = Some (pe_chunks e)"
    "get_vector J (get_bool J) (jarr J (map (jbool J) (pe_chunk_state e))) = Some (pe_chunk_state e)"
    using laws(1) by (simp_all add: get_vector_jarr chunk_roundtrip json_bool)
  then show ?thesis
    using ty ts h p
    by (simp add: entry_to_json_def entry_from_json_def json_at [OF laws(1)] json_str [OF laws(1)]
        get_word_juint [OF laws(1)] get_word_def json_num [OF laws(1)] json_int [OF laws(1)]
        path_string_roundtrip in_seconds_def)
qed

lemma entries_roundtrip:
  assumes "json_laws J" and "json_text J" and "hex_laws S" and "wf_entries es"
  shows "entries_of_text S J (entries_text S J es) = Some (map (\<lambda>(i, e). in_seconds e) es)"
proof -
  have "those (map (entry_from_json S J \<circ> (\<lambda>(i, e). entry_to_json S J e)) es) = Some (map (\<lambda>(i, e). in_seconds e) es)"
    using assms(4) by (intro those_map_total) (auto simp: wf_entries_def entry_roundtrip assms)
  then show ?thesis
    using assms(2) by (simp add: entries_of_text_def entries_text_def json_text_def json_at [OF assms(1)]
        json_iter [OF assms(1)] o_def case_prod_unfold)
qed

interpretation pm_file: text_codec "entries_text S J" "entries_of_text S J"
  "\<lambda>es. json_laws J \<and> json_text J \<and> hex_laws S \<and> wf_entries es" "map (\<lambda>(i, e). in_seconds e)"
  for S :: sodium and J :: "'j json_lib"
proof
  fix es assume es: "json_laws J \<and> json_text J \<and> hex_laws S \<and> wf_entries es"
  then show "entries_of_text S J (entries_text S J es) = Some (map (\<lambda>(i, e). in_seconds e) es)"
    by (simp add: entries_roundtrip)
  show "entries_text S J es \<noteq> []" using es by (simp add: entries_text_def json_text_def)
qed

lemma load_entries_map:
  "distinct (map pe_id es) \<Longrightarrow> pm_entries pm = [] \<Longrightarrow>
   map_of (pm_entries (fold load_entry es pm)) = map_of (map (\<lambda>e. (pe_id e, e)) es)"
proof (induction es rule: rev_induct)
  case (snoc e es)
  have "map_of (map (\<lambda>e. (pe_id e, e)) es) (pe_id e) = None"
    using snoc.prems(1) by (auto simp: map_of_eq_None_iff)
  then show ?case
    using snoc by (auto simp: load_entry_def map_of_emplace fun_eq_iff map_add_def split: option.splits)
qed simp

lemma map_of_in_seconds:
  assumes "wf_entries es"
  shows "map_of (map (\<lambda>e. (pe_id e, e)) (map (\<lambda>(i, e). in_seconds e) es)) i = map_option in_seconds (map_of es i)"
    and "distinct (map pe_id (map (\<lambda>(i, e). in_seconds e) es))"
proof -
  have ids: "map pe_id (map (\<lambda>(i, e). in_seconds e) es) = map fst es"
    and prs: "map (\<lambda>e. (pe_id e, e)) (map (\<lambda>(i, e). in_seconds e) es) = map (\<lambda>(i, e). (i, in_seconds e)) es"
    using assms by (auto simp: wf_entries_def in_seconds_def)
  show "map_of (map (\<lambda>e. (pe_id e, e)) (map (\<lambda>(i, e). in_seconds e) es)) i = map_option in_seconds (map_of es i)"
    unfolding prs by (simp add: map_of_map)
  show "distinct (map pe_id (map (\<lambda>(i, e). in_seconds e) es))"
    using assms unfolding ids by (simp add: wf_entries_def)
qed

lemma save_load:
  assumes "json_laws J" and "json_text J" and "hex_laws S" and "wf_entries (pm_entries pm)"
    and "wf_disk d" and "faults d = []" and "pm_metadata_file pm = Abs q" and "file_slot d q"
    and "pm_metadata_file pm0 = Abs q"
  obtains d' pm' where "save S J d pm = (True, d')" "load S J d' pm0 = Some pm'"
    "\<And>i. get_entry pm' i = map_option in_seconds (get_entry pm i)"
proof -
  let ?es = "map (\<lambda>(i, e). in_seconds e) (pm_entries pm)"
  obtain d' c cs where s: "save_text d (Abs q) (entries_text S J (pm_entries pm)) = (True, d')"
    "status d' (Abs q) = Some (File (c # cs))" "entries_of_text S J (c # cs) = Some ?es"
    by (rule pm_file.saved [OF assms(5,8,6), where J = J and S = S and x = "pm_entries pm"])
      (use assms(1-4) in simp)
  have "map_of (pm_entries (fold load_entry ?es (pm0\<lparr>pm_entries := []\<rparr>))) =
      map_of (map (\<lambda>e. (pe_id e, e)) ?es)"
    using map_of_in_seconds(2) [OF assms(4)] by (intro load_entries_map) simp_all
  then have "get_entry (fold load_entry ?es (pm0\<lparr>pm_entries := []\<rparr>)) i = map_option in_seconds (get_entry pm i)" for i
    by (simp only: get_entry_def map_of_in_seconds(1) [OF assms(4)])
  moreover have "save S J d pm = (True, d')" using s(1) assms(7) by (simp add: save_def)
  moreover have "load S J d' pm0 = Some (fold load_entry ?es (pm0\<lparr>pm_entries := []\<rparr>))"
    using s(2,3) assms(9) by (simp add: load_def)
  ultimately show thesis using that by blast
qed

text \<open>
  Property (C18). A finished or discarded transfer does not come back: after
  \<^verbatim>\<open>delete_partial_metadata\<close> a table loaded from the file has no entry with that id and has every
  other entry unchanged, up to the sub-second part of its activity time. The disk accepts the
  writes; the entries have the shape the program gives them.
\<close>

theorem deleted_entry_stays_deleted:
  assumes "json_laws J" and "json_text J" and "hex_laws S" and "wf_entries (pm_entries pm)"
    and "wf_disk d" and "faults d = []" and "pm_metadata_file pm = Abs q" and "file_slot d q"
    and "pm_metadata_file pm0 = Abs q"
  shows "\<exists>d' pm1 pm'. delete_partial_metadata S J d pm i = (True, d', pm1) \<and> load S J d' pm0 = Some pm' \<and>
     (\<forall>j. get_entry pm' j = (if j = i then None else map_option in_seconds (get_entry pm j)))"
proof -
  let ?pm = "pm\<lparr>pm_entries := AList.delete i (pm_entries pm), pm_free_ids := pm_free_ids pm @ [i]\<rparr>"
  have "wf_entries (pm_entries ?pm)"
    using assms(4) by (auto simp: wf_entries_def AList.delete_eq)
  from save_load [OF assms(1-3) this assms(5,6) _ assms(8,9)] assms(7) obtain d' pm'
    where "save S J d ?pm = (True, d')" "load S J d' pm0 = Some pm'"
      "\<And>j. get_entry pm' j = map_option in_seconds (get_entry ?pm j)" by auto
  then show ?thesis by (auto simp: delete_partial_metadata_def get_entry_def)
qed

theorem deleted_entry_stays_deleted_witness:
  "\<exists>d' pm1 pm'. delete_partial_metadata sodium_ref json_ref (disk_of [([], Dir)])
       \<lparr>pm_metadata_file = Abs [''p.json''], pm_entries = [(1, \<lparr>pe_id = 1, pe_absolute_path = Abs [''a''],
          pe_size = 3, pe_file_hash = replicate 32 5, pe_type = UPLOAD, pe_chunks = [], pe_chunk_state = [],
          pe_last_activity = 77\<rparr>)], pm_next_id = 2, pm_free_ids = []\<rparr> 1 = (True, d', pm1) \<and>
     load sodium_ref json_ref d'
       \<lparr>pm_metadata_file = Abs [''p.json''], pm_entries = [], pm_next_id = 1, pm_free_ids = []\<rparr> = Some pm' \<and>
     get_entry pm' 1 = None"
proof -
  let ?pm = "\<lparr>pm_metadata_file = Abs [''p.json''], pm_entries = [(1, \<lparr>pe_id = 1, pe_absolute_path = Abs [''a''],
          pe_size = 3, pe_file_hash = replicate 32 5, pe_type = UPLOAD, pe_chunks = [], pe_chunk_state = [],
          pe_last_activity = 77\<rparr>)], pm_next_id = 2, pm_free_ids = []\<rparr>"
  have "wf_entries (pm_entries ?pm)"
    by (simp add: wf_entries_def storable_def wf_elements_def NANOS_def)
  moreover have "wf_disk (disk_of [([], Dir)])" by (rule wf_disk_of) simp_all
  moreover have "file_slot (disk_of [([], Dir)]) [''p.json'']"
    by (simp add: file_slot_def plain_name_def isdir_def)
  ultimately show ?thesis
    using deleted_entry_stays_deleted [OF json_ref_laws sodium_ref_laws(3), of ?pm "disk_of [([], Dir)]" "[''p.json'']"
        "\<lparr>pm_metadata_file = Abs [''p.json''], pm_entries = [], pm_next_id = 1, pm_free_ids = []\<rparr>" 1]
    by fastforce
qed

section \<open>Expiry\<close>

lemma delete_expired_entries:
  "delete_expired S J d pm is = (True, d', pm') \<Longrightarrow>
   map_of (pm_entries pm') = (\<lambda>i. if i \<in> set is then None else map_of (pm_entries pm) i)"
proof (induction S J d pm "is" arbitrary: d' pm' rule: delete_expired.induct)
  case (2 S J d pm i "is")
  then show ?case
    by (auto simp: Let_def delete_partial_metadata_def fun_eq_iff split: prod.splits bool.splits)
qed simp

lemma cleanup_expired_entries:
  assumes "cleanup_expired S J now d pm = (True, d', pm')" and "distinct (map fst (pm_entries pm))"
  shows "get_entry pm' i = (if is_expired now pm i then None else get_entry pm i)"
proof -
  let ?x = "map fst (filter (\<lambda>(i, e). now - pe_last_activity e > TRANSFER_TIMEOUT) (pm_entries pm))"
  have "(i, e) \<in> set (pm_entries pm) \<longleftrightarrow> map_of (pm_entries pm) i = Some e" for i e
    using assms(2) by (simp add: map_of_eq_Some_iff)
  then have x: "i \<in> set ?x \<longleftrightarrow> is_expired now pm i" for i
    by (cases "map_of (pm_entries pm) i") (auto simp: is_expired_def image_iff)
  show ?thesis
  proof (cases "?x = []")
    case True
    then have "pm' = pm" using assms(1) by (simp add: cleanup_expired_def Let_def)
    then show ?thesis using x [of i] unfolding True by simp
  next
    case False
    then obtain d1 where "delete_expired S J d pm ?x = (True, d1, pm')"
      using assms(1) by (auto simp: cleanup_expired_def Let_def split: prod.splits bool.splits)
    from delete_expired_entries [OF this] show ?thesis
      using x [of i] by (simp add: get_entry_def)
  qed
qed

lemma emplace_distinct: "distinct (map fst al) \<Longrightarrow> distinct (map fst (emplace k v al))"
  by (simp add: emplace_def map_of_eq_None_iff)

lemma load_distinct: "load S J d pm = Some pm' \<Longrightarrow> distinct (map fst (pm_entries pm'))"
proof -
  have "distinct (map fst (pm_entries pm)) \<Longrightarrow> distinct (map fst (pm_entries (fold load_entry es pm)))" for es pm
    by (induction es arbitrary: pm) (auto simp: load_entry_def emplace_distinct)
  then show "load S J d pm = Some pm' \<Longrightarrow> distinct (map fst (pm_entries pm'))"
    by (auto simp: load_def Let_def split: option.splits node.splits list.splits)
qed

text \<open>
  A table that the constructor delivers holds no transfer whose last activity is more than an hour
  ago, whatever was in the file and whatever the disk refused on the way.
\<close>

lemma new_table_has_no_expired:
  assumes "new_partial_metadata S J now d file = (Some pm, d')"
  shows "\<not> is_expired now pm i"
proof -
  obtain d1 pm1 where "load S J d1 \<lparr>pm_metadata_file = file, pm_entries = [], pm_next_id = 1, pm_free_ids = []\<rparr> = Some pm1"
    and c: "cleanup_expired S J now d1 pm1 = (True, d', pm)"
    using assms by (auto simp: new_partial_metadata_def Let_def split: prod.splits bool.splits option.splits)
  from cleanup_expired_entries [OF c load_distinct [OF this(1)], of i] show ?thesis
    by (auto simp: is_expired_def get_entry_def split: if_splits)
qed

section \<open>Identifiers\<close>

text \<open>
  The invariant behind \<^verbatim>\<open>generate_id\<close>: ids in use and ids waiting for reuse are different and all
  below the counter.
\<close>

definition pm_inv :: "PartialMetadata \<Rightarrow> bool" where
  "pm_inv pm \<longleftrightarrow> distinct (pm_free_ids pm) \<and> (\<forall>i\<in>set (pm_free_ids pm). get_entry pm i = None) \<and>
     (\<forall>i. i \<in> set (pm_free_ids pm) \<or> get_entry pm i \<noteq> None \<longrightarrow> i < pm_next_id pm)"

text \<open>
  The life of a table whose clients start transfers with fresh ids, mark chunks and finish
  transfers that exist; \<^verbatim>\<open>add\<close> needs the counter below its last value.
\<close>

inductive pm_step :: "sodium \<Rightarrow> 'j json_lib \<Rightarrow> PartialMetadata \<Rightarrow> PartialMetadata \<Rightarrow> bool"
  for S :: sodium and J :: "'j json_lib" where
  add: "pm_next_id pm < UINT32_MAX \<Longrightarrow> add_partial_metadata now pm ty fm cs UINT32_MAX = (i, pm') \<Longrightarrow> pm_step S J pm pm'"
| mark: "mark_chunk_received now pm i c = Some pm' \<Longrightarrow> pm_step S J pm pm'"
| delete: "get_entry pm i \<noteq> None \<Longrightarrow> delete_partial_metadata S J d pm i = (ok, d', pm') \<Longrightarrow> pm_step S J pm pm'"

inductive_cases pm_stepE: "pm_step S J pm pm'"

lemma word_less_Suc: "(x :: u32) < y \<Longrightarrow> y < UINT32_MAX \<Longrightarrow> x < y + 1"
  by (simp add: word_less_nat_alt unat_word_ariths)

lemma generate_id_fresh:
  assumes "pm_inv pm" and "pm_next_id pm < UINT32_MAX" and "generate_id pm = (i, pm')"
  shows "get_entry pm i = None" and "i < UINT32_MAX" and "pm_entries pm' = pm_entries pm"
    and "i \<notin> set (pm_free_ids pm')" and "pm_inv pm'" and "i < pm_next_id pm'"
proof -
  have n: "pm_next_id pm < pm_next_id pm + 1"
    using assms(2) by (simp add: word_less_nat_alt unat_word_ariths)
  note inv = assms(1) [unfolded pm_inv_def]
  show "get_entry pm i = None" "i < UINT32_MAX" "pm_entries pm' = pm_entries pm" "i \<notin> set (pm_free_ids pm')"
    "i < pm_next_id pm'"
    using assms n inv by (auto simp: generate_id_def split: list.splits)
  show "pm_inv pm'"
    using assms n inv word_less_Suc [OF _ assms(2)]
    by (auto simp: generate_id_def pm_inv_def get_entry_def split: list.splits)
qed

lemma pm_inv_add:
  assumes "pm_inv pm" and "pm_next_id pm < UINT32_MAX"
    and "add_partial_metadata now pm ty fm cs UINT32_MAX = (i, pm')"
  shows "pm_inv pm'" and "get_entry pm i = None" and "i \<noteq> UINT32_MAX"
    and "get_entry pm' j = (if j = i then Some \<lparr>pe_id = i, pe_absolute_path = fm_absolute_path fm,
        pe_size = fm_size fm, pe_file_hash = fm_hash fm, pe_type = ty, pe_chunks = cs,
        pe_chunk_state = replicate (length cs) False, pe_last_activity = now\<rparr> else get_entry pm j)"
proof -
  obtain pm1 where g: "generate_id pm = (i, pm1)"
    and pm': "pm' = pm1\<lparr>pm_entries := emplace i \<lparr>pe_id = i, pe_absolute_path = fm_absolute_path fm,
        pe_size = fm_size fm, pe_file_hash = fm_hash fm, pe_type = ty, pe_chunks = cs,
        pe_chunk_state = replicate (length cs) False, pe_last_activity = now\<rparr> (pm_entries pm1)\<rparr>"
    using assms(3) by (auto simp: add_partial_metadata_def Let_def split: prod.splits)
  note f = generate_id_fresh [OF assms(1,2) g]
  show "get_entry pm i = None" "i \<noteq> UINT32_MAX" using f by auto
  show "get_entry pm' j = (if j = i then Some \<lparr>pe_id = i, pe_absolute_path = fm_absolute_path fm,
        pe_size = fm_size fm, pe_file_hash = fm_hash fm, pe_type = ty, pe_chunks = cs,
        pe_chunk_state = replicate (length cs) False, pe_last_activity = now\<rparr> else get_entry pm j)"
    using f(1,3) by (auto simp: pm' get_entry_def map_of_emplace)
  show "pm_inv pm'"
    using f by (auto simp: pm' pm_inv_def get_entry_def map_of_emplace split: if_splits)
qed

lemma pm_step_inv: "pm_step S J pm pm' \<Longrightarrow> pm_inv pm \<Longrightarrow> pm_inv pm'"
proof (induction rule: pm_step.induct)
  case (add pm now ty fm cs i pm')
  then show ?case using pm_inv_add(1) by blast
next
  case (mark now pm i c pm')
  then show ?case
    by (auto simp: mark_chunk_received_def pm_inv_def get_entry_def split: option.splits if_splits)
next
  case (delete pm i d ok d' pm')
  then show ?case
    by (auto simp: delete_partial_metadata_def Let_def pm_inv_def get_entry_def split: prod.splits if_splits)
qed

lemma pm_steps_inv: "(pm_step S J)\<^sup>*\<^sup>* pm pm' \<Longrightarrow> pm_inv pm \<Longrightarrow> pm_inv pm'"
  by (induction rule: rtranclp_induct) (auto intro: pm_step_inv)



end
