(* ===== verification/Storage.thy ===== *)
theory Storage
  imports Database PartMeta
begin

text \<open>
  \<^verbatim>\<open>Storage\<close> (\<^verbatim>\<open>server/src/storage.cpp\<close>): the state all sessions of the server share, together with the
  disk it lives on: the accounts, the storage tiers, the per-user transfer tables and the per-user
  operation locks. Transfer tables are shared objects: \<^verbatim>\<open>sto_partmetas\<close> is the heap, a session and
  the map of the storage hold indices into it, so a table that \<^verbatim>\<open>invalidate_partmeta\<close> dropped from
  the map stays alive for the sessions that still use it. \<^verbatim>\<open>None\<close> is an exception nobody catches,
  which ends the server.
\<close>

section \<open>State\<close>

record StorageTier =
  st_name :: string
  st_path :: fpath
  st_description :: string

record StorageConfig =
  sc_root :: fpath
  sc_tiers :: "StorageTier list"
  sc_default_tier :: string

record MigrationResult =
  mr_ok :: bool
  mr_error :: string
  mr_files :: nat
  mr_bytes :: u64

record Storage =
  sto_disk :: disk
  sto_root :: fpath
  sto_tiers :: "StorageTier list"
  sto_default_tier :: string
  sto_user_partmeta :: "(string \<times> nat) list"
  sto_partmetas :: "PartialMetadata list"
  sto_user_lock :: "(string \<times> bool) list"
  sto_db :: Database

text \<open>What a handler is given from outside: the libraries, the clock and the random salt.\<close>

record 'j env =
  env_sodium :: sodium
  env_json :: "'j json_lib"
  env_now :: nat
  env_salt :: nat

definition new_storage :: "disk \<Rightarrow> StorageConfig \<Rightarrow> Storage" where
  "new_storage d cfg = \<lparr>sto_disk = d, sto_root = absolute d (sc_root cfg),
     sto_tiers = map (\<lambda>t. t\<lparr>st_path := absolute d (st_path t)\<rparr>) (sc_tiers cfg),
     sto_default_tier = sc_default_tier cfg, sto_user_partmeta = [], sto_partmetas = [],
     sto_user_lock = [], sto_db = \<lparr>db_path = Rel [], db_entries = []\<rparr>\<rparr>"

section \<open>Setup\<close>

text \<open>A name in single quotes, as the messages show it.\<close>

definition quoted :: "string \<Rightarrow> string" where
  "quoted s = CHR 0x27 # s @ [CHR 0x27]"

text \<open>\<^verbatim>\<open>operator/\<close> with a string.\<close>

definition sub :: "fpath \<Rightarrow> string \<Rightarrow> fpath" where
  "sub p s = path_append p (path_of_string s)"

text \<open>Create a directory unless it is one already.\<close>

definition ensure_dir :: "disk \<Rightarrow> fpath \<Rightarrow> disk" where
  "ensure_dir d p = (if is_directory d p then d else snd (mkdir d p))"

definition storage_setup :: "'j env \<Rightarrow> Storage \<Rightarrow> Storage option" where
  "storage_setup E st =
     (let d0 = sto_disk st; root = sto_root st;
          d1 = (if exists d0 root then d0 else snd (mkdir d0 root));
          d2 = (if is_file d1 (sub root ''users.json'') then d1
                else snd (create_empty_file d1 (sub root ''users.json'')));
          d3 = ensure_dir d2 (sub root ''public'');
          d4 = fold (\<lambda>t d. ensure_dir d (sub (st_path t) ''private'')) (sto_tiers st) d3
      in case new_database (env_json E) d4 (sub root ''users.json'') of
           (None, _) \<Rightarrow> None
         | (Some db, d5) \<Rightarrow> Some (st\<lparr>sto_disk := d5, sto_db := db\<rparr>))"

section \<open>Accounts\<close>

text \<open>The operations of the shared database, on the storage.\<close>

definition sto_user_exists :: "'j env \<Rightarrow> Storage \<Rightarrow> string \<Rightarrow> (bool \<times> Storage) option" where
  "sto_user_exists E st u =
     map_option (\<lambda>(b, db). (b, st\<lparr>sto_db := db\<rparr>)) (user_exists (env_json E) (sto_disk st) (sto_db st) u)"

definition sto_validate_user :: "'j env \<Rightarrow> Storage \<Rightarrow> string \<Rightarrow> string \<Rightarrow> (bool \<times> Storage) option" where
  "sto_validate_user E st u pw =
     map_option (\<lambda>(b, db). (b, st\<lparr>sto_db := db\<rparr>))
       (validate_user (env_sodium E) (env_json E) (sto_disk st) (sto_db st) u pw)"

definition sto_add_user :: "'j env \<Rightarrow> Storage \<Rightarrow> string \<Rightarrow> string \<Rightarrow> string \<Rightarrow> Storage option" where
  "sto_add_user E st u pw cls =
     (case add_user (env_sodium E) (env_json E) (env_salt E) (sto_disk st) (sto_db st) u pw cls of
        (False, _, _) \<Rightarrow> None | (True, d, db) \<Rightarrow> Some (st\<lparr>sto_disk := d, sto_db := db\<rparr>))"

definition sto_set_class :: "'j env \<Rightarrow> Storage \<Rightarrow> string \<Rightarrow> string \<Rightarrow> (bool \<times> Storage) option" where
  "sto_set_class E st u cls =
     (case set_storage_class (env_json E) (sto_disk st) (sto_db st) u cls of
        (False, _, _, _) \<Rightarrow> None | (True, b, d, db) \<Rightarrow> Some (b, st\<lparr>sto_disk := d, sto_db := db\<rparr>))"

section \<open>Locks\<close>

definition try_acquire_user_lock :: "'j env \<Rightarrow> Storage \<Rightarrow> string \<Rightarrow> (bool \<times> Storage) option" where
  "try_acquire_user_lock E st u =
     (case map_of (sto_user_lock st) u of
        Some b \<Rightarrow>
          if b then Some (False, st)
          else Some (True, st\<lparr>sto_user_lock := AList.update u True (sto_user_lock st)\<rparr>)
      | None \<Rightarrow>
          if u = ''public'' then Some (True, st\<lparr>sto_user_lock := emplace ''public'' True (sto_user_lock st)\<rparr>)
          else case sto_user_exists E st u of
                 None \<Rightarrow> None
               | Some (b, st1) \<Rightarrow>
                   if \<not> b then Some (False, st1)
                   else Some (True, st1\<lparr>sto_user_lock := emplace u True (sto_user_lock st1)\<rparr>))"

definition release_user_lock :: "Storage \<Rightarrow> string \<Rightarrow> Storage" where
  "release_user_lock st u =
     (if map_of (sto_user_lock st) u = None then st
      else st\<lparr>sto_user_lock := AList.update u False (sto_user_lock st)\<rparr>)"

section \<open>Tiers\<close>

definition find_tier :: "Storage \<Rightarrow> string \<Rightarrow> StorageTier option" where
  "find_tier st name = List.find (\<lambda>t. st_name t = name) (sto_tiers st)"

definition user_home :: "fpath \<Rightarrow> string \<Rightarrow> fpath" where
  "user_home base u = sub (sub base ''private'') u"

text \<open>The names of the tiers other than the recorded one that have a directory of the user.\<close>

definition found_on :: "Storage \<Rightarrow> string \<Rightarrow> string \<Rightarrow> string list" where
  "found_on st u recorded =
     map st_name (filter (\<lambda>t. st_name t \<noteq> recorded \<and> is_directory (sto_disk st) (user_home (st_path t) u))
       (sto_tiers st))"

definition get_user_tier :: "'j env \<Rightarrow> Storage \<Rightarrow> string \<Rightarrow> (string \<times> Storage) option" where
  "get_user_tier E st u =
     (if u = ''public'' then Some ([], st)
      else case get_storage_class (env_json E) (sto_disk st) (sto_db st) u of
             None \<Rightarrow> None
           | Some (cls, db) \<Rightarrow>
               let st1 = st\<lparr>sto_db := db\<rparr>;
                   recorded = (if cls = [] then sto_default_tier st1 else cls)
               in case find_tier st1 recorded of
                    None \<Rightarrow> Some ([], st1)
                  | Some t \<Rightarrow>
                      if is_directory (sto_disk st1) (user_home (st_path t) u) then Some (recorded, st1)
                      else (case found_on st1 u recorded of
                              [found] \<Rightarrow> map_option (\<lambda>(b, st2). (found, st2)) (sto_set_class E st1 u found)
                            | _ \<Rightarrow> Some (recorded, st1)))"

definition get_user_root :: "'j env \<Rightarrow> Storage \<Rightarrow> string \<Rightarrow> (fpath \<times> Storage) option" where
  "get_user_root E st u =
     (if u = ''public'' then Some (sto_root st, st)
      else map_option (\<lambda>(name, st1). (case find_tier st1 name of None \<Rightarrow> Rel [] | Some t \<Rightarrow> st_path t, st1))
             (get_user_tier E st u))"

section \<open>Transfer tables\<close>

definition add_partmeta :: "'j env \<Rightarrow> Storage \<Rightarrow> string \<Rightarrow> fpath \<Rightarrow> (nat \<times> Storage) option" where
  "add_partmeta E st u file =
     (case new_partial_metadata (env_sodium E) (env_json E) (env_now E) (sto_disk st) (absolute (sto_disk st) file) of
        (None, _) \<Rightarrow> None
      | (Some pm, d) \<Rightarrow>
          Some (length (sto_partmetas st),
            st\<lparr>sto_disk := d, sto_partmetas := sto_partmetas st @ [pm],
               sto_user_partmeta := emplace u (length (sto_partmetas st)) (sto_user_partmeta st)\<rparr>))"

definition get_partmeta :: "'j env \<Rightarrow> Storage \<Rightarrow> string \<Rightarrow> (nat \<times> Storage) option" where
  "get_partmeta E st u =
     (case map_of (sto_user_partmeta st) u of
        Some p \<Rightarrow> Some (p, st)
      | None \<Rightarrow>
          if u = ''public'' then add_partmeta E st u (sub (sto_root st) ''public/.partial/partmeta.json'')
          else do {
            (b, st1) \<leftarrow> sto_user_exists E st u;
            if \<not> b then None else do {
              (base, st2) \<leftarrow> get_user_root E st1 u;
              if path_empty base then None
              else add_partmeta E st2 u (sub (user_home base u) ''.partial/partmeta.json'') } })"

definition invalidate_partmeta :: "Storage \<Rightarrow> string \<Rightarrow> Storage" where
  "invalidate_partmeta st u = st\<lparr>sto_user_partmeta := AList.delete u (sto_user_partmeta st)\<rparr>"

section \<open>Migration\<close>

text \<open>
  The fingerprint of a directory tree; \<^verbatim>\<open>std::map\<close> compares by content, so the order of the list
  does not matter.
\<close>

type_synonym snapshot = "(string \<times> string) list"

definition snapshot_entry :: "sodium \<Rightarrow> disk \<Rightarrow> fpath \<Rightarrow> FileMetadata \<Rightarrow> snapshot \<times> u64 \<Rightarrow> snapshot \<times> u64" where
  "snapshot_entry S d dir fm acc =
     (case acc of (out, bytes) \<Rightarrow>
        let rel = string_of_path (relative d dir (fm_absolute_path fm))
        in if is_directory d (fm_absolute_path fm) then (emplace rel ''<dir>'' out, bytes)
           else (emplace rel (hash_to_hex S (fm_hash fm)) out, bytes + ucast (fm_size fm)))"

definition snapshot_files :: "sodium \<Rightarrow> disk \<Rightarrow> fpath \<Rightarrow> (snapshot \<times> u64) option" where
  "snapshot_files S d dir =
     (if \<not> is_directory d dir then Some ([], 0)
      else let files = scan_directory S d dir True
           in if is_scan_dir_error files then None
              else Some (fold (snapshot_entry S d dir) files ([], 0)))"

definition migration_failed :: "string \<Rightarrow> MigrationResult" where
  "migration_failed msg = \<lparr>mr_ok = False, mr_error = msg, mr_files = 0, mr_bytes = 0\<rparr>"

definition migrate_user :: "'j env \<Rightarrow> Storage \<Rightarrow> string \<Rightarrow> StorageTier \<Rightarrow> StorageTier \<Rightarrow> MigrationResult \<times> Storage" where
  "migrate_user E st u from to =
     (let src = user_home (st_path from) u; dst = user_home (st_path to) u; d = sto_disk st
      in if \<not> is_directory d src
         then (case (if is_directory d dst then (True, d) else mkdir d dst) of
                 (False, d1) \<Rightarrow> (migration_failed (''Failed to create your directory on tier '' @ quoted (st_name to) @ ''.''),
                                st\<lparr>sto_disk := d1\<rparr>)
               | (True, d1) \<Rightarrow> (\<lparr>mr_ok = True, mr_error = [], mr_files = 0, mr_bytes = 0\<rparr>,
                                invalidate_partmeta (st\<lparr>sto_disk := d1\<rparr>) u))
         else if exists d dst
         then (migration_failed (''Data already exists on tier '' @ quoted (st_name to) @ ''; a previous migration may have failed. Contact the administrator.''), st)
         else case snapshot_files (env_sodium E) d (sub src ''files'') of
           None \<Rightarrow> (migration_failed (''Failed to read your files on tier '' @ quoted (st_name from) @ ''.''), st)
         | Some (prior, bytes) \<Rightarrow>
            (case copy_path d src dst False of
               (False, d1) \<Rightarrow> (migration_failed (''Failed to copy your data to tier '' @ quoted (st_name to) @ ''; nothing was removed.''), st\<lparr>sto_disk := snd (rmdir d1 dst)\<rparr>)
             | (True, d1) \<Rightarrow>
                (case snapshot_files (env_sodium E) d1 (sub dst ''files'') of
                   None \<Rightarrow> (migration_failed (''Failed to verify the copy on tier '' @ quoted (st_name to) @ ''; nothing was removed.''), st\<lparr>sto_disk := snd (rmdir d1 dst)\<rparr>)
                 | Some (after, copied_bytes) \<Rightarrow>
                    if set prior \<noteq> set after
                    then (migration_failed (''The copy on tier '' @ quoted (st_name to) @ '' did not match the source; nothing was removed.''), st\<lparr>sto_disk := snd (rmdir d1 dst)\<rparr>)
                    else (\<lparr>mr_ok = True, mr_error = [], mr_files = length prior, mr_bytes = bytes\<rparr>,
                          invalidate_partmeta (st\<lparr>sto_disk := snd (rmdir d1 src)\<rparr>) u))))"

section \<open>Example environment and storage\<close>

definition demo_env :: "bool env" where
  "demo_env = \<lparr>env_sodium = sodium_ref, env_json = json_bit, env_now = 0, env_salt = 0\<rparr>"

definition demo_storage :: "(apath \<times> node) list \<Rightarrow> Storage" where
  "demo_storage ns = \<lparr>sto_disk = disk_of ns, sto_root = Abs [], sto_tiers = [], sto_default_tier = [],
     sto_user_partmeta = [], sto_partmetas = [], sto_user_lock = [],
     sto_db = \<lparr>db_path = Abs [''users.json''], db_entries = []\<rparr>\<rparr>"

end
