(* ===== verification/Session.thy ===== *)
theory Session
  imports Storage
begin

text \<open>
  \<^verbatim>\<open>Session\<close> (\<^verbatim>\<open>server/src/session.cpp\<close>): one client connection. A handler is a function on a
  \<^verbatim>\<open>world\<close>, the shared storage and the session it runs in. What the session writes to its socket
  is appended to \<^verbatim>\<open>se_outbox\<close>; \<^verbatim>\<open>se_closing\<close> records that the last write carries the completion
  that calls \<^verbatim>\<open>finish_exit\<close>. A handler returns \<^verbatim>\<open>None\<close> where the code throws an exception that is
  not caught, or reads outside a vector, through a null pointer or from an empty queue.
\<close>

section \<open>State\<close>

datatype SessionState =
    AUTH | OK | ERROR | CONFLICT | NEED_INPUT_REGISTER | NEED_INPUT_RESUME_TREANSFER
  | NEED_INPUT_SET_TIER | BUSY | LOGIN | READY | EXIT | SETUP
  | UPLOAD_INIT | UPLOADING | DOWNLOAD_INIT | DOWNLOADING

record ActiveTransfer =
  at_transfer_id :: u32
  at_fmeta :: FileMetadata
  at_partial_path :: fpath
  at_chunks :: "ChunkInfo list"
  at_chunk_state :: "bool list"

definition no_transfer :: ActiveTransfer where
  "no_transfer = \<lparr>at_transfer_id = UINT32_MAX, at_fmeta = no_metadata, at_partial_path = Rel [],
     at_chunks = [], at_chunk_state = []\<rparr>"

datatype message = Json Response | Chunk ChunkHeader bytes

record Session =
  se_state :: SessionState
  se_current_dir :: fpath
  se_user_dir :: fpath
  se_username :: string
  se_partmeta :: "nat option"
  se_transfer :: ActiveTransfer
  se_exiting :: bool
  se_resume_queue :: "PartialMetadataEntry list"
  se_resuming :: bool
  se_pending_tier :: string
  se_socket_open :: bool
  se_closing :: bool
  se_outbox :: "message list"

definition new_session :: Session where
  "new_session = \<lparr>se_state = LOGIN, se_current_dir = Rel [], se_user_dir = Rel [], se_username = [],
     se_partmeta = None, se_transfer = no_transfer, se_exiting = False, se_resume_queue = [],
     se_resuming = False, se_pending_tier = [], se_socket_open = True, se_closing = False, se_outbox = []\<rparr>"

record world =
  w_storage :: Storage
  w_session :: Session

abbreviation w_disk :: "world \<Rightarrow> disk" where "w_disk w \<equiv> sto_disk (w_storage w)"
abbreviation w_state :: "world \<Rightarrow> SessionState" where "w_state w \<equiv> se_state (w_session w)"
abbreviation w_user :: "world \<Rightarrow> string" where "w_user w \<equiv> se_username (w_session w)"

definition set_disk :: "disk \<Rightarrow> world \<Rightarrow> world" where
  "set_disk d w = w\<lparr>w_storage := (w_storage w)\<lparr>sto_disk := d\<rparr>\<rparr>"

definition set_state :: "SessionState \<Rightarrow> world \<Rightarrow> world" where
  "set_state s w = w\<lparr>w_session := (w_session w)\<lparr>se_state := s\<rparr>\<rparr>"

definition set_transfer :: "ActiveTransfer \<Rightarrow> world \<Rightarrow> world" where
  "set_transfer t w = w\<lparr>w_session := (w_session w)\<lparr>se_transfer := t\<rparr>\<rparr>"

section \<open>Sending\<close>

definition send_msg :: "message \<Rightarrow> world \<Rightarrow> world" where
  "send_msg m w = w\<lparr>w_session := (w_session w)\<lparr>se_outbox := se_outbox (w_session w) @ [m]\<rparr>\<rparr>"

text \<open>\<^verbatim>\<open>send_res\<close> clears the chunk list of the response.\<close>

definition send_res :: "Response \<Rightarrow> world \<Rightarrow> world" where
  "send_res res w = send_msg (Json (res\<lparr>res_chunks := []\<rparr>)) w"

definition response :: "string \<Rightarrow> u16 \<Rightarrow> string \<Rightarrow> string \<Rightarrow> Response" where
  "response stat code msg hash = \<lparr>res_status = stat, res_code = code, res_message = msg,
     res_file_hash = hash, res_chunks = [], res_files = [], res_tiers = []\<rparr>"

definition reply :: "string \<Rightarrow> u16 \<Rightarrow> string \<Rightarrow> world \<Rightarrow> world" where
  "reply stat code msg w = send_res (response stat code msg []) w"

abbreviation "code_OK \<equiv> (200 :: u16)"
abbreviation "BAD_REQUEST \<equiv> (400 :: u16)"
abbreviation "UNAUTHORIZED \<equiv> (401 :: u16)"
abbreviation "FORBIDDEN \<equiv> (403 :: u16)"
abbreviation "NOT_FOUND \<equiv> (404 :: u16)"
abbreviation "code_CONFLICT \<equiv> (409 :: u16)"
abbreviation "PRECONDITION_FAILED \<equiv> (412 :: u16)"
abbreviation "INTERNAL_SERVER_ERROR \<equiv> (500 :: u16)"
abbreviation "SERVICE_UNAVAILABLE \<equiv> (503 :: u16)"

definition err :: "u16 \<Rightarrow> string \<Rightarrow> world \<Rightarrow> world" where
  "err code msg w = reply ''ERROR'' code msg w"

definition okay :: "string \<Rightarrow> world \<Rightarrow> world" where
  "okay msg w = reply ''OK'' code_OK msg w"

definition send_flag :: "u32 \<Rightarrow> u32 \<Rightarrow> u8 \<Rightarrow> world \<Rightarrow> world" where
  "send_flag tid index flag w =
     send_msg (Chunk \<lparr>ch_transfer_id = tid, ch_index = index, ch_size = 0, ch_flags = flag\<rparr> []) w"

definition closing :: "world \<Rightarrow> world" where
  "closing w = w\<lparr>w_session := (w_session w)\<lparr>se_closing := True\<rparr>\<rparr>"

section \<open>Guards shared by the handlers\<close>

definition unlock :: "world \<Rightarrow> world" where
  "unlock w = w\<lparr>w_storage := release_user_lock (w_storage w) (w_user w)\<rparr>"

text \<open>An error reply of a handler that holds the lock.\<close>

definition err_unlock :: "u16 \<Rightarrow> string \<Rightarrow> world \<Rightarrow> world" where
  "err_unlock code msg w = unlock (err code msg w)"

definition when_ready :: "world \<Rightarrow> (world \<Rightarrow> world option) \<Rightarrow> world option" where
  "when_ready w k =
     (if w_state w \<noteq> READY then Some (err SERVICE_UNAVAILABLE ''Session not ready.'' w) else k w)"

definition with_lock :: "'j env \<Rightarrow> world \<Rightarrow> (world \<Rightarrow> world option) \<Rightarrow> world option" where
  "with_lock E w k =
     (case try_acquire_user_lock E (w_storage w) (w_user w) of
        None \<Rightarrow> None
      | Some (False, st) \<Rightarrow> Some (err SERVICE_UNAVAILABLE ''Server is busy'' (w\<lparr>w_storage := st\<rparr>))
      | Some (True, st) \<Rightarrow> k (w\<lparr>w_storage := st\<rparr>))"

definition resolve :: "world \<Rightarrow> string \<Rightarrow> fpath" where
  "resolve w arg =
     resolve_path (w_disk w) (se_user_dir (w_session w)) (se_current_dir (w_session w)) (path_of_string arg)"

definition in_user_dir :: "world \<Rightarrow> fpath \<Rightarrow> bool" where
  "in_user_dir w p = is_subpath (w_disk w) (se_user_dir (w_session w)) p"

text \<open>\<^verbatim>\<open>fsutils::relative(user_dir_, p).string()\<close>\<close>

definition rel_name :: "world \<Rightarrow> fpath \<Rightarrow> fpath \<Rightarrow> string" where
  "rel_name w base p = string_of_path (relative (w_disk w) base p)"

section \<open>Listing and navigation\<close>

abbreviation newline :: string where "newline \<equiv> [CHR 0x0A]"

definition list_names :: "world \<Rightarrow> fpath \<Rightarrow> FileMetadata list \<Rightarrow> string" where
  "list_names w base files = concat (map (\<lambda>fm. rel_name w base (fm_absolute_path fm) @ newline) files)"

definition list_cmd :: "'j env \<Rightarrow> Request \<Rightarrow> world \<Rightarrow> world option" where
  "list_cmd E req w0 = when_ready w0 (\<lambda>w1. with_lock E w1 (\<lambda>w.
     if req_first_argument req = [] then
       (let cur = se_current_dir (w_session w); files = scan_directory (env_sodium E) (w_disk w) cur False
        in if is_scan_dir_error files
           then Some (err_unlock INTERNAL_SERVER_ERROR ''Failed to list directory'' w)
           else Some (unlock (okay (''Current directory: '' @ rel_name w (se_user_dir (w_session w)) cur @ newline @
                   list_names w cur files) w)))
     else
       (let dir = resolve w (req_first_argument req)
        in if \<not> is_directory (w_disk w) dir then Some (err_unlock BAD_REQUEST ''Directory does not exist.'' w)
           else if \<not> in_user_dir w dir then Some (err_unlock FORBIDDEN ''Access denied.'' w)
           else let files = scan_directory (env_sodium E) (w_disk w) dir False
                in if is_scan_dir_error files
                   then Some (err_unlock INTERNAL_SERVER_ERROR ''Failed to list directory'' w)
                   else Some (unlock (okay (list_names w dir files) w)))))"

definition cd_cmd :: "Request \<Rightarrow> world \<Rightarrow> world option" where
  "cd_cmd req w0 = when_ready w0 (\<lambda>w.
     let dir = resolve w (req_first_argument req)
     in if \<not> is_directory (w_disk w) dir then Some (err BAD_REQUEST ''Directory does not exist.'' w)
        else if \<not> in_user_dir w dir then Some (err FORBIDDEN ''Access denied.'' w)
        else Some (okay ''Directory changed.'' (w\<lparr>w_session := (w_session w)\<lparr>se_current_dir := dir\<rparr>\<rparr>)))"

section \<open>Changing the tree\<close>

text \<open>The end of a handler that ran a disk operation under the lock.\<close>

definition finish_op :: "bool \<times> disk \<Rightarrow> string \<Rightarrow> string \<Rightarrow> world \<Rightarrow> world" where
  "finish_op r failed done w =
     (case r of (False, d) \<Rightarrow> err_unlock INTERNAL_SERVER_ERROR failed (set_disk d w)
      | (True, d) \<Rightarrow> unlock (okay done (set_disk d w)))"

definition delete_file_cmd :: "'j env \<Rightarrow> Request \<Rightarrow> world \<Rightarrow> world option" where
  "delete_file_cmd E req w0 = when_ready w0 (\<lambda>w1. with_lock E w1 (\<lambda>w.
     let file = resolve w (req_first_argument req)
     in if \<not> is_file (w_disk w) file then Some (err_unlock BAD_REQUEST ''File does not exist.'' w)
        else if \<not> in_user_dir w file then Some (err_unlock FORBIDDEN ''Access denied.'' w)
        else Some (finish_op (remove_file (w_disk w) file) ''Cannot remove file'' ''File deleted'' w)))"

definition mkdir_cmd :: "'j env \<Rightarrow> Request \<Rightarrow> world \<Rightarrow> world option" where
  "mkdir_cmd E req w0 = when_ready w0 (\<lambda>w1.
     if req_first_argument req = [] then Some (err BAD_REQUEST ''Directory path cannot be empty.'' w1)
     else with_lock E w1 (\<lambda>w.
       let dir = resolve w (req_first_argument req)
       in if is_directory (w_disk w) dir then Some (err_unlock PRECONDITION_FAILED ''Directory already exists.'' w)
          else if \<not> in_user_dir w dir then Some (err_unlock FORBIDDEN ''Access denied.'' w)
          else Some (finish_op (mkdir (w_disk w) dir) ''Cannot create directory.'' ''Directory created.'' w)))"

definition rmdir_cmd :: "'j env \<Rightarrow> Request \<Rightarrow> world \<Rightarrow> world option" where
  "rmdir_cmd E req w0 = when_ready w0 (\<lambda>w1.
     if req_first_argument req = [] then Some (err BAD_REQUEST ''Directory path cannot be empty.'' w1)
     else with_lock E w1 (\<lambda>w.
       let dir = resolve w (req_first_argument req)
       in if \<not> is_directory (w_disk w) dir then Some (err_unlock BAD_REQUEST ''Directory does no  exist.'' w)
          else if \<not> in_user_dir w dir \<or> se_user_dir (w_session w) = dir
          then Some (err_unlock FORBIDDEN ''Access denied.'' w)
          else Some (finish_op (rmdir (w_disk w) dir) ''Cannot delete directory.'' ''Directory deleted.'' w)))"

text \<open>\<^verbatim>\<open>move\<close> and \<^verbatim>\<open>copy\<close> differ in the operation and in two messages only.\<close>

definition two_path_cmd :: "'j env \<Rightarrow> (disk \<Rightarrow> fpath \<Rightarrow> fpath \<Rightarrow> bool \<times> disk) \<Rightarrow> string \<Rightarrow> string \<Rightarrow>
    Request \<Rightarrow> world \<Rightarrow> world option" where
  "two_path_cmd E oper failed done req w0 = when_ready w0 (\<lambda>w1.
     if req_first_argument req = [] \<or> req_second_argument req = []
     then Some (err BAD_REQUEST ''File path cannot be empty.'' w1)
     else with_lock E w1 (\<lambda>w.
       let src = resolve w (req_first_argument req); dst = resolve w (req_second_argument req)
       in if \<not> (is_directory (w_disk w) src \<or> is_file (w_disk w) src)
          then Some (err_unlock PRECONDITION_FAILED ''Incorrect paths.'' w)
          else if is_directory (w_disk w) dst \<or> is_file (w_disk w) dst
          then Some (err_unlock PRECONDITION_FAILED ''Destination path already exists.'' w)
          else if \<not> in_user_dir w src \<or> \<not> in_user_dir w dst
          then Some (err_unlock FORBIDDEN ''Access denied.'' w)
          else Some (finish_op (oper (w_disk w) src dst) failed done w)))"

definition move_cmd :: "'j env \<Rightarrow> Request \<Rightarrow> world \<Rightarrow> world option" where
  "move_cmd E = two_path_cmd E (\<lambda>d s t. move_path d s t False) ''Cannot move paths.'' ''Path moved.''"

definition copy_cmd :: "'j env \<Rightarrow> Request \<Rightarrow> world \<Rightarrow> world option" where
  "copy_cmd E = two_path_cmd E (\<lambda>d s t. copy_path d s t False) ''Cannot copy paths.'' ''Path copied.''"

section \<open>Synchronisation listing\<close>

definition sync_entry :: "'j env \<Rightarrow> world \<Rightarrow> fpath \<Rightarrow> FileMetadata \<Rightarrow> FileEntry" where
  "sync_entry E w dir fm =
     (let is_dir = is_directory (w_disk w) (fm_absolute_path fm)
      in \<lparr>fe_relative_path = rel_name w dir (fm_absolute_path fm),
          fe_size = (if is_dir then 0 else fm_size fm),
          fe_file_hash = (if is_dir then [] else hash_to_hex (env_sodium E) (fm_hash fm)),
          fe_last_modified = fm_last_modified fm, fe_is_directory = is_dir\<rparr>)"

definition sync_cmd :: "'j env \<Rightarrow> Request \<Rightarrow> world \<Rightarrow> world option" where
  "sync_cmd E req w0 = when_ready w0 (\<lambda>w1.
     if req_first_argument req = [] then Some (err BAD_REQUEST ''Directory path cannot be empty.'' w1)
     else with_lock E w1 (\<lambda>w.
       let dir = resolve w (req_first_argument req)
       in if \<not> in_user_dir w dir then Some (err_unlock FORBIDDEN ''Access denied.'' w)
          else if \<not> is_directory (w_disk w) dir
          then Some (err_unlock PRECONDITION_FAILED ''Remote sync directory does not exist.'' w)
          else let files = scan_directory (env_sodium E) (w_disk w) dir True
               in if is_scan_dir_error files
                  then Some (err_unlock INTERNAL_SERVER_ERROR ''Failed to list directory'' w)
                  else Some (unlock (send_res
                    ((response ''OK'' code_OK (''Listing of '' @ rel_name w (se_user_dir (w_session w)) dir) [])
                       \<lparr>res_files := map (sync_entry E w dir) files\<rparr>) w))))"

end
