(* ===== verification/SessionFlow.thy ===== *)
theory SessionFlow
  imports Session
begin

text \<open>
  The parts of \<^verbatim>\<open>session.cpp\<close> that move a session between its states: resumable uploads and
  downloads, login and registration, tier changes, the end of a session, and the two dispatchers
  \<^verbatim>\<open>handle_request\<close> and \<^verbatim>\<open>handle_chunk\<close>.
\<close>

section \<open>The transfer table of the session\<close>

definition the_pm :: "world \<Rightarrow> PartialMetadata option" where
  "the_pm w =
     (case se_partmeta (w_session w) of None \<Rightarrow> None
      | Some p \<Rightarrow> if p < length (sto_partmetas (w_storage w)) then Some (sto_partmetas (w_storage w) ! p) else None)"

definition put_pm :: "PartialMetadata \<Rightarrow> world \<Rightarrow> world" where
  "put_pm pm w =
     (case se_partmeta (w_session w) of None \<Rightarrow> w
      | Some p \<Rightarrow> w\<lparr>w_storage := (w_storage w)\<lparr>sto_partmetas := (sto_partmetas (w_storage w))[p := pm]\<rparr>\<rparr>)"

definition pm_add :: "'j env \<Rightarrow> TransferType \<Rightarrow> u32 \<Rightarrow> world \<Rightarrow> (u32 \<times> world) option" where
  "pm_add E ty tid w = do {
     pm \<leftarrow> the_pm w;
     let t = se_transfer (w_session w);
         (i, pm') = add_partial_metadata (env_now E) pm ty (at_fmeta t) (at_chunks t) tid
     in Some (i, put_pm pm' w) }"

definition pm_mark :: "'j env \<Rightarrow> u32 \<Rightarrow> u32 \<Rightarrow> world \<Rightarrow> world option" where
  "pm_mark E tid index w = do {
     pm \<leftarrow> the_pm w;
     pm' \<leftarrow> mark_chunk_received (env_now E) pm tid index;
     Some (put_pm pm' w) }"

definition pm_delete :: "'j env \<Rightarrow> u32 \<Rightarrow> world \<Rightarrow> world option" where
  "pm_delete E tid w = do {
     pm \<leftarrow> the_pm w;
     case delete_partial_metadata (env_sodium E) (env_json E) (w_disk w) pm tid of
       (False, d, pm') \<Rightarrow> None
     | (True, d, pm') \<Rightarrow> Some (put_pm pm' (set_disk d w)) }"

definition pm_save :: "'j env \<Rightarrow> world \<Rightarrow> world option" where
  "pm_save E w = do {
     pm \<leftarrow> the_pm w;
     case save (env_sodium E) (env_json E) (w_disk w) pm of
       (False, d) \<Rightarrow> None | (True, d) \<Rightarrow> Some (set_disk d w) }"

section \<open>Resuming\<close>

text \<open>\<^verbatim>\<open>handle_resumes\<close> from the point where the queue is filled.\<close>

definition resume_next :: "world \<Rightarrow> world option" where
  "resume_next w =
     (case se_resume_queue (w_session w) of
        [] \<Rightarrow> Some (okay ''Ready.'' (set_state READY (w\<lparr>w_session := (w_session w)\<lparr>se_resuming := False\<rparr>\<rparr>)))
      | e # _ \<Rightarrow>
          Some (reply ''RESUME'' code_OK (''Do you want to resume '' @ type_to_string (pe_type e) @ '' of '' @
              rel_name w (se_user_dir (w_session w)) (pe_absolute_path e) @ ''? (y/n)'')
            (set_state NEED_INPUT_RESUME_TREANSFER w)))"

definition queue_resumes :: "PartialMetadataEntry list \<Rightarrow> world \<Rightarrow> world" where
  "queue_resumes es w = w\<lparr>w_session := (w_session w)\<lparr>se_resuming := True,
     se_resume_queue := se_resume_queue (w_session w) @ es\<rparr>\<rparr>"

definition handle_resumes :: "world \<Rightarrow> world option" where
  "handle_resumes w =
     (if se_resuming (w_session w) then resume_next w
      else do {
        pm \<leftarrow> the_pm w;
        if get_entries pm = [] then Some w else resume_next (queue_resumes (get_entries pm) w) })"

text \<open>The last two statements of every way a transfer can end.\<close>

definition end_transfer :: "world \<Rightarrow> world option" where
  "end_transfer w =
     (let w1 = unlock w
      in if se_resuming (w_session w1) then handle_resumes w1 else Some (set_state READY w1))"

section \<open>Upload\<close>

definition valid_file :: "'j env \<Rightarrow> world \<Rightarrow> fpath \<Rightarrow> bytes \<Rightarrow> bool" where
  "valid_file E w p expected =
     (let h = hash_file (env_sodium E) (w_disk w) p in h = expected \<and> \<not> is_hash_error h)"

definition valid_chunk :: "'j env \<Rightarrow> world \<Rightarrow> u32 \<Rightarrow> u32 \<Rightarrow> bytes \<Rightarrow> bool option" where
  "valid_chunk E w index sz data =
     (let cs = at_chunks (se_transfer (w_session w))
      in if \<not> unat index < length cs then None
         else let c = cs ! unat index; h = hash_chunk (env_sodium E) data
              in Some (ci_size c = sz \<and> ci_index c = index \<and>
                   h = hex_to_hash (env_sodium E) (ci_chunk_hash c) \<and> \<not> is_hash_error h))"

text \<open>The branch of the abort functions that discards the partial file and the entry.\<close>

definition discard_upload :: "'j env \<Rightarrow> world \<Rightarrow> world option" where
  "discard_upload E w = do {
     let t = se_transfer (w_session w) in
     pm_delete E (at_transfer_id t)
       (set_disk (snd (remove_file (w_disk w) (at_partial_path t))) w) \<bind>
     (\<lambda>w1. Some (set_transfer no_transfer w1)) }"

definition discard_download :: "'j env \<Rightarrow> world \<Rightarrow> world option" where
  "discard_download E w =
     pm_delete E (at_transfer_id (se_transfer (w_session w))) w \<bind> (\<lambda>w1. Some (set_transfer no_transfer w1))"

definition upload_abort :: "'j env \<Rightarrow> bool \<Rightarrow> bool \<Rightarrow> u8 \<Rightarrow> world \<Rightarrow> world option" where
  "upload_abort E saving notify flag w = do {
     w1 \<leftarrow> (if saving then pm_save E w else discard_upload E w);
     end_transfer (if notify then send_flag (at_transfer_id (se_transfer (w_session w1))) UINT32_MAX flag w1 else w1) }"

definition upload_abort_exit :: "'j env \<Rightarrow> bool \<Rightarrow> bool \<Rightarrow> u8 \<Rightarrow> world \<Rightarrow> world option" where
  "upload_abort_exit E saving notify flag w = do {
     w1 \<leftarrow> (if saving then pm_save E w else discard_upload E w);
     Some (if notify then closing (send_flag (at_transfer_id (se_transfer (w_session w1))) UINT32_MAX flag w1) else w1) }"

definition upload_init :: "'j env \<Rightarrow> world \<Rightarrow> world option" where
  "upload_init E w = do {
     (i, w1) \<leftarrow> pm_add E UPLOAD (at_transfer_id (se_transfer (w_session w))) w;
     pm \<leftarrow> the_pm w1;
     let p = get_partial_path (w_disk w1) pm (at_transfer_id (se_transfer (w_session w1)));
         w2 = set_transfer ((se_transfer (w_session w1))\<lparr>at_partial_path := p\<rparr>) w1
     in if path_empty p then upload_abort E False True flag_ERROR w2
        else if is_file (w_disk w2) p then Some w2
        else Some (set_disk (snd (create_empty_file (w_disk w2) p)) w2) }"

definition upload_done :: "'j env \<Rightarrow> world \<Rightarrow> world option" where
  "upload_done E w =
     (let t = se_transfer (w_session w);
          w1 = set_disk (snd (move_path (w_disk w) (at_partial_path t) (fm_absolute_path (at_fmeta t)) True)) w
      in pm_delete E (at_transfer_id t) w1 \<bind> (\<lambda>w2. end_transfer (set_transfer no_transfer w2)))"

definition uploading :: "'j env \<Rightarrow> u32 \<Rightarrow> u32 \<Rightarrow> bytes \<Rightarrow> u8 \<Rightarrow> world \<Rightarrow> world option" where
  "uploading E index sz data flag w =
     (let t = se_transfer (w_session w)
      in if \<not> unat index < length (at_chunk_state t) then None
         else let t1 = t\<lparr>at_chunk_state := (at_chunk_state t)[unat index := True]\<rparr>
              in pm_mark E (at_transfer_id t1) index (set_transfer t1 w) \<bind> (\<lambda>w1.
                   case write_chunk (w_disk w1) (at_partial_path t1) (CHUNK_SIZE * index) data of
                     (False, d) \<Rightarrow> upload_abort E False True flag_ERROR (set_disk d w1)
                   | (True, d) \<Rightarrow>
                      (let w2 = set_disk d w1
                       in if flag = flag_DONE \<and> \<not> valid_file E w2 (at_partial_path t1) (fm_hash (at_fmeta t1))
                          then upload_abort E False True flag_ERROR w2
                          else let w3 = send_flag (at_transfer_id t1) index flag w2
                               in if flag = flag_DONE then upload_done E w3 else Some w3)))"

definition upload_cmd :: "'j env \<Rightarrow> Request \<Rightarrow> world \<Rightarrow> world option" where
  "upload_cmd E req w0 = when_ready w0 (\<lambda>w1. with_lock E w1 (\<lambda>w.
     let file = resolve w (req_first_argument req)
     in if is_file (w_disk w) file then Some (err_unlock PRECONDITION_FAILED ''File already exists.'' w)
        else if is_directory (w_disk w) file
        then Some (err_unlock PRECONDITION_FAILED ''Requested file is an existing directory.'' w)
        else if \<not> in_user_dir w file then Some (err_unlock FORBIDDEN ''Access denied.'' w)
        else if req_size req > UINT32_MAX
        then Some (err_unlock PRECONDITION_FAILED ''File too large. Max 4GB.'' w)
        else
          let fm = \<lparr>fm_absolute_path = file, fm_size = req_size req, fm_last_modified = 0,
                    fm_hash = hex_to_hash (env_sodium E) (req_file_hash req)\<rparr>;
              t = (se_transfer (w_session w))\<lparr>at_fmeta := fm, at_chunks := req_chunks req,
                    at_chunk_state := replicate (length (req_chunks req)) False\<rparr>;
              w2 = set_transfer t w
          in Some (set_state UPLOADING
               (okay (''Starting upload to file: '' @ rel_name w2 (se_user_dir (w_session w2)) file) w2))))"

section \<open>Download\<close>

definition download_abort :: "'j env \<Rightarrow> bool \<Rightarrow> bool \<Rightarrow> u8 \<Rightarrow> world \<Rightarrow> world option" where
  "download_abort E saving notify flag w = do {
     w1 \<leftarrow> (if saving then pm_save E w else discard_download E w);
     end_transfer (if notify then send_flag (at_transfer_id (se_transfer (w_session w1))) UINT32_MAX flag w1 else w1) }"

definition download_abort_exit :: "'j env \<Rightarrow> bool \<Rightarrow> bool \<Rightarrow> u8 \<Rightarrow> world \<Rightarrow> world option" where
  "download_abort_exit E saving notify flag w = do {
     w1 \<leftarrow> (if saving then pm_save E w else discard_download E w);
     Some (if notify then closing (send_flag (at_transfer_id (se_transfer (w_session w1))) UINT32_MAX flag w1) else w1) }"

definition download_done :: "'j env \<Rightarrow> world \<Rightarrow> world option" where
  "download_done E w = discard_download E w \<bind> end_transfer"

text \<open>The search loop of \<^verbatim>\<open>downloading\<close>: the first chunk that is not acknowledged.\<close>

fun first_pending :: "nat \<Rightarrow> bool list \<Rightarrow> nat option" where
  "first_pending i [] = None"
| "first_pending i (b # bs) = (if \<not> b then Some i else first_pending (Suc i) bs)"

definition downloading :: "world \<Rightarrow> world option" where
  "downloading w =
     (let t = se_transfer (w_session w)
      in case first_pending 0 (at_chunk_state t) of
           None \<Rightarrow> Some w
         | Some i \<Rightarrow>
             if \<not> i < length (at_chunks t) then None
             else let c = at_chunks t ! i;
                      flag = (if unat (ci_index c) = length (at_chunks t) - 1 then flag_LAST else flag_SEND);
                      data = read_chunk (w_disk w) (fm_absolute_path (at_fmeta t)) (CHUNK_SIZE * ci_index c) (ci_size c)
                  in if data = [] then Some w
                     else Some (send_msg (Chunk \<lparr>ch_transfer_id = at_transfer_id t, ch_index = ci_index c,
                            ch_size = ci_size c, ch_flags = flag\<rparr> data) w))"

definition download_init :: "'j env \<Rightarrow> world \<Rightarrow> world option" where
  "download_init E w = do {
     (i, w1) \<leftarrow> pm_add E DOWNLOAD UINT32_MAX w;
     downloading (set_transfer ((se_transfer (w_session w1))\<lparr>at_transfer_id := i\<rparr>) w1) }"

definition download_cmd :: "'j env \<Rightarrow> Request \<Rightarrow> world \<Rightarrow> world option" where
  "download_cmd E req w0 = when_ready w0 (\<lambda>w1. with_lock E w1 (\<lambda>w.
     let file = resolve w (req_first_argument req)
     in if \<not> is_file (w_disk w) file then Some (err_unlock PRECONDITION_FAILED ''File does not exist.'' w)
        else if is_directory (w_disk w) file
        then Some (err_unlock PRECONDITION_FAILED ''Requested file is an existing directory.'' w)
        else if \<not> in_user_dir w file then Some (err_unlock FORBIDDEN ''Access denied.'' w)
        else let fm = scan_file (env_sodium E) (w_disk w) file
        in if is_scan_file_error fm then Some (err_unlock INTERNAL_SERVER_ERROR ''Failed to scan file.'' w)
           else if fm_size fm = 0 then Some (err_unlock PRECONDITION_FAILED ''File is empty.'' w)
           else let cs = compute_chunks (env_sodium E) (w_disk w) fm
           in if is_compute_chunks_error cs
              then Some (err_unlock INTERNAL_SERVER_ERROR ''Gathering chunk data failed.'' w)
              else
                let t = (se_transfer (w_session w))\<lparr>at_fmeta := fm, at_chunks := cs,
                          at_chunk_state := replicate (length cs) False\<rparr>;
                    w2 = set_transfer t w
                in if fm_size fm > UINT32_MAX
                   then Some (err_unlock PRECONDITION_FAILED ''File too large. Max 4GB.'' w2)
                   else download_init E (set_state DOWNLOADING (send_msg (Json
                     ((response ''OK'' code_OK ''Starting download.'' (hash_to_hex (env_sodium E) (fm_hash fm)))
                        \<lparr>res_chunks := cs\<rparr>)) w2))))"

section \<open>The end of a session\<close>

definition finish_exit :: "world \<Rightarrow> world" where
  "finish_exit w =
     (let w1 = unlock w
      in w1\<lparr>w_session := (w_session w1)\<lparr>se_socket_open := False, se_closing := False, se_state := EXIT\<rparr>\<rparr>)"

definition exit_session :: "'j env \<Rightarrow> world \<Rightarrow> world option" where
  "exit_session E w =
     (if se_exiting (w_session w) then Some w
      else let w1 = w\<lparr>w_session := (w_session w)\<lparr>se_exiting := True\<rparr>\<rparr>; opened = se_socket_open (w_session w)
           in if w_state w1 = UPLOADING then upload_abort_exit E True opened flag_EXIT w1
              else if w_state w1 = DOWNLOADING then download_abort_exit E True opened flag_EXIT w1
              else if opened then Some (closing (reply ''EXIT'' code_OK ''Goodbye.'' w1))
              else Some (finish_exit w1))"

section \<open>Chunks\<close>

definition set_transfer_id :: "u32 \<Rightarrow> world \<Rightarrow> world" where
  "set_transfer_id tid w = set_transfer ((se_transfer (w_session w))\<lparr>at_transfer_id := tid\<rparr>) w"

text \<open>The lazy initialisation of an upload by its first chunk.\<close>

definition init_if_new :: "'j env \<Rightarrow> u32 \<Rightarrow> world \<Rightarrow> world option" where
  "init_if_new E tid w =
     (if at_transfer_id (se_transfer (w_session w)) = UINT32_MAX
      then upload_init E (set_transfer_id tid w) else Some w)"

definition handle_chunk :: "'j env \<Rightarrow> ChunkHeader \<Rightarrow> bytes \<Rightarrow> world \<Rightarrow> world option" where
  "handle_chunk E ch data w =
     (if w_state w = UPLOADING then
        if ch_flags ch = flag_SEND then do {
          ok \<leftarrow> valid_chunk E w (ch_index ch) (ch_size ch) data;
          if ok then do {
            w1 \<leftarrow> init_if_new E (ch_transfer_id ch) w;
            uploading E (ch_index ch) (ch_size ch) data flag_OK w1 }
          else upload_abort E False True flag_CHUNK_MISMATCH w }
        else if ch_flags ch = flag_LAST then do {
          w1 \<leftarrow> init_if_new E (ch_transfer_id ch) w;
          ok \<leftarrow> valid_chunk E w1 (ch_index ch) (ch_size ch) data;
          if ok then uploading E (ch_index ch) (ch_size ch) data flag_DONE w1
          else upload_abort E False True flag_CHUNK_MISMATCH w1 }
        else if ch_flags ch = flag_ERROR then upload_abort E False False flag_ERROR w
        else if ch_flags ch = flag_EXIT then upload_abort E True False flag_EXIT w \<bind> exit_session E
        else Some w
      else if w_state w = DOWNLOADING then
        let t = se_transfer (w_session w);
            t1 = t\<lparr>at_chunk_state := (at_chunk_state t)[unat (ch_index ch) := True]\<rparr>
        in if ch_flags ch = flag_OK then
             if ch_transfer_id ch \<noteq> at_transfer_id t then download_abort E False True flag_ERROR w
             else if \<not> unat (ch_index ch) < length (at_chunk_state t) then None
             else pm_mark E (at_transfer_id t) (ch_index ch) (set_transfer t1 w) \<bind> downloading
           else if ch_flags ch = flag_DONE then
             if \<not> unat (ch_index ch) < length (at_chunk_state t) then None
             else download_done E (set_transfer t1 w)
           else if ch_flags ch = flag_ERROR then download_abort E False False flag_ERROR w
           else if ch_flags ch = flag_EXIT then upload_abort E True False flag_EXIT w \<bind> exit_session E
           else Some w
      else Some w)"

section \<open>Login\<close>

text \<open>The two branches of \<^verbatim>\<open>setup_dir\<close> on the home directory of a user, or the public directory.\<close>

definition setup_home :: "disk \<Rightarrow> fpath \<Rightarrow> disk" where
  "setup_home d home =
     (let files = sub home ''files''; partial = sub home ''.partial'';
          meta = sub home ''.partial/partmeta.json''
      in if is_directory d home then
           let d1 = (if is_directory d files then d else snd (mkdir d files));
               d2 = (if is_directory d1 partial then d1
                     else snd (create_empty_file (snd (mkdir d1 partial)) meta))
           in if is_file d2 meta then d2 else snd (create_empty_file d2 meta)
         else snd (create_empty_file (snd (mkdir (snd (mkdir (snd (mkdir d home)) files)) partial)) meta))"

definition enter_home :: "'j env \<Rightarrow> fpath \<Rightarrow> world \<Rightarrow> (bool \<times> world) option" where
  "enter_home E home w =
     (let w1 = set_disk (setup_home (w_disk w) home) w;
          dir = absolute (w_disk w1) (sub home ''files'');
          w2 = w1\<lparr>w_session := (w_session w1)\<lparr>se_user_dir := dir, se_current_dir := dir\<rparr>\<rparr>
      in map_option (\<lambda>(p, st). (True, w2\<lparr>w_storage := st, w_session := (w_session w2)\<lparr>se_partmeta := Some p\<rparr>\<rparr>))
           (get_partmeta E (w_storage w2) (w_user w2)))"

definition setup_dir :: "'j env \<Rightarrow> world \<Rightarrow> (bool \<times> world) option" where
  "setup_dir E w =
     (if w_user w \<noteq> ''public'' then do {
        (base, st) \<leftarrow> get_user_root E (w_storage w) (w_user w);
        let w1 = w\<lparr>w_storage := st\<rparr> in
        if path_empty base
        then Some (False, err INTERNAL_SERVER_ERROR
               ''Your storage tier is not configured on this server. Contact the administrator.'' w1)
        else enter_home E (user_home base (w_user w1)) w1 }
      else enter_home E (sub (sto_root (w_storage w)) ''public'') w)"

definition set_username :: "string \<Rightarrow> world \<Rightarrow> world" where
  "set_username u w = w\<lparr>w_session := (w_session w)\<lparr>se_username := u\<rparr>\<rparr>"

definition public_mode :: "'j env \<Rightarrow> string \<Rightarrow> world \<Rightarrow> world option" where
  "public_mode E msg w = do {
     (ok, w1) \<leftarrow> setup_dir E (set_username ''public'' w);
     Some (if ok then set_state READY (okay msg w1) else w1) }"

definition login_cmd :: "'j env \<Rightarrow> Request \<Rightarrow> world \<Rightarrow> world option" where
  "login_cmd E req w =
     (if w_state w \<noteq> LOGIN then Some (err SERVICE_UNAVAILABLE ''Already logged in'' w)
      else if req_first_argument req = []
      then public_mode E ''[warning] no username provided. Operating in public mode.'' w
      else if req_first_argument req = ''public''
      then public_mode E (''[warning] username '' @ [CHR 0x22] @ ''public'' @ [CHR 0x22] @
             '' is reserved for public mode. Operating in public mode.'') w
      else
        let w1 = set_username (req_first_argument req) w
        in map_option (\<lambda>(b, st).
             let w2 = w1\<lparr>w_storage := st\<rparr>
             in if \<not> b
                then set_state NEED_INPUT_REGISTER (reply ''NEED_INPUT'' UNAUTHORIZED
                       ''User does not exist. Do you want to register? (Y/n)'' w2)
                else set_state AUTH (reply ''AUTH'' code_OK ''Please provide your password.'' w2))
             (sto_user_exists E (w_storage w1) (req_first_argument req)))"

definition auth_cmd :: "'j env \<Rightarrow> Request \<Rightarrow> world \<Rightarrow> world option" where
  "auth_cmd E req w =
     (let pw = req_first_argument req; u = w_user w
      in if w_state w \<noteq> AUTH then Some (err SERVICE_UNAVAILABLE ''Not in authentication state'' w)
         else if pw = [] then Some (reply ''AUTH'' BAD_REQUEST ''Password cannot be empty. Try again.'' w)
         else do {
           (known, st1) \<leftarrow> sto_user_exists E (w_storage w) u;
           if known then do {
             (valid, st2) \<leftarrow> sto_validate_user E st1 u pw;
             let w2 = w\<lparr>w_storage := st2\<rparr> in
             if valid then do {
               (ok, w3) \<leftarrow> setup_dir E w2;
               if \<not> ok then Some w3
               else do {
                 let w4 = set_state READY w3 in the_pm w4 \<bind> (\<lambda>pm.
                 if get_entries pm = [] then Some (okay ''Authentication successful.'' w4)
                 else handle_resumes (queue_resumes (get_entries pm) w4)) } }
             else Some (reply ''AUTH'' UNAUTHORIZED ''Invalid password. Try again.'' w2) }
           else do {
             (known2, st2) \<leftarrow> sto_user_exists E st1 u;
             if known2 then Some (w\<lparr>w_storage := st2\<rparr>)
             else do {
               st3 \<leftarrow> sto_add_user E st2 u pw (sto_default_tier st2);
               (ok, w3) \<leftarrow> setup_dir E (w\<lparr>w_storage := st3\<rparr>);
               if \<not> ok then Some w3
               else handle_resumes (set_state READY (okay ''Registration successful.'' w3)) } } })"

section \<open>Storage tiers\<close>

definition tiers_cmd :: "'j env \<Rightarrow> Request \<Rightarrow> world \<Rightarrow> world option" where
  "tiers_cmd E req w0 = when_ready w0 (\<lambda>w. do {
     (current, st) \<leftarrow> get_user_tier E (w_storage w) (w_user w);
     let w1 = w\<lparr>w_storage := st\<rparr>;
         msg = (if w_user w1 = ''public''
                then ''Available storage tiers (public mode uses the server'' @ [CHR 0x27] @ ''s shared public storage):''
                else ''Available storage tiers:'')
     in Some (send_res ((response ''OK'' code_OK msg [])\<lparr>res_tiers :=
          map (\<lambda>t. \<lparr>ti_name = st_name t, ti_description = st_description t,
                 ti_is_current = (current \<noteq> [] \<and> st_name t = current)\<rparr>) (sto_tiers st)\<rparr>) w1) })"

text \<open>The count of the confirmation question; a scan error counts nothing.\<close>

definition count_files :: "disk \<Rightarrow> FileMetadata list \<Rightarrow> nat \<times> u64" where
  "count_files d files =
     (if is_scan_dir_error files then (0, 0)
      else let fs = filter (\<lambda>fm. \<not> is_directory d (fm_absolute_path fm)) files
           in (length fs, sum_list (map (\<lambda>fm. ucast (fm_size fm)) fs)))"

text \<open>The part of \<^verbatim>\<open>set_tier\<close> that runs under the lock: the question.\<close>

definition ask_set_tier :: "'j env \<Rightarrow> string \<Rightarrow> string \<Rightarrow> world \<Rightarrow> world option" where
  "ask_set_tier E current name w =
     (let (files, bytes) = count_files (w_disk w)
            (scan_directory (env_sodium E) (w_disk w) (se_user_dir (w_session w)) True);
          w1 = w\<lparr>w_session := (w_session w)\<lparr>se_pending_tier := name\<rparr>\<rparr>
      in Some (set_state NEED_INPUT_SET_TIER (reply ''NEED_INPUT'' code_OK
           (''Move '' @ dec files @ '' file(s), '' @ dec (unat bytes) @ '' bytes from tier '' @ quoted current @
            '' to '' @ quoted name @ ''? This may take a while. (Y/n)'') w1)))"

definition set_tier_cmd :: "'j env \<Rightarrow> Request \<Rightarrow> world \<Rightarrow> world option" where
  "set_tier_cmd E req w0 = when_ready w0 (\<lambda>w1.
     let name = req_first_argument req
     in if name = [] then Some (err BAD_REQUEST ''Tier name cannot be empty.'' w1)
        else if w_user w1 = ''public''
        then Some (err FORBIDDEN ''Public mode has no storage tier. Log in with a username to change tiers.'' w1)
        else if find_tier (w_storage w1) name = None
        then Some (err NOT_FOUND (''Unknown storage tier '' @ quoted name @ ''. Use TIERS to see available media.'') w1)
        else do {
          (current, st) \<leftarrow> get_user_tier E (w_storage w1) (w_user w1);
          let w2 = w1\<lparr>w_storage := st\<rparr> in
          if current = name then Some (okay (''Already on tier '' @ quoted current @ ''.'') w2)
          else do {
            pm \<leftarrow> the_pm w2;
            if get_entries pm \<noteq> []
            then Some (err code_CONFLICT (''You have '' @ dec (length (get_entries pm)) @
                   '' unfinished transfer(s). Reconnect to finish or discard them before changing tier.'') w2)
            else with_lock E w2 (ask_set_tier E current name) } })"

definition finish_set_tier :: "'j env \<Rightarrow> world \<Rightarrow> world option" where
  "finish_set_tier E w0 =
     (let tgt = se_pending_tier (w_session w0);
          w = set_state READY (w0\<lparr>w_session := (w_session w0)\<lparr>se_pending_tier := []\<rparr>\<rparr>)
      in do {
        (current, st) \<leftarrow> get_user_tier E (w_storage w) (w_user w);
        let w1 = w\<lparr>w_storage := st\<rparr> in
        case (find_tier st current, find_tier st tgt) of
          (Some from, Some to) \<Rightarrow>
            (let (result, st2) = migrate_user E st (w_user w1) from to; w2 = w1\<lparr>w_storage := st2\<rparr>
             in if \<not> mr_ok result then Some (err_unlock INTERNAL_SERVER_ERROR (mr_error result) w2)
                else do {
                  (recorded, st3) \<leftarrow> sto_set_class E st2 (w_user w2) tgt;
                  let w3 = w2\<lparr>w_storage := st3\<rparr> in
                  if \<not> recorded
                  then Some (err_unlock INTERNAL_SERVER_ERROR (''Data was moved to tier '' @ quoted tgt @
                         '' but the change could not be recorded.'') w3)
                  else do {
                    (ok, w4) \<leftarrow> setup_dir E w3;
                    if \<not> ok then Some (unlock w4)
                    else Some (unlock (okay (''Moved to tier '' @ quoted tgt @ ''. '' @ dec (mr_files result) @
                           '' file(s), '' @ dec (unat (mr_bytes result)) @ '' bytes.'') w4)) } })
        | _ \<Rightarrow> Some (err_unlock INTERNAL_SERVER_ERROR ''Storage tier is no longer configured on this server.'' w1) })"

section \<open>Questions\<close>

definition resume_transfer :: "PartialMetadataEntry \<Rightarrow> world \<Rightarrow> world option" where
  "resume_transfer e w = do {
     pm \<leftarrow> the_pm w;
     let t = \<lparr>at_transfer_id = pe_id e,
              at_fmeta = (at_fmeta (se_transfer (w_session w)))\<lparr>fm_absolute_path := pe_absolute_path e,
                           fm_size := pe_size e, fm_hash := pe_file_hash e\<rparr>,
              at_partial_path = get_partial_path (w_disk w) pm (pe_id e),
              at_chunks = pe_chunks e, at_chunk_state = pe_chunk_state e\<rparr>;
         w1 = send_res (response ''RESUME'' code_OK (type_to_string (pe_type e) @ '' '' @
                rel_name w (se_user_dir (w_session w)) (pe_absolute_path e)) (dec (unat (pe_id e)))) (set_transfer t w)
     in if pe_type e = UPLOAD then Some (set_state UPLOADING w1) else downloading (set_state DOWNLOADING w1) }"

definition pop_resume :: "world \<Rightarrow> (PartialMetadataEntry \<times> world) option" where
  "pop_resume w =
     (case se_resume_queue (w_session w) of [] \<Rightarrow> None
      | e # es \<Rightarrow> Some (e, w\<lparr>w_session := (w_session w)\<lparr>se_resume_queue := es\<rparr>\<rparr>))"

definition need_input_resume :: "'j env \<Rightarrow> Request \<Rightarrow> world \<Rightarrow> world option" where
  "need_input_resume E req w =
     (if req_first_argument req = ''y'' then do {
        (e, w1) \<leftarrow> pop_resume w;
        (locked, st) \<leftarrow> try_acquire_user_lock E (w_storage w1) (w_user w1);
        let w2 = w1\<lparr>w_storage := st\<rparr> in
        if \<not> locked
        then handle_resumes (err SERVICE_UNAVAILABLE (''Server is busy, skipping '' @ type_to_string (pe_type e) @
               '' of '' @ rel_name w2 (se_user_dir (w_session w2)) (pe_absolute_path e)) w2)
        else resume_transfer e w2 }
      else if req_first_argument req = ''n'' then do {
        (e, w1) \<leftarrow> pop_resume w;
        pm \<leftarrow> the_pm w1;
        w2 \<leftarrow> pm_delete E (pe_id e)
               (set_disk (snd (remove_file (w_disk w1) (get_partial_path (w_disk w1) pm (pe_id e)))) w1);
        handle_resumes w2 }
      else Some (err BAD_REQUEST ''Invalid input for resume confirmation. Y/n expected.'' w))"

definition need_input_cmd :: "'j env \<Rightarrow> Request \<Rightarrow> world \<Rightarrow> world option" where
  "need_input_cmd E req w =
     (if w_state w = NEED_INPUT_REGISTER then
        if req_first_argument req = ''y''
        then Some (set_state AUTH (reply ''AUTH'' UNAUTHORIZED ''For registration, please provide a password.'' w))
        else if req_first_argument req = ''n''
        then public_mode E ''[warning] no registrartion. Operating in public mode.'' w
        else Some (err BAD_REQUEST ''Invalid input for registration. Y/n expected.'' w)
      else if w_state w = NEED_INPUT_RESUME_TREANSFER then need_input_resume E req w
      else if w_state w = NEED_INPUT_SET_TIER then
        if req_first_argument req = ''y'' then finish_set_tier E w
        else if req_first_argument req = ''n''
        then Some (okay ''Tier change cancelled.''
               (unlock (set_state READY (w\<lparr>w_session := (w_session w)\<lparr>se_pending_tier := []\<rparr>\<rparr>))))
        else Some (err BAD_REQUEST ''Invalid input for tier change. Y/n expected.'' w)
      else Some (err SERVICE_UNAVAILABLE ''No input required at this time.'' w))"

section \<open>Dispatch\<close>

definition execute :: "'j env \<Rightarrow> Request \<Rightarrow> world \<Rightarrow> world option" where
  "execute E req w =
     (let c = req_cmd req
      in if c = ''EXIT'' then exit_session E w
         else if c = ''LIST'' then list_cmd E req w
         else if c = ''UPLOAD'' then upload_cmd E req w
         else if c = ''DOWNLOAD'' then download_cmd E req w
         else if c = ''DELETE'' then delete_file_cmd E req w
         else if c = ''CD'' then cd_cmd req w
         else if c = ''MKDIR'' then mkdir_cmd E req w
         else if c = ''RMDIR'' then rmdir_cmd E req w
         else if c = ''MOVE'' then move_cmd E req w
         else if c = ''COPY'' then copy_cmd E req w
         else if c = ''SYNC'' then sync_cmd E req w
         else if c = ''TIERS'' then tiers_cmd E req w
         else if c = ''SET_TIER'' then set_tier_cmd E req w
         else if c = ''LOGIN'' then login_cmd E req w
         else if c = ''NEED_INPUT'' then need_input_cmd E req w
         else if c = ''AUTH'' then auth_cmd E req w
         else Some (err BAD_REQUEST ''Unknown request'' w))"

definition handle_request :: "'j env \<Rightarrow> 'j \<Rightarrow> world \<Rightarrow> world option" where
  "handle_request E j w = do {
     req \<leftarrow> request_from_json (env_json E) j;
     execute E req w }"

text \<open>
  \<^verbatim>\<open>read_next\<close> decides which framing the next bytes have; \<^verbatim>\<open>handle_error\<close> ends the session.
\<close>

datatype expected = Nothing_more | Expect_json | Expect_chunk

definition read_next :: "world \<Rightarrow> expected" where
  "read_next w =
     (if se_exiting (w_session w) then Nothing_more
      else if w_state w = UPLOADING \<or> w_state w = DOWNLOADING then Expect_chunk else Expect_json)"

definition handle_error :: "'j env \<Rightarrow> world \<Rightarrow> world option" where
  "handle_error E w = exit_session E w"

end
