(* ===== verification/FileOps.thy ===== *)
theory FileOps
  imports Spell SessionFlow
begin

text \<open>
  What the file operations do when the disk refuses nothing: creating a file in a free place, moving a
  file to a free place, and filling a partial file chunk by chunk in order; the messages of a transfer
  whose chunks are sent in order.
\<close>

definition free_place :: "disk \<Rightarrow> apath \<Rightarrow> bool" where
  "free_place d q \<longleftrightarrow> q \<noteq> [] \<and> plain_name (last q) \<and> isdir d (butlast q) \<and> lookup d q = None"

lemma free_place_plain:
  assumes "wf_disk d" and "free_place d q"
  shows "list_all plain_name q"
proof -
  have "list_all plain_name (butlast q)"
    using assms wf_plain_names [of d "butlast q"] by (auto simp: free_place_def isdir_def)
  then show ?thesis using assms(2) by (cases q rule: rev_cases) (auto simp: free_place_def)
qed

lemma free_place_locate: "wf_disk d \<Longrightarrow> free_place d q \<Longrightarrow> locate d (Abs q) = None"
  by (simp add: locate_Abs walk_plain free_place_plain) (simp add: free_place_def)

lemma free_place_target:
  assumes "wf_disk d" and "free_place d q"
  shows "target d (Abs q) = Some q" and "\<not> trailing_slash (Abs q)"
proof -
  have "walk d [] (butlast q) = Some (butlast q)"
    using assms free_place_plain [OF assms] by (simp add: walk_butlast_plain free_place_def isdir_def)
  then show "target d (Abs q) = Some q" "\<not> trailing_slash (Abs q)"
    using assms(2) by (auto simp: target_def Let_def free_place_def trailing_slash_def plain_name_def)
qed

lemma free_place_absent:
  assumes "wf_disk d" and "free_place d q"
  shows "\<not> fs_exists d (Abs q)" and "\<not> is_file d (Abs q)" and "\<not> is_directory d (Abs q)"
  using free_place_locate [OF assms]
  by (simp_all add: fs_exists_def is_file_def fs_is_regular_file_def is_directory_def fs_is_directory_def status_def)

lemma create_empty_place:
  assumes "wf_disk d" and "faults d = []" and "free_place d q"
  shows "create_empty_file d (Abs q) = (True, put d q (File []))" and "wf_disk (put d q (File []))"
proof -
  show "create_empty_file d (Abs q) = (True, put d q (File []))"
    using assms free_place_target [OF assms(1,3)] free_place_absent(1) [OF assms(1,3)] sys_write_ok [OF assms(2)]
    by (simp add: create_empty_file_def open_new_def free_place_def)
  show "wf_disk (put d q (File []))" using assms by (intro wf_put) (auto simp: free_place_def)
qed

lemma wf_put_file: "wf_disk d \<Longrightarrow> lookup d q = Some (File x) \<Longrightarrow> wf_disk (put d q (File y))"
proof -
  assume wf: "wf_disk d" and l: "lookup d q = Some (File x)"
  then have "q \<noteq> []" using wf_diskD(2) [OF wf] by (auto simp: isdir_def)
  then show ?thesis using wf_diskD(3,4) [OF wf, of q] l by (intro wf_put [OF wf]) auto
qed

lemma write_chunk_ok:
  assumes "wf_disk d" and "faults d = []" and "lookup d q = Some (File x)"
  shows "write_chunk d (Abs q) off data = (True, put d q (File (splice (unat off) data x)))"
proof -
  have "q \<noteq> []" using wf_diskD(2) [OF assms(1)] assms(3) by (auto simp: isdir_def)
  then show ?thesis
    using write_chunk_existing [OF assms(1,3)] sys_write_ok [OF assms(2), of q] wf_diskD(3) [OF assms(1), of q] assms(3)
    by simp
qed

text \<open>The content after the first chunks, in order; a chunk that is there already may come again.\<close>

lemma splice_same:
  assumes "off \<le> length y" and "data = take (length data) (drop off y)"
  shows "splice off data y = y"
proof -
  have "take off y @ data @ drop (off + length data) y = take off y @ take (length data) (drop off y) @ drop (length data) (drop off y)"
    using assms(2) by (simp add: add.commute)
  also have "\<dots> = y" by (simp only: append_take_drop_id)
  finally show ?thesis using assms(1) by (simp add: splice_def)
qed

lemma splice_again:
  assumes "k < j"
  shows "splice (k * 262144) (slice c k) (take (j * 262144) c) = take (j * 262144) c"
proof (cases "k * 262144 \<le> length c")
  case True
  have "Suc k * 262144 \<le> j * 262144" using assms by (intro mult_le_mono1) simp
  then have j: "262144 \<le> j * 262144 - k * 262144" "k * 262144 \<le> j * 262144" by simp_all
  have "take (length (slice c k)) (drop (k * 262144) (take (j * 262144) c)) = slice c k"
    using j by (simp add: slice_def drop_take min_def)
  then show ?thesis using True j(2) by (intro splice_same) simp_all
qed (simp add: slice_def splice_def)

lemma splice_fresh: "splice (k * 262144) (slice c k) (take (k * 262144) c) = take (Suc k * 262144) c"
proof (cases "k * 262144 < length c")
  case True
  then have "slice c k \<noteq> []" by (rule slice_nonempty)
  moreover have "take (k * 262144) c @ slice c k = take (Suc k * 262144) c"
    by (simp add: slice_def take_add [symmetric] add.commute)
  ultimately show ?thesis using True by (simp add: splice_def min_def)
qed (simp add: slice_def splice_def)

lemma splice_next:
  assumes "k \<le> j"
  shows "splice (k * 262144) (slice c k) (take (j * 262144) c) = take (max j (Suc k) * 262144) c"
proof (cases "k = j")
  case False
  with assms have "k < j" "max j (Suc k) = j" by simp_all
  then show ?thesis using splice_again [of k j c] by simp
qed (use splice_fresh [of k c] in simp)

lemma make_dirs_existing:
  assumes "wf_disk d"
  shows "list_all plain_name cs \<Longrightarrow> isdir d (st @ cs) \<Longrightarrow> isdir d st \<Longrightarrow> make_dirs d st b cs = (True, b, d)"
proof (induction cs arbitrary: st)
  case (Cons c cs)
  have "isdir d (st @ [c])"
    using Cons.prems(2) wf_prefix_exists [OF assms, of "st @ [c]" cs] by (cases "cs = []") (auto simp: isdir_def)
  then show ?case using Cons by (simp add: plain_name_def isdir_def)
qed simp

lemma parents_there:
  assumes "wf_disk d" and "free_place d q"
  shows "fs_create_directories d (parent_path (Abs q)) = (True, False, d)"
proof -
  have pl: "list_all plain_name (butlast q)" using free_place_plain [OF assms] by (auto simp: list_all_iff dest: in_set_butlastD)
  have "isdir d []" using assms(1) by (rule wf_diskD)
  then have "make_dirs d [] False (butlast q) = (True, False, d)"
    using make_dirs_existing [OF assms(1) pl, of "[]"] assms(2) by (simp add: free_place_def)
  then show ?thesis by (simp add: fs_create_directories_def parent_path_def)
qed

lemma prepare_free_place:
  assumes "wf_disk d" and "free_place d q"
  shows "prepare_dest d (Abs q) b = (True, d)"
  using parents_there [OF assms] free_place_absent(1) [OF assms] by (simp add: prepare_dest_def)

lemma file_not_above:
  assumes "wf_disk d" and "lookup d s = Some (File x)" and "isdir d (butlast t)" and "s \<noteq> t"
  shows "\<not> prefix s t"
proof
  assume "prefix s t"
  with assms(4) have "strict_prefix s t" by (simp add: strict_prefix_def)
  then obtain c r where t: "t = s @ c # r" by (auto elim: strict_prefixE')
  then have "butlast t = s @ butlast (c # r)" by (simp add: butlast_append)
  with assms(3) have "isdir d (s @ butlast (c # r))" by simp
  then have "isdir d s" using wf_prefix_exists [OF assms(1), of s "butlast (c # r)"]
    by (cases "butlast (c # r) = []") (auto simp: isdir_def)
  then show False using assms(2) by (simp add: isdir_def)
qed

lemma move_file_ok:
  assumes wf: "wf_disk d" and nf: "faults d = []" and s: "lookup d s = Some (File x)" and t: "free_place d t"
  obtains d' where "move_path d (Abs s) (Abs t) b = (True, d')" "wf_disk d'" "faults d' = []" "cwd d' = cwd d"
    "\<And>k. lookup d' k = (if k = t then Some (File x) else if k = s then None else lookup d k)"
proof -
  have ls: "locate d (Abs s) = Some s" using locate_plain_Abs [OF wf] s by simp
  have ne: "s \<noteq> t" "s \<noteq> []" using s t wf_diskD(2) [OF wf] by (auto simp: free_place_def isdir_def)
  note tt = t [unfolded free_place_def]
  have np: "\<not> prefix s t" by (rule file_not_above [OF wf s _ ne(1)]) (use tt in simp)
  have nc: "\<not> has_children d t" using wf_file_leaf [OF wf, of t] tt by (auto simp: has_children_iff isdir_def)
  define d' where "d' = d\<lparr>nodes := map (\<lambda>(k, n). (reroot s t k, n)) (AList.delete t (nodes d))\<rparr>"
  have rn: "sys_rename d s t = (True, d')"
    using tt s ne np nc by (auto simp: sys_rename_def tick_no_faults [OF nf] d'_def strict_prefix_def)
  have "fs_rename d (Abs s) (Abs t) = (True, d')"
    using ls free_place_target [OF wf t] rn by (simp add: fs_rename_def)
  moreover have "fs_exists d (Abs s)" using ls s by (simp add: fs_exists_def status_def)
  ultimately have mv: "move_path d (Abs s) (Abs t) b = (True, d')"
    using prepare_free_place [OF wf t] by (simp add: move_path_def)
  have lk: "lookup d' k = (if k = t then Some (File x) else if k = s then None else lookup d k)" for k
  proof -
    have l: "lookup d' k = (if prefix t k then lookup d (reroot t s k) else if prefix s k then None else lookup d k)"
      by (rule lookup_rename [OF tick_no_faults [OF nf] np nc d'_def])
    have below: "lookup d k = None" if "strict_prefix s k" for k
      using wf_file_leaf [OF wf _ that] s by (simp add: isdir_def)
    have "lookup d (reroot t s k) = None" if "strict_prefix t k"
    proof (rule below)
      show "strict_prefix s (reroot t s k)"
        using that by (auto simp: reroot_def strict_prefix_def prefix_def)
    qed
    moreover have "lookup d k = None" if "strict_prefix t k"
      using that wf_file_leaf [OF wf, of t k] tt by (simp add: isdir_def)
    moreover have "reroot t s t = s" by (simp add: reroot_def)
    moreover have "\<not> strict_prefix t s" using s wf_file_leaf [OF wf, of t s] tt by (auto simp: isdir_def)
    ultimately show ?thesis using l s below ne(1) by (cases "k = t"; cases "k = s") (auto simp: strict_prefix_def)
  qed
  have "wf_disk d'" using sys_rename_wf [OF rn wf] tt by simp
  moreover have "faults d' = []" "cwd d' = cwd d" using nf by (simp_all add: d'_def)
  ultimately show thesis using that [OF mv] lk by blast
qed

section \<open>A transfer in order\<close>

definition chunks_of :: "bytes \<Rightarrow> nat" where
  "chunks_of x = (length x + 262143) div 262144"

definition marks :: "nat \<Rightarrow> nat \<Rightarrow> bool list" where
  "marks n k = replicate k True @ replicate (n - k) False"

lemma length_marks [simp]: "k \<le> n \<Longrightarrow> length (marks n k) = n"
  by (simp add: marks_def)

lemma marks_next: "k < n \<Longrightarrow> (marks n k)[k := True] = marks n (Suc k)"
proof -
  assume "k < n"
  then obtain m where m: "n - k = Suc m" "n - Suc k = m" by (metis Suc_diff_Suc)
  have "replicate k True @ True # replicate m False = (True # replicate k True) @ replicate m False"
    by (simp add: replicate_append_same [symmetric])
  then show ?thesis by (simp add: marks_def m list_update_append)
qed

text \<open>The messages of the exchange.\<close>

definition data_header :: "u32 \<Rightarrow> bytes \<Rightarrow> nat \<Rightarrow> ChunkHeader" where
  "data_header i x k = \<lparr>ch_transfer_id = i, ch_index = of_nat k, ch_size = of_nat (length (slice x k)),
     ch_flags = (if Suc k = chunks_of x then flag_LAST else flag_SEND)\<rparr>"

definition ack_header :: "u32 \<Rightarrow> bytes \<Rightarrow> nat \<Rightarrow> ChunkHeader" where
  "ack_header i x k = \<lparr>ch_transfer_id = i, ch_index = of_nat k, ch_size = 0,
     ch_flags = (if Suc k = chunks_of x then flag_DONE else flag_OK)\<rparr>"

definition download_request :: "string \<Rightarrow> Request" where
  "download_request r = \<lparr>req_cmd = ''DOWNLOAD'', req_first_argument = r, req_second_argument = [], req_size = 0,
     req_file_hash = [], req_chunks = []\<rparr>"

definition upload_request :: "sodium \<Rightarrow> bytes \<Rightarrow> string \<Rightarrow> Request" where
  "upload_request S x r = \<lparr>req_cmd = ''UPLOAD'', req_first_argument = r, req_second_argument = [],
     req_size = of_nat (length x), req_file_hash = hash_to_hex S (hash_chunk S x), req_chunks = plan S x\<rparr>"

lemma u32_le_max: "\<not> UINT32_MAX < (n :: u32)"
  using unat_u32_less [of n] by (simp add: not_less word_le_nat_alt)

lemma chunk_in: "k < chunks_of x \<longleftrightarrow> k * 262144 < length x"
  by (auto simp: chunks_of_def less_eq_div_iff_mult_less_eq Suc_le_eq [symmetric])

lemma plan_length [simp]: "length (plan S x) = chunks_of x"
  by (simp add: plan_nth chunks_of_def)

lemma plan_at: "k < chunks_of x \<Longrightarrow> plan S x ! k = plan_entry S k (slice x k)"
  by (simp add: plan_nth chunks_of_def)

lemma unat_index: "k < chunks_of x \<Longrightarrow> length x < 4294967296 \<Longrightarrow> unat (of_nat k :: u32) = k"
  by (simp add: chunk_in unat_of_nat)

text \<open>What the table of transfers keeps.\<close>

lemma added_entry:
  assumes "map_of (pm_entries pm) i = None" and "(if i0 = UINT32_MAX then fst (generate_id pm) else i0) = i"
  shows "\<exists>pm'. add_partial_metadata now pm ty fm cs i0 = (i, pm') \<and> pm_metadata_file pm' = pm_metadata_file pm \<and>
    (\<exists>e. map_of (pm_entries pm') i = Some e \<and> length (pe_chunk_state e) = length cs)"
proof -
  obtain pm1 where g: "(if i0 = UINT32_MAX then generate_id pm else (i0, pm)) = (i, pm1)"
    using assms(2) by (cases "generate_id pm") (auto split: if_splits)
  then have "pm_metadata_file pm1 = pm_metadata_file pm" "pm_entries pm1 = pm_entries pm"
    by (auto simp: generate_id_def split: list.splits if_splits)
  then show ?thesis using assms(1) by (simp add: add_partial_metadata_def g map_of_emplace)
qed

lemma mark_received_entry:
  assumes "map_of (pm_entries pm) i = Some e" and "unat j < length (pe_chunk_state e)"
  shows "\<exists>pm'. mark_chunk_received now pm i j = Some pm' \<and> pm_metadata_file pm' = pm_metadata_file pm \<and>
     (\<exists>e'. map_of (pm_entries pm') i = Some e' \<and> length (pe_chunk_state e') = length (pe_chunk_state e))"
  using assms by (simp add: mark_chunk_received_def)

lemma table_cleared:
  assumes "wf_disk d" and "faults d = []" and "file_slot d M" and "spells (cwd d) (pm_metadata_file pm) M"
  shows "\<exists>d' pm'. delete_partial_metadata S J d pm i = (True, d', pm') \<and>
    (\<forall>p. p \<notin> {M, tmp_of M} \<longrightarrow> lookup d' p = lookup d p)"
proof -
  let ?bs = "entries_text S J (AList.delete i (pm_entries pm))"
  obtain d' where "save_text d (Abs M) ?bs = (True, d')"
      "\<And>k. lookup d' k = (if k = M then Some (File ?bs) else if k = tmp_of M then None else lookup d k)"
    by (rule save_text_ok [OF assms(1,3,2)]) blast
  then show ?thesis
    using save_text_spelled [OF assms(1,3,2,4)] by (simp add: delete_partial_metadata_def save_def)
qed

section \<open>The partial file\<close>

definition part_of :: "apath \<Rightarrow> u32 \<Rightarrow> apath" where
  "part_of M i = butlast M @ [dec (unat i) @ ''.part'']"

lemma part_of_simps [simp]: "part_of M i \<noteq> []" "butlast (part_of M i) = butlast M" "last (part_of M i) = dec (unat i) @ ''.part''"
  by (simp_all add: part_of_def)

lemma plain_part: "plain_name (dec (unat i) @ ''.part'')"
  by (auto simp: plain_name_def append_eq_Cons_conv)

lemma part_of_neq: "last M = ''partmeta.json'' \<Longrightarrow> part_of M i \<noteq> M \<and> part_of M i \<noteq> tmp_of M"
proof -
  assume m: "last M = ''partmeta.json''"
  have l: "last (last (part_of M i)) = CHR ''t''" by simp
  moreover have "last (last M) \<noteq> CHR ''t''" "last (last (tmp_of M)) \<noteq> CHR ''t''" using m by simp_all
  ultimately show ?thesis by metis
qed

lemma partial_path_is:
  assumes "wf_disk d" and "list_all plain_name (cwd d)" and "spells (cwd d) (pm_metadata_file pm) M" and "map_of (pm_entries pm) i \<noteq> None"
  shows "get_partial_path d pm i = Abs (part_of M i)"
  using absolute_spelled [OF assms(1) spells_sibling [OF assms(3) plain_part] assms(2), of i] assms(4)
  by (simp add: get_partial_path_def part_of_def)

text \<open>
  A disk with the table \<^verbatim>\<open>M\<close> of transfers and a free place \<^verbatim>\<open>dst\<close> for a file that arrives as a
  transfer; the partial file of transfer \<^verbatim>\<open>i\<close> with its first \<^verbatim>\<open>k\<close> chunks at least, nothing else being changed.
\<close>

definition room :: "disk \<Rightarrow> apath \<Rightarrow> apath \<Rightarrow> u32 \<Rightarrow> bool" where
  "room d M dst i \<longleftrightarrow> wf_disk d \<and> faults d = [] \<and> list_all plain_name (cwd d) \<and> file_slot d M \<and> last M = ''partmeta.json'' \<and>
     lookup d (part_of M i) \<noteq> Some Dir \<and> free_place d dst \<and> \<not> prefix (butlast M) dst"

definition part_filled :: "disk \<Rightarrow> apath \<Rightarrow> bytes \<Rightarrow> u32 \<Rightarrow> nat \<Rightarrow> disk \<Rightarrow> bool" where
  "part_filled d0 M x i k d \<longleftrightarrow> wf_disk d \<and> faults d = [] \<and> cwd d = cwd d0 \<and>
     (\<exists>j\<ge>k. lookup d (part_of M i) = Some (File (take (j * 262144) x))) \<and> (\<forall>p. p \<noteq> part_of M i \<longrightarrow> lookup d p = lookup d0 p)"

lemma part_created:
  assumes "room d M dst i" and "lookup d (part_of M i) = None"
  shows "\<exists>d'. create_empty_file d (Abs (part_of M i)) = (True, d') \<and> part_filled d M x i 0 d'" and "\<not> is_file d (Abs (part_of M i))"
proof -
  have d: "wf_disk d" "faults d = []" using assms by (simp_all add: room_def)
  have "free_place d (part_of M i)" using assms by (simp add: room_def free_place_def plain_part file_slot_def)
  from create_empty_place [OF d this] free_place_absent(2) [OF d(1) this]
  show "\<exists>d'. create_empty_file d (Abs (part_of M i)) = (True, d') \<and> part_filled d M x i 0 d'" "\<not> is_file d (Abs (part_of M i))"
    using d(2) by (auto simp: part_filled_def)
qed

lemma part_written:
  assumes f: "part_filled d0 M x i k d" and k: "k < chunks_of x" and lt: "length x < 4294967296"
  shows "\<exists>d'. write_chunk d (Abs (part_of M i)) (CHUNK_SIZE * of_nat k) (slice x k) = (True, d') \<and> part_filled d0 M x i (Suc k) d'"
proof -
  obtain j where j: "k \<le> j" "lookup d (part_of M i) = Some (File (take (j * 262144) x))" and d: "wf_disk d" "faults d = []"
    using f by (auto simp: part_filled_def)
  have off: "unat (CHUNK_SIZE * of_nat k :: u32) = k * 262144"
    using chunk_offset [of k] k lt by (simp add: chunk_in mult.commute)
  define d' where "d' = put d (part_of M i) (File (take (max j (Suc k) * 262144) x))"
  have "write_chunk d (Abs (part_of M i)) (CHUNK_SIZE * of_nat k) (slice x k) = (True, d')"
    using write_chunk_ok [OF d j(2)] splice_next [OF j(1), of x] by (simp add: off d'_def)
  moreover have "part_filled d0 M x i (Suc k) d'"
    using f wf_put_file [OF d(1) j(2)] by (auto simp: part_filled_def d'_def intro!: exI [of _ "max j (Suc k)"])
  ultimately show ?thesis by blast
qed

text \<open>With all chunks the partial file is the file.\<close>

lemma part_complete:
  assumes "part_filled d0 M x i k d" and "length x \<le> k * 262144"
  shows "lookup d (part_of M i) = Some (File x)"
proof -
  obtain j where "k \<le> j" "lookup d (part_of M i) = Some (File (take (j * 262144) x))" using assms(1) by (auto simp: part_filled_def)
  moreover from this(1) have "length x \<le> j * 262144" using assms(2) mult_le_mono1 [of k j 262144] by linarith
  ultimately show ?thesis by simp
qed

lemma part_hash:
  assumes f: "part_filled d0 M x i k d" and all: "length x \<le> k * 262144" and S: "hash_multipart S"
  shows "hash_file S d (Abs (part_of M i)) = hash_chunk S x"
proof -
  have "status d (Abs (part_of M i)) = Some (File x)"
    using f part_complete [OF f all] locate_plain_Abs [of d "part_of M i"] by (simp add: part_filled_def status_def)
  then show ?thesis using hash_file_content [OF S] by (simp add: hash_chunk_def)
qed

lemma part_kept:
  assumes r: "room d0 M dst i" and f: "part_filled d0 M x i k d" and all: "length x \<le> k * 262144"
    and s: "spells (cwd d0) (pm_metadata_file pm) M"
  shows "\<exists>d1 d2 pm'. move_path d (Abs (part_of M i)) (Abs dst) True = (True, d1) \<and>
    delete_partial_metadata S J d1 pm i = (True, d2, pm') \<and> lookup d2 dst = Some (File x) \<and>
    lookup d2 (part_of M i) = None \<and> (\<forall>p. p \<notin> {dst, M, tmp_of M, part_of M i} \<longrightarrow> lookup d2 p = lookup d0 p)"
proof -
  have r': "file_slot d0 M" "last M = ''partmeta.json''" "free_place d0 dst" "\<not> prefix (butlast M) dst" "M \<noteq> []"
      "lookup d0 (part_of M i) \<noteq> Some Dir"
    using r by (auto simp: room_def file_slot_def)
  have "prefix (butlast M) M" by (simp add: prefixeq_butlast)
  then have apart: "dst \<noteq> M" "dst \<noteq> tmp_of M" "dst \<noteq> part_of M i"
    using r'(4) by (auto simp: tmp_of_def part_of_def)
  note pn = part_of_neq [OF r'(2), of i]
  note lp = part_complete [OF f all]
  have d: "wf_disk d" "faults d = []" "cwd d = cwd d0" and lk: "\<And>p. p \<noteq> part_of M i \<Longrightarrow> lookup d p = lookup d0 p"
    using f by (simp_all add: part_filled_def)
  have up: "isdir d0 q \<Longrightarrow> isdir d q" for q using lk [of q] r'(6) by (auto simp: isdir_def)
  have fp: "free_place d dst" using r'(3) lk apart(3) up by (auto simp: free_place_def)
  obtain d1 where mv: "move_path d (Abs (part_of M i)) (Abs dst) True = (True, d1)" "wf_disk d1" "faults d1 = []" "cwd d1 = cwd d"
    and l1: "\<And>p. lookup d1 p = (if p = dst then Some (File x) else if p = part_of M i then None else lookup d p)"
    by (rule move_file_ok [OF d(1,2) lp fp]) blast
  have l1': "lookup d1 p = (if p = dst then Some (File x) else if p = part_of M i then None else lookup d0 p)" for p
    using l1 [of p] lk [of p] by simp
  have "file_slot d1 M" using r'(1,3,6) l1' apart(1,2) pn by (auto simp: file_slot_def isdir_def free_place_def)
  from table_cleared [OF mv(2,3) this, of pm S J i] s mv(4) d(3)
  obtain d2 pm' where d2: "delete_partial_metadata S J d1 pm i = (True, d2, pm')" "\<forall>p. p \<notin> {M, tmp_of M} \<longrightarrow> lookup d2 p = lookup d1 p"
    by auto
  then have "lookup d2 dst = Some (File x)" using apart l1' by simp
  moreover have "lookup d2 (part_of M i) = None" using d2(2) l1' pn apart(3) by auto
  moreover have "\<forall>p. p \<notin> {dst, M, tmp_of M, part_of M i} \<longrightarrow> lookup d2 p = lookup d0 p" using d2(2) l1' by simp
  ultimately show ?thesis using mv(1) d2(1) by blast
qed

lemma digest_hex: "hash_width S \<Longrightarrow> hex_laws S \<Longrightarrow> hex_to_hash S (hash_to_hex S (hash_chunk S x)) = hash_chunk S x"
  by (simp add: hash_hex_roundtrip hash_width_def hash_chunk_def)

text \<open>The search of both senders for the next chunk.\<close>

lemma first_pending_True: "first_pending i (replicate k True @ bs) = first_pending (i + k) bs"
  by (induction k arbitrary: i) auto

lemma first_pending_marks: "k < n \<Longrightarrow> first_pending 0 (marks n k) = Some k"
  by (cases "n - k") (auto simp: marks_def first_pending_True)

section \<open>A file that can be sent\<close>

text \<open>What the sender needs: a file that the hash does not reject, and a table it can write.\<close>

definition sendable :: "sodium \<Rightarrow> disk \<Rightarrow> apath \<Rightarrow> bytes \<Rightarrow> bool" where
  "sendable S d q x \<longleftrightarrow> wf_disk d \<and> lookup d q = Some (File x) \<and> x \<noteq> [] \<and> length x \<le> 2 ^ 32 - 262144 \<and>
     \<not> is_hash_error (hash_chunk S x) \<and> (\<forall>s\<in>set (slices x). \<not> is_hash_error (hash_chunk S s))"

lemma sendable_status: "sendable S d q x \<Longrightarrow> status d (Abs q) = Some (File x)"
  by (simp add: sendable_def status_def locate_plain_Abs)

lemma sendable_length: "sendable S d q x \<Longrightarrow> length x < 4294967296"
  by (simp add: sendable_def)

lemma sendable_size: "sendable S d q x \<Longrightarrow> get_file_size d (Abs q) = of_nat (length x) \<and> get_file_size d (Abs q) \<noteq> UINT64_MAX"
proof -
  assume a: "sendable S d q x"
  have "unat (of_nat (length x) :: u64) = length x" using sendable_length [OF a] by (simp add: unat_of_nat)
  then have "unat (of_nat (length x) :: u64) \<noteq> unat UINT64_MAX" using sendable_length [OF a] by simp
  then have "(of_nat (length x) :: u64) \<noteq> UINT64_MAX" by (rule contrapos_nn) simp
  then show ?thesis using sendable_status [OF a] sendable_length [OF a] by (simp add: get_file_size_def fs_file_size_def)
qed

lemma sendable_absolute: "sendable S d q x \<Longrightarrow> absolute d (Abs q) = Abs q"
  by (simp add: sendable_def absolute_def normalize_def fs_absolute_def weakly_canonical_def locate_plain_Abs)

lemma scan_sendable:
  assumes "sendable S d q x" and "hash_multipart S" and "status d p = Some (File x)" and "absolute d p = Abs q"
  shows "scan_file S d p = \<lparr>fm_absolute_path = Abs q, fm_size = of_nat (length x),
    fm_last_modified = get_last_write_time d p, fm_hash = hash_chunk S x\<rparr>"
proof -
  have h: "hash_file S d p = hash_chunk S x" using hash_file_content [OF assms(2,3)] by (simp add: hash_chunk_def)
  have z: "get_file_size d p = get_file_size d (Abs q)"
    using assms(3) sendable_status [OF assms(1)] by (simp add: get_file_size_def fs_file_size_def)
  have "\<not> is_hash_error (hash_chunk S x)" using assms(1) by (simp add: sendable_def)
  moreover have "ucast (of_nat (length x) :: u64) = (of_nat (length x) :: u32)"
    using sendable_length [OF assms(1)] by (simp add: unsigned_of_nat take_bit_nat_eq_self)
  ultimately show ?thesis
    using conjunct1 [OF sendable_size [OF assms(1)]] conjunct2 [OF sendable_size [OF assms(1)]] assms(4)
    by (simp add: scan_file_def h z)
qed

lemma plan_no_error: "x \<noteq> [] \<Longrightarrow> length x < 4294967296 \<Longrightarrow> \<not> is_compute_chunks_error (plan S x)"
proof (cases "plan S x")
  case (Cons a l)
  assume x: "x \<noteq> []" "length x < 4294967296"
  have "a = plan_entry S 0 (slice x 0)" using Cons plan_at [of 0 x S] x by (simp add: chunk_in)
  moreover have "0 < length (slice x 0)" "length (slice x 0) < 4294967296" using x by (auto simp: slice_def)
  ultimately have "unat (ci_size a) \<noteq> 0" by (simp add: plan_entry_def unat_of_nat)
  then show ?thesis using Cons by (auto simp: is_compute_chunks_error_def split: list.splits)
qed (simp add: is_compute_chunks_error_def)

lemma sent_metadata:
  assumes s: "sendable S d q x" and p: "fm_absolute_path fm = Abs q" and z: "fm_size fm = of_nat (length x)"
  shows "fm_size fm \<noteq> 0" and "\<not> is_scan_file_error fm" and "compute_chunks S d fm = plan S x" and "\<not> is_compute_chunks_error (plan S x)"
proof -
  note lt = sendable_length [OF s] and st = sendable_status [OF s]
  have ne: "x \<noteq> []" and le: "length x \<le> 2 ^ 32 - 262144" and hs: "\<And>s. s \<in> set (slices x) \<Longrightarrow> \<not> is_hash_error (hash_chunk S s)"
    using s by (auto simp: sendable_def)
  have u: "unat (of_nat (length x) :: u32) = length x" using lt by (simp add: unat_of_nat)
  show nz: "fm_size fm \<noteq> 0"
  proof
    assume "fm_size fm = 0"
    then have "length x = 0" using u z by simp
    then show False using ne by simp
  qed
  show "\<not> is_scan_file_error fm" using nz by (simp add: is_scan_file_error_def)
  show "compute_chunks S d fm = plan S x" using compute_chunks_slices [of d fm x S] st u le hs p z by simp
  show "\<not> is_compute_chunks_error (plan S x)" by (rule plan_no_error [OF ne lt])
qed

end
