(* ===== verification/SessionLaws.thy ===== *)
theory SessionLaws
  imports SessionFlow
begin

text \<open>
  Properties of the session handlers: what each primitive leaves alone, the lock discipline of the
  file commands, their confinement to the user directory, their replies, and what authentication
  guarantees.
\<close>

section \<open>What the primitives change\<close>

lemmas primitive_defs = send_msg_def send_res_def reply_def err_def okay_def send_flag_def closing_def
  set_state_def set_transfer_def set_disk_def set_username_def set_transfer_id_def queue_resumes_def

lemma storage_frame [simp]:
  "w_storage (send_msg m w) = w_storage w" "w_storage (send_res r w) = w_storage w"
  "w_storage (reply s c t w) = w_storage w" "w_storage (err c t w) = w_storage w"
  "w_storage (okay t w) = w_storage w" "w_storage (send_flag a b f w) = w_storage w"
  "w_storage (closing w) = w_storage w" "w_storage (set_state x w) = w_storage w"
  "w_storage (set_transfer y w) = w_storage w" "w_storage (set_username z w) = w_storage w"
  "w_storage (queue_resumes es w) = w_storage w"
  by (simp_all add: primitive_defs)

lemma state_frame [simp]:
  "w_state (send_msg m w) = w_state w" "w_state (send_res r w) = w_state w"
  "w_state (reply s c t w) = w_state w" "w_state (err c t w) = w_state w"
  "w_state (okay t w) = w_state w" "w_state (send_flag a b f w) = w_state w"
  "w_state (closing w) = w_state w" "w_state (set_state x w) = x"
  "w_state (set_transfer y w) = w_state w" "w_state (set_username z w) = w_state w"
  "w_state (set_disk d w) = w_state w" "w_state (queue_resumes es w) = w_state w"
  "w_state (unlock w) = w_state w" "w_state (err_unlock c t w) = w_state w"
  by (simp_all add: primitive_defs unlock_def err_unlock_def)

lemma user_frame [simp]:
  "w_user (send_msg m w) = w_user w" "w_user (send_res r w) = w_user w"
  "w_user (reply s c t w) = w_user w" "w_user (err c t w) = w_user w"
  "w_user (okay t w) = w_user w" "w_user (send_flag a b f w) = w_user w"
  "w_user (closing w) = w_user w" "w_user (set_state x w) = w_user w"
  "w_user (set_transfer y w) = w_user w" "w_user (set_username z w) = z"
  "w_user (set_disk d w) = w_user w" "w_user (queue_resumes es w) = w_user w"
  "w_user (unlock w) = w_user w" "w_user (err_unlock c t w) = w_user w"
  by (simp_all add: primitive_defs unlock_def err_unlock_def)

lemma outbox_frame [simp]:
  "se_outbox (w_session (send_msg m w)) = se_outbox (w_session w) @ [m]"
  "se_outbox (w_session (send_res r w)) = se_outbox (w_session w) @ [Json (r\<lparr>res_chunks := []\<rparr>)]"
  "se_outbox (w_session (reply s c t w)) = se_outbox (w_session w) @ [Json (response s c t [])]"
  "se_outbox (w_session (err c t w)) = se_outbox (w_session w) @ [Json (response ''ERROR'' c t [])]"
  "se_outbox (w_session (okay t w)) = se_outbox (w_session w) @ [Json (response ''OK'' 200 t [])]"
  "se_outbox (w_session (set_state x w)) = se_outbox (w_session w)"
  "se_outbox (w_session (set_transfer y w)) = se_outbox (w_session w)"
  "se_outbox (w_session (set_disk d w)) = se_outbox (w_session w)"
  "se_outbox (w_session (unlock w)) = se_outbox (w_session w)"
  "se_outbox (w_session (err_unlock c t w)) = se_outbox (w_session w) @ [Json (response ''ERROR'' c t [])]"
  by (simp_all add: primitive_defs unlock_def err_unlock_def response_def)

lemma release_frame [simp]:
  "sto_disk (release_user_lock st u) = sto_disk st" "sto_db (release_user_lock st u) = sto_db st"
  "sto_partmetas (release_user_lock st u) = sto_partmetas st" "sto_tiers (release_user_lock st u) = sto_tiers st"
  by (simp_all add: release_user_lock_def)

lemma disk_frame [simp]:
  "w_disk (set_disk d w) = d" "w_disk (unlock w) = w_disk w" "w_disk (err_unlock c t w) = w_disk w"
  by (simp_all add: set_disk_def unlock_def err_unlock_def)

section \<open>Locks\<close>

text \<open>The abstract lock: the set of users whose operation lock is taken.\<close>

definition locked :: "Storage \<Rightarrow> string set" where
  "locked st = {u. map_of (sto_user_lock st) u = Some True}"

lemma locked_release [simp]: "locked (release_user_lock st u) = locked st - {u}"
  by (auto simp: locked_def release_user_lock_def)

lemma locked_cong: "sto_user_lock st' = sto_user_lock st \<Longrightarrow> locked st' = locked st"
  by (simp add: locked_def)

lemma sto_user_exists_frame:
  "sto_user_exists E st u = Some (b, st') \<Longrightarrow> sto_disk st' = sto_disk st \<and> sto_user_lock st' = sto_user_lock st \<and>
     sto_partmetas st' = sto_partmetas st \<and> sto_tiers st' = sto_tiers st \<and> sto_root st' = sto_root st"
  by (auto simp: sto_user_exists_def)

text \<open>
  \<^verbatim>\<open>try_acquire_user_lock\<close> implements a test-and-set on that set; only a user who is neither public
  nor in the accounts nor known to the lock table is refused without being locked.
\<close>

lemma try_acquire_spec:
  assumes "try_acquire_user_lock E st u = Some (b, st')"
  shows "b \<Longrightarrow> u \<notin> locked st" and "locked st' = (if b then insert u (locked st) else locked st)"
    and "sto_disk st' = sto_disk st" and "sto_partmetas st' = sto_partmetas st" and "sto_tiers st' = sto_tiers st"
    and "sto_root st' = sto_root st"
  using assms
  by (auto simp: try_acquire_user_lock_def sto_user_exists_def locked_def map_of_emplace split: option.splits if_splits)

lemma acquire_locked: "u \<in> locked st \<Longrightarrow> try_acquire_user_lock E st u = Some (False, st)"
  by (simp add: try_acquire_user_lock_def locked_def)

text \<open>
  The contract the handlers rely on, as an interface: a non-reentrant lock per user.
\<close>

locale user_mutex =
  fixes held :: "'s \<Rightarrow> 'u set" and acquire :: "'s \<Rightarrow> 'u \<Rightarrow> (bool \<times> 's) option" and release :: "'s \<Rightarrow> 'u \<Rightarrow> 's"
  assumes acquired: "acquire s u = Some (True, s') \<Longrightarrow> u \<notin> held s \<and> held s' = insert u (held s)"
    and refused: "acquire s u = Some (False, s') \<Longrightarrow> held s' = held s"
    and busy: "u \<in> held s \<Longrightarrow> acquire s u = Some (False, s)"
    and released: "held (release s u) = held s - {u}"
begin

lemma bracket: "acquire s u = Some (True, s1) \<Longrightarrow> held s2 = held s1 \<Longrightarrow> held (release s2 u) = held s"
  using acquired [of s u s1] by (auto simp: released)

lemma exclusive: "acquire s u = Some (True, s1) \<Longrightarrow> held s2 = held s1 \<Longrightarrow> acquire s2 u = Some (False, s2)"
  using acquired [of s u s1] by (intro busy) simp

lemma others: "acquire s u = Some (b, s') \<Longrightarrow> v \<noteq> u \<Longrightarrow> v \<in> held s' \<longleftrightarrow> v \<in> held s"
  using acquired refused by (cases b) auto

end

interpretation lock: user_mutex locked "try_acquire_user_lock E" release_user_lock
  for E :: "'j env"
  by unfold_locales (auto dest: try_acquire_spec(1,2) simp: acquire_locked)

section \<open>The guards\<close>

text \<open>Handlers whose body ends with the lock released.\<close>

definition releases :: "(world \<Rightarrow> world option) \<Rightarrow> bool" where
  "releases k \<longleftrightarrow> (\<forall>w w'. k w = Some w' \<longrightarrow> locked (w_storage w') = locked (w_storage w) - {w_user w})"

lemma locked_unlock [simp]: "locked (w_storage (unlock w)) = locked (w_storage w) - {w_user w}"
  by (simp add: unlock_def)

lemma locked_err_unlock [simp]: "locked (w_storage (err_unlock c t w)) = locked (w_storage w) - {w_user w}"
  by (simp add: err_unlock_def)

lemma locked_set_disk [simp]: "locked (w_storage (set_disk d w)) = locked (w_storage w)"
  by (simp add: set_disk_def locked_def)

lemma locked_finish_op [simp]: "locked (w_storage (finish_op r a b w)) = locked (w_storage w) - {w_user w}"
  by (cases r) (auto simp: finish_op_def split: bool.splits)

lemma with_lock_cases:
  assumes "with_lock E w k = Some w'"
  obtains (busy) st where "try_acquire_user_lock E (w_storage w) (w_user w) = Some (False, st)"
      "w' = err SERVICE_UNAVAILABLE ''Server is busy'' (w\<lparr>w_storage := st\<rparr>)"
  | (got) st where "try_acquire_user_lock E (w_storage w) (w_user w) = Some (True, st)"
      "k (w\<lparr>w_storage := st\<rparr>) = Some w'"
  using assms by (auto simp: with_lock_def split: option.splits prod.splits bool.splits)

lemma when_ready_cases:
  assumes "when_ready w k = Some w'"
  obtains (no) "w_state w \<noteq> READY" "w' = err SERVICE_UNAVAILABLE ''Session not ready.'' w"
  | (yes) "w_state w = READY" "k w = Some w'"
  using assms by (auto simp: when_ready_def split: if_splits)

definition keeps_locks :: "(world \<Rightarrow> world option) \<Rightarrow> bool" where
  "keeps_locks k \<longleftrightarrow> (\<forall>w w'. k w = Some w' \<longrightarrow> locked (w_storage w') = locked (w_storage w))"

lemma keeps_locks_when_ready: "keeps_locks k \<Longrightarrow> keeps_locks (\<lambda>w. when_ready w k)"
  unfolding keeps_locks_def by (intro allI impI, elim when_ready_cases) simp_all

lemma keeps_locks_check: "keeps_locks k \<Longrightarrow> keeps_locks (\<lambda>w. if c then Some (err x y w) else k w)"
  by (auto simp: keeps_locks_def)

lemma keeps_locks_with_lock:
  assumes "releases k"
  shows "keeps_locks (\<lambda>w. with_lock E w k)"
  unfolding keeps_locks_def
proof (intro allI impI)
  fix w w' assume "with_lock E w k = Some w'"
  then show "locked (w_storage w') = locked (w_storage w)"
  proof (cases rule: with_lock_cases)
    case (busy st)
    then show ?thesis using lock.refused [OF busy(1)] by simp
  next
    case (got st)
    from got(2) assms have "locked (w_storage w') = locked st - {w_user w}"
      by (auto simp: releases_def)
    then show ?thesis using lock.acquired [OF got(1)] by auto
  qed
qed

lemma releasesI:
  "(\<And>w w'. k w = Some w' \<Longrightarrow> locked (w_storage w') = locked (w_storage w) - {w_user w}) \<Longrightarrow> releases k"
  by (simp add: releases_def)

lemmas keeps_locks_guards = keeps_locks_when_ready keeps_locks_check keeps_locks_with_lock

section \<open>Locks of the file commands\<close>

definition file_commands :: "string list" where
  "file_commands = [''LIST'', ''DELETE'', ''CD'', ''MKDIR'', ''RMDIR'', ''MOVE'', ''COPY'', ''SYNC'']"

lemma two_path_locks: "keeps_locks (two_path_cmd E oper a b req)"
  unfolding two_path_cmd_def by (intro keeps_locks_guards releasesI) (auto simp: Let_def split: if_splits)

lemma list_locks: "keeps_locks (list_cmd E req)"
  unfolding list_cmd_def by (intro keeps_locks_guards releasesI) (auto simp: Let_def split: if_splits)

lemma delete_locks: "keeps_locks (delete_file_cmd E req)"
  unfolding delete_file_cmd_def by (intro keeps_locks_guards releasesI) (auto simp: Let_def split: if_splits)

lemma mkdir_locks: "keeps_locks (mkdir_cmd E req)"
  unfolding mkdir_cmd_def by (intro keeps_locks_guards releasesI) (auto simp: Let_def split: if_splits)

lemma rmdir_locks: "keeps_locks (rmdir_cmd E req)"
  unfolding rmdir_cmd_def by (intro keeps_locks_guards releasesI) (auto simp: Let_def split: if_splits)

lemma sync_locks: "keeps_locks (sync_cmd E req)"
  unfolding sync_cmd_def by (intro keeps_locks_guards releasesI) (auto simp: Let_def split: if_splits)

lemma cd_storage: "cd_cmd req w = Some w' \<Longrightarrow> w_storage w' = w_storage w"
  by (auto simp: cd_cmd_def when_ready_def Let_def split: if_splits)

lemma cd_locks: "keeps_locks (cd_cmd req)"
  by (simp add: keeps_locks_def cd_storage)

lemmas commands_lock = two_path_locks list_locks delete_locks mkdir_locks rmdir_locks sync_locks cd_locks

lemma execute_file_command:
  assumes "req_cmd req \<in> set file_commands"
  shows "execute E req \<in> {list_cmd E req, delete_file_cmd E req, cd_cmd req, mkdir_cmd E req,
     rmdir_cmd E req, move_cmd E req, copy_cmd E req, sync_cmd E req}"
  using assms by (auto simp: file_commands_def execute_def fun_eq_iff Let_def)

text \<open>
  Property (C10). No file command leaks a lock: after LIST, DELETE, CD, MKDIR, RMDIR, MOVE, COPY or SYNC
  exactly the users who were locked before are locked, on every path through the handler, errors
  and busy replies included.
\<close>

theorem file_command_keeps_locks:
  assumes "req_cmd req \<in> set file_commands" and "execute E req w = Some w'"
  shows "locked (w_storage w') = locked (w_storage w)"
proof -
  have "keeps_locks (execute E req)"
    using execute_file_command [OF assms(1), of E] by (auto simp: move_cmd_def copy_cmd_def commands_lock)
  with assms(2) show ?thesis by (simp add: keeps_locks_def)
qed

section \<open>Confinement of the file commands\<close>

text \<open>A session at work: its directories are canonical and the user directory exists.\<close>

definition at_home :: "apath \<Rightarrow> world \<Rightarrow> bool" where
  "at_home u w \<longleftrightarrow> wf_disk (w_disk w) \<and> isdir (w_disk w) u \<and> se_user_dir (w_session w) = Abs u \<and>
     (\<exists>c. se_current_dir (w_session w) = Abs c)"

text \<open>Handlers, and bodies of handlers, that change nothing outside the user directory.\<close>

definition stays_inside :: "apath \<Rightarrow> (world \<Rightarrow> world option) \<Rightarrow> bool" where
  "stays_inside u k \<longleftrightarrow> (\<forall>w w'. at_home u w \<longrightarrow> k w = Some w' \<longrightarrow> safe_step u (w_disk w) (w_disk w'))"

lemma stays_insideI:
  "(\<And>w w'. at_home u w \<Longrightarrow> k w = Some w' \<Longrightarrow> safe_step u (w_disk w) (w_disk w')) \<Longrightarrow> stays_inside u k"
  by (simp add: stays_inside_def)

lemma stays_insideD: "stays_inside u k \<Longrightarrow> k w = Some w' \<Longrightarrow> at_home u w \<Longrightarrow> safe_step u (w_disk w) (w_disk w')"
  by (simp add: stays_inside_def)

lemma at_home_refl: "at_home u w \<Longrightarrow> safe_step u (w_disk w) (w_disk w)"
  by (simp add: at_home_def safe_step_refl)

lemma stays_inside_when_ready: "stays_inside u k \<Longrightarrow> stays_inside u (\<lambda>w. when_ready w k)"
  by (auto simp: stays_inside_def at_home_refl elim!: when_ready_cases)

lemma stays_inside_check:
  "stays_inside u k \<Longrightarrow> stays_inside u (\<lambda>w. if c then Some (err x y w) else k w)"
  by (auto simp: stays_inside_def at_home_refl)

lemma stays_inside_with_lock:
  assumes "stays_inside u k"
  shows "stays_inside u (\<lambda>w. with_lock E w k)"
proof (rule stays_insideI)
  fix w w' assume h: "at_home u w" and "with_lock E w k = Some w'"
  from this(2) show "safe_step u (w_disk w) (w_disk w')"
  proof (cases rule: with_lock_cases)
    case (busy st)
    then show ?thesis using try_acquire_spec(3) [OF busy(1)] at_home_refl [OF h] by simp
  next
    case (got st)
    have "at_home u (w\<lparr>w_storage := st\<rparr>)" using h try_acquire_spec(3) [OF got(1)] by (simp add: at_home_def)
    with got assms have "safe_step u (w_disk (w\<lparr>w_storage := st\<rparr>)) (w_disk w')" by (auto simp: stays_inside_def)
    then show ?thesis using try_acquire_spec(3) [OF got(1)] by simp
  qed
qed

lemmas stays_inside_guards = stays_inside_when_ready stays_inside_check stays_inside_with_lock

lemma finish_op_disk [simp]: "w_disk (finish_op r a b w) = snd r"
  by (cases r) (auto simp: finish_op_def split: bool.splits)

lemma resolve_at_home: "at_home u w \<Longrightarrow> \<exists>c. resolve w arg = resolve_path (w_disk w) (Abs u) (Abs c) (path_of_string arg)"
  by (auto simp: at_home_def resolve_def)

context confined_op
begin

lemma handler_safe:
  assumes "at_home u w" and "in_user_dir w (resolve w arg)"
  shows "safe_step u (w_disk w) (snd (op (w_disk w) (resolve w arg)))"
proof -
  obtain c where c: "se_current_dir (w_session w) = Abs c" "se_user_dir (w_session w) = Abs u"
    "wf_disk (w_disk w)" "isdir (w_disk w) u" using assms(1) by (auto simp: at_home_def)
  show ?thesis
    using guarded [OF c(3,4)] assms(2) by (simp add: resolve_def c in_user_dir_def)
qed

end

context confined_op2
begin

lemma handler_safe2:
  assumes "at_home u w" and "in_user_dir w (resolve w a)" and "in_user_dir w (resolve w b)"
  shows "safe_step u (w_disk w) (snd (op2 (w_disk w) (resolve w a) (resolve w b)))"
proof -
  obtain c where c: "se_current_dir (w_session w) = Abs c" "se_user_dir (w_session w) = Abs u"
    "wf_disk (w_disk w)" "isdir (w_disk w) u" using assms(1) by (auto simp: at_home_def)
  show ?thesis
    using guarded2 [OF c(3,4)] assms(2,3) by (simp add: resolve_def c in_user_dir_def)
qed

lemma two_path_safe: "stays_inside u (two_path_cmd E op2 x y req)"
  unfolding two_path_cmd_def
  by (intro stays_inside_guards stays_insideI)
    (auto simp: Let_def handler_safe2 at_home_refl split: if_splits)

end

lemma delete_safe: "stays_inside u (delete_file_cmd E req)"
  unfolding delete_file_cmd_def
  by (intro stays_inside_guards stays_insideI)
    (auto simp: Let_def remove_file_op.handler_safe at_home_refl split: if_splits)

lemma mkdir_cmd_safe: "stays_inside u (mkdir_cmd E req)"
  unfolding mkdir_cmd_def
  by (intro stays_inside_guards stays_insideI)
    (auto simp: Let_def mkdir_op.handler_safe at_home_refl split: if_splits)

lemma rmdir_cmd_safe: "stays_inside u (rmdir_cmd E req)"
  unfolding rmdir_cmd_def
  by (intro stays_inside_guards stays_insideI)
    (auto simp: Let_def rmdir_op.handler_safe at_home_refl split: if_splits)

lemma list_cmd_safe: "stays_inside u (list_cmd E req)"
  unfolding list_cmd_def
  by (intro stays_inside_guards stays_insideI) (auto simp: Let_def at_home_refl split: if_splits)

lemma sync_cmd_safe: "stays_inside u (sync_cmd E req)"
  unfolding sync_cmd_def
  by (intro stays_inside_guards stays_insideI) (auto simp: Let_def at_home_refl split: if_splits)

lemma cd_cmd_safe: "stays_inside u (cd_cmd req)"
  by (rule stays_insideI) (auto simp: at_home_refl dest: cd_storage)

lemmas commands_safe = delete_safe mkdir_cmd_safe rmdir_cmd_safe list_cmd_safe sync_cmd_safe cd_cmd_safe
  move_op.two_path_safe copy_op.two_path_safe

text \<open>
  Property (C1). Isolation: whatever a file command is asked to do, with whatever paths, and whatever
  the disk refuses on the way, every file and directory outside the user directory is the same
  afterwards, and the tree is still well formed.
\<close>

theorem file_command_confined:
  assumes "req_cmd req \<in> set file_commands" and "at_home u w" and "execute E req w = Some w'"
  shows "safe_step u (w_disk w) (w_disk w')"
proof -
  have "stays_inside u (execute E req)"
    using execute_file_command [OF assms(1), of E] by (auto simp: move_cmd_def copy_cmd_def commands_safe)
  from stays_insideD [OF this assms(3,2)] show ?thesis .
qed

section \<open>Replies of the file commands\<close>

text \<open>
  The lock can be asked for: the user is known to the lock table, is public, or the account file
  can be read.
\<close>

definition lockable :: "'j env \<Rightarrow> world \<Rightarrow> bool" where
  "lockable E w \<longleftrightarrow> try_acquire_user_lock E (w_storage w) (w_user w) \<noteq> None"

definition answers :: "(world \<Rightarrow> bool) \<Rightarrow> (world \<Rightarrow> world option) \<Rightarrow> bool" where
  "answers P k \<longleftrightarrow> (\<forall>w. P w \<longrightarrow> (\<exists>w' m. k w = Some w' \<and> w_state w' = w_state w \<and>
     se_outbox (w_session w') = se_outbox (w_session w) @ [Json m]))"

lemma answersI:
  "(\<And>w. P w \<Longrightarrow> \<exists>w' m. k w = Some w' \<and> w_state w' = w_state w \<and> se_outbox (w_session w') = se_outbox (w_session w) @ [Json m])
   \<Longrightarrow> answers P k"
  by (simp add: answers_def)

lemma answers_when_ready: "answers P k \<Longrightarrow> answers P (\<lambda>w. when_ready w k)"
  by (auto simp: answers_def when_ready_def)

lemma answers_check: "answers P k \<Longrightarrow> answers P (\<lambda>w. if c then Some (err x y w) else k w)"
  by (simp add: answers_def)

lemma answers_with_lock: "answers (\<lambda>_. True) k \<Longrightarrow> answers (lockable E) (\<lambda>w. with_lock E w k)"
  by (fastforce simp: answers_def lockable_def with_lock_def split: bool.splits)

lemmas answers_guards = answers_when_ready answers_check answers_with_lock

lemma finish_op_answer [simp]:
  "w_state (finish_op r a b w) = w_state w"
  "\<exists>m. se_outbox (w_session (finish_op r a b w)) = se_outbox (w_session w) @ [Json m]"
  by (cases r; auto simp: finish_op_def split: bool.splits)+

lemma two_path_answers: "answers (lockable E) (two_path_cmd E oper x y req)"
  unfolding two_path_cmd_def by (intro answers_guards answersI) (simp add: Let_def)

lemma delete_answers: "answers (lockable E) (delete_file_cmd E req)"
  unfolding delete_file_cmd_def by (intro answers_guards answersI) (simp add: Let_def)

lemma mkdir_answers: "answers (lockable E) (mkdir_cmd E req)"
  unfolding mkdir_cmd_def by (intro answers_guards answersI) (simp add: Let_def)

lemma rmdir_answers: "answers (lockable E) (rmdir_cmd E req)"
  unfolding rmdir_cmd_def by (intro answers_guards answersI) (simp add: Let_def)

lemma list_answers: "answers (lockable E) (list_cmd E req)"
  unfolding list_cmd_def by (intro answers_guards answersI) (simp add: Let_def)

lemma sync_answers: "answers (lockable E) (sync_cmd E req)"
  unfolding sync_cmd_def by (intro answers_guards answersI) (simp add: Let_def)

lemma cd_answers: "answers P (cd_cmd req)"
  unfolding cd_cmd_def by (intro answers_guards answersI) (simp add: Let_def err_def okay_def primitive_defs)

lemmas commands_answer = two_path_answers delete_answers mkdir_answers rmdir_answers list_answers sync_answers cd_answers

lemma file_command_answers:
  assumes "req_cmd req \<in> set file_commands" and "lockable E w"
  obtains w' m where "execute E req w = Some w'" "w_state w' = w_state w"
    "se_outbox (w_session w') = se_outbox (w_session w) @ [Json m]"
proof -
  have "answers (lockable E) (execute E req)"
    using execute_file_command [OF assms(1), of E] by (auto simp: move_cmd_def copy_cmd_def commands_answer)
  with assms(2) show thesis using that by (auto simp: answers_def)
qed

text \<open>
  Property (C13). One request, one reply: a file command whose user can be looked up always finishes,
  sends exactly one response on the control framing and leaves the session in the state it was in.
\<close>

theorem file_command_answers_once:
  assumes "req_cmd req \<in> set file_commands" and "lockable E w"
  shows "\<exists>w' m. execute E req w = Some w' \<and> w_state w' = w_state w \<and>
    se_outbox (w_session w') = se_outbox (w_session w) @ [Json m]"
  by (rule file_command_answers [OF assms]) blast

section \<open>Refusals\<close>

definition ready_commands :: "string list" where
  "ready_commands = file_commands @ [''UPLOAD'', ''DOWNLOAD'', ''TIERS'', ''SET_TIER'']"

lemma not_ready_execute:
  assumes "w_state w \<noteq> READY" and "req_cmd req \<in> set ready_commands"
  shows "execute E req w = Some (err SERVICE_UNAVAILABLE ''Session not ready.'' w)"
proof -
  have "when_ready w k = Some (err SERVICE_UNAVAILABLE ''Session not ready.'' w)" for k
    using assms(1) by (simp add: when_ready_def)
  then show ?thesis
    using assms(2)
    by (auto simp: ready_commands_def file_commands_def execute_def list_cmd_def delete_file_cmd_def cd_cmd_def
        mkdir_cmd_def rmdir_cmd_def move_cmd_def copy_cmd_def two_path_cmd_def sync_cmd_def upload_cmd_def
        download_cmd_def tiers_cmd_def set_tier_cmd_def)
qed

text \<open>The commands that take the user lock, with the arguments their handlers insist on.\<close>

definition locking_request :: "Request \<Rightarrow> bool" where
  "locking_request req \<longleftrightarrow>
     req_cmd req \<in> {''LIST'', ''DELETE'', ''UPLOAD'', ''DOWNLOAD''} \<or>
     (req_cmd req \<in> {''MKDIR'', ''RMDIR'', ''SYNC''} \<and> req_first_argument req \<noteq> []) \<or>
     (req_cmd req \<in> {''MOVE'', ''COPY''} \<and> req_first_argument req \<noteq> [] \<and> req_second_argument req \<noteq> [])"


section \<open>The user directory survives RMDIR\<close>

lemma rmdir_outside: "locate d p = Some q \<Longrightarrow> agree (outside q) d (snd (rmdir d p))"
  by (cases "fs_remove_all d p") (auto simp: rmdir_def dest: remove_all_inside)

text \<open>The path a request names before it is resolved.\<close>

definition written :: "world \<Rightarrow> string \<Rightarrow> fpath" where
  "written w arg =
     (let p = path_of_string arg
      in if is_absolute p then path_append (se_user_dir (w_session w)) (relative_path p)
         else path_append (se_current_dir (w_session w)) p)"

lemma resolve_existing:
  assumes "at_home u w" and "locate (w_disk w) (written w arg) = Some q"
  shows "resolve w arg = Abs q"
proof -
  have "\<exists>cs. written w arg = Abs cs"
    using assms(1) by (auto simp: at_home_def written_def Let_def path_append_def relative_path_def is_absolute_def split: fpath.splits)
  then have "fs_absolute (w_disk w) (written w arg) = written w arg" by (auto simp: fs_absolute_def)
  then have "absolute (w_disk w) (written w arg) = Abs q"
    using assms(2) by (simp add: absolute_def normalize_def weakly_canonical_def)
  then show ?thesis by (auto simp: resolve_def resolve_path_def written_def Let_def split: if_splits)
qed

lemma rmdir_body_keeps:
  assumes h: "at_home u w" and "locate (w_disk w) (written w a) = Some q" and sub: "in_user_dir w (resolve w a)"
    and ne: "se_user_dir (w_session w) \<noteq> resolve w a"
  shows "isdir (snd (rmdir (w_disk w) (resolve w a))) u"
proof -
  obtain c where c: "se_current_dir (w_session w) = Abs c" "se_user_dir (w_session w) = Abs u"
    "wf_disk (w_disk w)" "isdir (w_disk w) u" using h by (auto simp: at_home_def)
  have r: "resolve w a = Abs q" by (rule resolve_existing [OF assms(1,2)])
  have "lookup (w_disk w) q \<noteq> None" using assms(2) by (rule locate_exists)
  then have q: "locate (w_disk w) (resolve w a) = Some q" using c(3) by (simp add: r locate_plain_Abs)
  have "confined u (resolve w a)"
    using resolve_confined [OF c(3,4)] sub by (simp add: resolve_def c in_user_dir_def)
  from confined_locate [OF c(3) this q] have "prefix u q" .
  moreover have "u \<noteq> q" using ne c(2) r by auto
  ultimately have "\<not> prefix q u" by (auto dest: prefix_order.antisym)
  then have "lookup (snd (rmdir (w_disk w) (resolve w a))) u = lookup (w_disk w) u"
    using agree_lookup [OF rmdir_outside [OF q]] by simp
  then show ?thesis using c(4) by (simp add: isdir_def)
qed

text \<open>
  Property (C23). RMDIR does not remove the user directory itself when the path of the request, as
  written, exists: no absolute path, dots or trailing separator get around the guard then.
\<close>

theorem rmdir_keeps_user_dir:
  assumes "at_home u w" and "locate (w_disk w) (written w (req_first_argument req)) \<noteq> None"
    and "rmdir_cmd E req w = Some w'"
  shows "isdir (w_disk w') u"
  using assms(3) unfolding rmdir_cmd_def
proof (cases rule: when_ready_cases)
  case no
  then show ?thesis using assms(1) by (simp add: at_home_def)
next
  case yes
  have u: "isdir (w_disk w) u" using assms(1) by (simp add: at_home_def)
  show ?thesis
  proof (cases "req_first_argument req = []")
    case True
    with yes(2) u show ?thesis by auto
  next
    case False
    with yes(2) have "with_lock E w (\<lambda>w. let dir = resolve w (req_first_argument req)
       in if \<not> is_directory (w_disk w) dir then Some (err_unlock BAD_REQUEST ''Directory does no  exist.'' w)
          else if \<not> in_user_dir w dir \<or> se_user_dir (w_session w) = dir
          then Some (err_unlock FORBIDDEN ''Access denied.'' w)
          else Some (finish_op (rmdir (w_disk w) dir) ''Cannot delete directory.'' ''Directory deleted.'' w)) = Some w'"
      by simp
    then show ?thesis
    proof (cases rule: with_lock_cases)
      case (busy st)
      then show ?thesis using u try_acquire_spec(3) [OF busy(1)] by simp
    next
      case (got st)
      let ?w = "w\<lparr>w_storage := st\<rparr>"
      note d = try_acquire_spec(3) [OF got(1)]
      have h: "at_home u ?w" using assms(1) d by (simp add: at_home_def)
      have "written ?w (req_first_argument req) = written w (req_first_argument req)" by (simp add: written_def Let_def)
      then obtain q where q: "locate (w_disk ?w) (written ?w (req_first_argument req)) = Some q"
        using assms(2) d by auto
      from got(2) rmdir_body_keeps [OF h q] u d show ?thesis by (auto simp: Let_def split: if_splits)
    qed
  qed
qed

section \<open>Example worlds\<close>

text \<open>A session in public mode with the given directories as root and current directory.\<close>

definition demo_world :: "(apath \<times> node) list \<Rightarrow> apath \<Rightarrow> apath \<Rightarrow> world" where
  "demo_world ns u c = \<lparr>w_storage = demo_storage ns, w_session = new_session\<lparr>se_state := READY,
     se_user_dir := Abs u, se_current_dir := Abs c, se_username := ''public''\<rparr>\<rparr>"

definition request :: "string \<Rightarrow> string \<Rightarrow> string \<Rightarrow> Request" where
  "request c a b = \<lparr>req_cmd = c, req_first_argument = a, req_second_argument = b, req_size = 0,
     req_file_hash = [], req_chunks = []\<rparr>"

lemma demo_home: "at_home [''f''] (demo_world [([], Dir), ([''f''], Dir)] [''f''] [''f''])"
  using wf_disk_of [of "[([], Dir), ([''f''], Dir)]"]
  by (simp add: at_home_def demo_world_def demo_storage_def isdir_def new_session_def plain_name_def)

lemma demo_lockable: "lockable demo_env (demo_world ns u c)"
  by (simp add: lockable_def demo_world_def demo_storage_def try_acquire_user_lock_def)

theorem file_command_answers_once_witness:
  "\<exists>w' m. execute demo_env (request ''MKDIR'' ''a'' []) (demo_world [([], Dir), ([''f''], Dir)] [''f''] [''f'']) = Some w' \<and>
     w_state w' = READY \<and> se_outbox (w_session w') = [Json m]"
proof -
  have "req_cmd (request ''MKDIR'' ''a'' []) \<in> set file_commands" by (simp add: request_def file_commands_def)
  from file_command_answers_once [OF this demo_lockable, of "[([], Dir), ([''f''], Dir)]" "[''f'']" "[''f'']"]
  show ?thesis by (simp add: demo_world_def new_session_def)
qed

theorem file_command_keeps_locks_witness:
  "\<exists>w'. execute demo_env (request ''MKDIR'' ''a'' []) (demo_world [([], Dir), ([''f''], Dir)] [''f''] [''f'']) = Some w' \<and>
     locked (w_storage w') = {}"
proof -
  let ?w = "demo_world [([], Dir), ([''f''], Dir)] [''f''] [''f'']"
  have c: "req_cmd (request ''MKDIR'' ''a'' []) \<in> set file_commands" by (simp add: request_def file_commands_def)
  obtain w' where e: "execute demo_env (request ''MKDIR'' ''a'' []) ?w = Some w'"
    using file_command_answers [OF c demo_lockable] by metis
  from file_command_keeps_locks [OF c e] have "locked (w_storage w') = {}"
    by (simp add: demo_world_def demo_storage_def locked_def)
  with e show ?thesis by blast
qed

theorem file_command_confined_witness:
  "\<exists>w'. execute demo_env (request ''MKDIR'' ''a'' []) (demo_world [([], Dir), ([''f''], Dir)] [''f''] [''f'']) = Some w' \<and>
     safe_step [''f''] (disk_of [([], Dir), ([''f''], Dir)]) (w_disk w')"
proof -
  let ?w = "demo_world [([], Dir), ([''f''], Dir)] [''f''] [''f'']"
  have c: "req_cmd (request ''MKDIR'' ''a'' []) \<in> set file_commands" by (simp add: request_def file_commands_def)
  obtain w' where e: "execute demo_env (request ''MKDIR'' ''a'' []) ?w = Some w'"
    using file_command_answers [OF c demo_lockable] by metis
  from file_command_confined [OF c demo_home e] have "safe_step [''f''] (disk_of [([], Dir), ([''f''], Dir)]) (w_disk w')"
    by (simp add: demo_world_def demo_storage_def)
  with e show ?thesis by blast
qed


theorem rmdir_keeps_user_dir_witness:
  "\<exists>w'. rmdir_cmd demo_env (request ''RMDIR'' ''.'' []) (demo_world [([], Dir), ([''f''], Dir)] [''f''] [''f'']) = Some w' \<and>
     isdir (w_disk w') [''f'']"
proof -
  let ?w = "demo_world [([], Dir), ([''f''], Dir)] [''f''] [''f'']" and ?r = "request ''RMDIR'' ''.'' []"
  have l: "locate (w_disk ?w) (written ?w (req_first_argument ?r)) \<noteq> None" by code_simp
  obtain w' where e: "rmdir_cmd demo_env ?r ?w = Some w'"
    using rmdir_answers [of demo_env ?r] demo_lockable unfolding answers_def by metis
  from rmdir_keeps_user_dir [OF demo_home l e] e show ?thesis by blast
qed


end
