(* ===== verification/Migration.thy ===== *)
theory Migration
  imports Storage
begin

text \<open>
  Correctness of \<^verbatim>\<open>Storage::migrate_user\<close>: a recursive copy into a fresh place is exact, so moving a
  user between tiers either succeeds with an identical tree on the new tier or fails with the old
  tree untouched, whatever the disks refuse and wherever they do so.
\<close>

section \<open>Recursive copies\<close>

lemma children_iff:
  assumes "wf_disk d"
  shows "(k, n) \<in> set (children d s) \<longleftrightarrow> k \<noteq> [] \<and> butlast k = s \<and> lookup d k = Some n"
  using wf_diskD(1) [OF assms] by (auto simp: children_def lookup_def)

lemma distinct_children: "wf_disk d \<Longrightarrow> distinct (map fst (children d s))"
  by (simp add: children_def wf_diskD(1))

text \<open>Two places neither of which lies in the other.\<close>

definition apart :: "apath \<Rightarrow> apath \<Rightarrow> bool" where
  "apart s t \<longleftrightarrow> \<not> prefix s t \<and> \<not> prefix t s"

lemma apart_snoc: "apart s t \<Longrightarrow> apart (s @ [x]) (t @ [y])"
  by (auto simp: apart_def prefix_def append_eq_append_conv2 append_eq_Cons_conv Cons_eq_append_conv)

lemma apart_not_below: "apart s t \<Longrightarrow> \<not> prefix t (s @ r)"
  by (auto simp: apart_def prefix_append)

text \<open>A copy has been made: the subtree at \<^verbatim>\<open>t\<close> is the old subtree at \<^verbatim>\<open>s\<close>.\<close>

definition copied :: "disk \<Rightarrow> apath \<Rightarrow> disk \<Rightarrow> apath \<Rightarrow> bool" where
  "copied d s d' t \<longleftrightarrow> (\<forall>r. lookup d' (t @ r) = lookup d (s @ r))"

definition fresh_below :: "disk \<Rightarrow> apath \<Rightarrow> bool" where
  "fresh_below d t \<longleftrightarrow> (\<forall>x r. lookup d (t @ x # r) = None)"

lemma copied_file:
  assumes "wf_disk d" and "lookup d k = Some (File bs)" and "lookup d' t = Some (File bs)" and "wf_disk d'"
  shows "copied d k d' t"
proof -
  have "lookup e (q @ r) = None" if "wf_disk e" "lookup e q = Some (File bs)" "r \<noteq> []" for e q r
    using that wf_prefix_exists [of e q r] by (cases "lookup e (q @ r)") (auto simp: isdir_def)
  then show ?thesis using assms unfolding copied_def by (metis append_Nil2)
qed

definition entries_ready :: "disk \<Rightarrow> apath \<Rightarrow> apath \<Rightarrow> (apath \<times> node) list \<Rightarrow> bool" where
  "entries_ready d s t es \<longleftrightarrow> wf_disk d \<and> apart s t \<and> distinct (map fst es) \<and>
     (\<forall>(k, n)\<in>set es. k \<noteq> [] \<and> butlast k = s \<and> lookup d k = Some n \<and> (\<forall>r. lookup d (t @ last k # r) = None))"

definition entries_done :: "disk \<Rightarrow> apath \<Rightarrow> (apath \<times> node) list \<Rightarrow> disk \<Rightarrow> bool" where
  "entries_done d t es d' \<longleftrightarrow> (\<forall>(k, n)\<in>set es. copied d k d' (t @ [last k])) \<and>
     (\<forall>q. (\<forall>(k, n)\<in>set es. \<not> prefix (t @ [last k]) q) \<longrightarrow> lookup d' q = lookup d q)"

lemma below_source:
  assumes "apart s t" and "k \<noteq> []" and "butlast k = s"
  shows "\<not> prefix (t @ [x]) (k @ r)"
proof
  assume "prefix (t @ [x]) (k @ r)"
  then have "prefix t (s @ last k # r)"
    using assms(2,3) by (metis append.assoc append_Cons append_Nil append_butlast_last_id append_prefixD)
  then show False using apart_not_below [OF assms(1)] by blast
qed

lemma other_target:
  assumes "k \<noteq> []" "k' \<noteq> []" "butlast k = butlast k'" "k \<noteq> k'"
  shows "\<not> prefix (t @ [last k]) (t @ last k' # r)"
  using assms by (auto simp: prefix_def) (metis append_butlast_last_id)

lemma entries_step:
  assumes ready: "entries_ready d s t ((k, n) # es)" and ag: "agree (outside (t @ [last k])) d d1"
    and cp: "copied d k d1 (t @ [last k])" and wf: "wf_disk d1"
  shows "entries_ready d1 s t es" and "entries_done d1 t es d' \<Longrightarrow> entries_done d t ((k, n) # es) d'"
proof -
  have k: "k \<noteq> []" "butlast k = s" and ap: "apart s t" using ready by (auto simp: entries_ready_def)
  have es: "k' \<noteq> [] \<and> butlast k' = s \<and> k' \<noteq> k \<and> lookup d k' = Some n' \<and> (\<forall>r. lookup d (t @ last k' # r) = None)"
    if "(k', n') \<in> set es" for k' n'
    using ready that by (force simp: entries_ready_def)
  have src: "lookup d1 (k' @ r) = lookup d (k' @ r)" if "(k', n') \<in> set es" for k' n' r
    using agree_lookup [OF ag] below_source [OF ap, of k'] es [OF that] by simp
  have oth: "\<not> prefix (t @ [last k]) (t @ last k' # r)" "\<not> prefix (t @ [last k']) (t @ last k # r)"
    if "(k', n') \<in> set es" for k' n' r
    using other_target [of k k' t r] other_target [of k' k t r] k es [OF that] by auto
  have "k' \<noteq> [] \<and> butlast k' = s \<and> lookup d1 k' = Some n' \<and> (\<forall>r. lookup d1 (t @ last k' # r) = None)"
    if "(k', n') \<in> set es" for k' n'
    using es [OF that] src [OF that, of "[]"] agree_lookup [OF ag oth(1) [OF that]] by simp
  moreover have "distinct (map fst es)" using ready by (simp add: entries_ready_def)
  ultimately show "entries_ready d1 s t es"
    using wf ap unfolding entries_ready_def by blast
  assume dn: "entries_done d1 t es d'"
  have "copied d k d' (t @ [last k])"
    unfolding copied_def
  proof
    fix r
    have "\<forall>(k', n')\<in>set es. \<not> prefix (t @ [last k']) (t @ last k # r)" using oth(2) by blast
    then have "lookup d' (t @ last k # r) = lookup d1 (t @ last k # r)"
      using dn unfolding entries_done_def by blast
    then show "lookup d' ((t @ [last k]) @ r) = lookup d (k @ r)" using cp by (simp add: copied_def)
  qed
  moreover have "copied d k' d' (t @ [last k'])" if "(k', n') \<in> set es" for k' n'
    using dn that src [OF that] by (auto simp: entries_done_def copied_def)
  ultimately show "entries_done d t ((k, n) # es) d'"
    using dn agree_lookup [OF ag] by (auto simp: entries_done_def)
qed

lemma copy_exact:
  "copy_tree fuel ov d s t = (True, d') \<Longrightarrow> wf_disk d \<Longrightarrow> apart s t \<Longrightarrow> isdir d s \<Longrightarrow> fresh_below d t \<Longrightarrow>
   t \<noteq> [] \<and> plain_name (last t) \<Longrightarrow> copied d s d' t"
  "copy_entries fuel ov d t es = (True, d') \<Longrightarrow> entries_ready d s' t es \<Longrightarrow> entries_done d t es d'"
proof (induction fuel ov d s t and fuel ov d t es arbitrary: d' and d' s' rule: copy_tree_copy_entries.induct)
  case (1 ov d s t)
  then show ?case by simp
next
  case (2 fuel ov d s t)
  obtain d1 where mk: "(if lookup d t = None then sys_mkdir d t else (isdir d t, d)) = (True, d1)"
    and ce: "copy_entries fuel ov d1 t (children d1 s) = (True, d')"
    using "2.prems"(1) by (auto split: prod.splits bool.splits)
  have d1: "lookup d1 q = (if q = t then Some Dir else lookup d q)" for q
    using mk sys_mkdir_agree [of d t True d1] sys_mkdir_True [of d t d1]
    by (auto simp: isdir_def agree_lookup split: if_splits)
  have wf1: "wf_disk d1" using mk "2.prems" by (auto split: if_splits intro: sys_mkdir_wf)
  have st: "\<not> prefix t (s @ r)" for r using "2.prems"(3) by (rule apart_not_below)
  have "entries_ready d1 s t (children d1 s)"
    using wf1 "2.prems" by (auto simp: entries_ready_def distinct_children children_iff d1 fresh_below_def)
  from "2.IH" [OF mk [symmetric] refl ce this] have dn: "entries_done d1 t (children d1 s) d'" .
  show ?case
    unfolding copied_def
  proof
    fix r
    show "lookup d' (t @ r) = lookup d (s @ r)"
    proof (cases r)
      case Nil
      have "lookup d' t = lookup d1 t" using dn by (auto simp: entries_done_def prefix_def)
      then show ?thesis using Nil "2.prems"(4) by (simp add: d1 isdir_def)
    next
      case (Cons x r')
      show ?thesis
      proof (cases "lookup d (s @ [x])")
        case None
        have "lookup d (s @ x # r') = None"
          using wf_prefix_exists [OF "2.prems"(2), of "s @ [x]" r'] None by (cases "lookup d (s @ x # r')") auto
        moreover have "x \<noteq> last k" if "(k, n) \<in> set (children d1 s)" for k n
          using that None st [of "[x]"] by (auto simp: children_iff [OF wf1] d1 split: if_splits)
        then have "\<forall>(k, n)\<in>set (children d1 s). \<not> prefix (t @ [last k]) (t @ x # r')" by auto
        then have "lookup d' (t @ x # r') = lookup d1 (t @ x # r')"
          using dn unfolding entries_done_def by blast
        ultimately show ?thesis using "2.prems"(5) Cons by (simp add: d1 fresh_below_def)
      next
        case (Some n)
        have "s @ [x] \<noteq> t" using st [of "[x]"] by auto
        with Some have "(s @ [x], n) \<in> set (children d1 s)" by (simp add: children_iff [OF wf1] d1)
        with dn have "copied d1 (s @ [x]) d' (t @ [x])" by (fastforce simp: entries_done_def)
        then have "lookup d' (t @ x # r') = lookup d1 (s @ x # r')" by (simp add: copied_def)
        moreover have "s @ x # r' \<noteq> t" using st [of "x # r'"] by auto
        ultimately show ?thesis using Cons by (simp add: d1)
      qed
    qed
  qed
next
  case (3 fuel ov d t)
  then show ?case by (simp add: entries_done_def)
next
  case (4 fuel ov d t k n es)
  let ?t' = "t @ [last k]"
  let ?r = "case n of Dir \<Rightarrow> copy_tree fuel ov d k ?t'
    | File bs \<Rightarrow> if lookup d ?t' \<noteq> None \<and> \<not> ov then (False, d) else sys_write d ?t' bs"
  obtain d1 where r: "?r = (True, d1)" and rest: "copy_entries fuel ov d1 t es = (True, d')"
    using "4.prems"(1) by (auto simp: Let_def split: prod.splits bool.splits)
  note rd = "4.prems"(2) [unfolded entries_ready_def]
  have k: "wf_disk d" "apart s' t" "k \<noteq> []" "butlast k = s'" "lookup d k = Some n" "plain_name (last k)"
    "\<And>r. lookup d (?t' @ r) = None"
    using rd wf_diskD(4) [of d k] by auto
  have ap: "apart k ?t'" using apart_snoc [OF k(2), of "last k" "last k"] k(3,4) by auto
  have "agree (outside ?t') d d1 \<and> copied d k d1 ?t' \<and> wf_disk d1"
  proof (cases n)
    case Dir
    with r have c: "copy_tree fuel ov d k ?t' = (True, d1)" by simp
    have "copied d k d1 ?t'"
      using k ap Dir by (intro "4.IH"(1) [OF refl Dir c]) (auto simp: isdir_def fresh_below_def)
    with copy_tree_agree(1) [OF c] copy_tree_wf(1) [OF c k(1)] k(6) show ?thesis by simp
  next
    case (File bs)
    with r k(7) [of "[]"] have w: "sys_write d ?t' bs = (True, d1)" by (simp split: if_splits)
    have "wf_disk d1" using sys_write_wf [OF w k(1)] k(6) by simp
    moreover have "agree (outside ?t') d d1" using sys_write_agree [OF w] by (auto elim: agree_mono)
    ultimately show ?thesis
      using copied_file [OF k(1) _ sys_write_True [OF w]] k(5) File by simp
  qed
  then show ?case
    using entries_step [OF "4.prems"(2)] "4.IH"(2) [OF refl refl r [symmetric] refl rest] by blast
qed

section \<open>Nothing existing is lost\<close>

abbreviation keeps :: "disk \<Rightarrow> disk \<Rightarrow> bool" where
  "keeps d d' \<equiv> agree (\<lambda>q. lookup d q \<noteq> None) d d'"

lemma keeps_trans:
  assumes "keeps d d1" and "keeps d1 d2"
  shows "keeps d d2"
proof (rule agree_trans [OF assms(1)])
  show "agree (\<lambda>q. lookup d q \<noteq> None) d1 d2"
    using assms(2) by (rule agree_mono) (use assms(1) in \<open>auto simp: agree_lookup\<close>)
qed

lemma nothing_below: "wf_disk d \<Longrightarrow> lookup d t = None \<Longrightarrow> lookup d (t @ r) = None"
  using wf_prefix_exists [of d t r] by (cases "lookup d (t @ r)") auto

lemma keeps_outside:
  assumes "wf_disk d" and "lookup d t = None" and "keeps d d1" and "agree (outside t) d1 d2"
  shows "keeps d d2"
proof (rule agree_trans [OF assms(3)])
  show "agree (\<lambda>q. lookup d q \<noteq> None) d1 d2"
    using assms(4) by (rule agree_mono) (use nothing_below [OF assms(1,2)] in \<open>auto simp: prefix_def\<close>)
qed

lemma make_dirs_ok:
  "make_dirs d st made cs = (True, new, d') \<Longrightarrow> list_all plain_name cs \<Longrightarrow> isdir d' (st @ cs)"
proof (induction d st made cs rule: make_dirs.induct)
  case (2 d st made c cs)
  then have c: "c \<noteq> []" "c \<noteq> ''.''" "c \<noteq> ''..''" by (auto simp: plain_name_def)
  show ?case
  proof (cases "lookup d (st @ [c]) \<noteq> None")
    case True
    with 2 c show ?thesis by (auto split: if_splits)
  next
    case False
    then obtain d1 where "sys_mkdir d (st @ [c]) = (True, d1)" "make_dirs d1 (st @ [c]) True cs = (True, new, d')"
      using "2.prems"(1) c by (auto split: if_splits prod.splits bool.splits)
    with 2 c False show ?thesis by (auto split: if_splits)
  qed
qed simp

lemma rmdir_agree:
  assumes "wf_disk d" and "list_all plain_name q"
  shows "agree (outside q) d (snd (rmdir d (Abs q)))"
proof (cases "locate d (Abs q)")
  case None
  then show ?thesis by (simp add: rmdir_def fs_remove_all_def)
next
  case (Some k)
  then have "k = q" using assms by (auto simp: locate_Abs walk_plain split: if_splits)
  with Some show ?thesis
    by (cases "fs_remove_all d (Abs q)") (auto simp: rmdir_def dest: remove_all_inside)
qed

lemma target_plain:
  assumes "wf_disk d" and "list_all plain_name t" and "t \<noteq> []" and "isdir d (butlast t)"
  shows "target d (Abs t) = Some t"
proof -
  have l: "plain_name (last t)" "last t \<noteq> []" using assms(2,3) by (auto simp: list_all_iff plain_name_def)
  then show ?thesis
    using assms by (simp add: target_def Let_def walk_butlast_plain isdir_lookup)
qed

text \<open>What a copy of a directory into a fresh place does, failing or not.\<close>

lemma copy_path_fresh:
  assumes wf: "wf_disk d" and s: "isdir d s" and t: "list_all plain_name t" "t \<noteq> []" "lookup d t = None"
    and ap: "apart s t" and cp: "copy_path d (Abs s) (Abs t) False = (ok, d')"
  shows "wf_disk d'" and "keeps d d'" and "ok \<Longrightarrow> copied d s d' t"
proof -
  have ps: "list_all plain_name s" using wf_plain_names [OF wf] s by (simp add: isdir_def)
  have ex: "fs_exists d (Abs s)" using s wf by (simp add: fs_exists_def status_def locate_plain_Abs isdir_def)
  obtain b new d1 where mk1: "make_dirs d [] False (butlast t) = (b, new, d1)" by (metis prod_cases3)
  have pr: "prepare_dest d (Abs t) False = (b, d1)"
    using mk1 by (auto simp: prepare_dest_def path_simps fs_create_directories_def split: bool.splits)
  have k1: "keeps d d1" and w1: "wf_disk d1"
    using make_dirs_agree [OF mk1] make_dirs_wf [OF mk1 wf] by auto
  have s1: "isdir d1 s" using s agree_lookup [OF k1, of s] by (simp add: isdir_def)
  have dir: "fs_is_directory d1 (Abs s)"
    using s1 w1 by (simp add: fs_is_directory_def status_def locate_plain_Abs isdir_def)
  obtain b2 new2 d2 where mk2: "make_dirs d1 [] False t = (b2, new2, d2)" by (metis prod_cases3)
  have k2: "keeps d d2" and w2: "wf_disk d2"
    using keeps_trans [OF k1 make_dirs_agree [OF mk2]] make_dirs_wf [OF mk2 w1] by auto
  have s2: "isdir d2 s" using s agree_lookup [OF k2, of s] by (simp add: isdir_def)
  obtain b3 d3 where c3: "copy_tree (fd_limit d2) False d2 s t = (b3, d3)" by force
  have w3: "wf_disk d3" using copy_tree_wf(1) [OF c3 w2] t(1,2) by (simp add: list_all_iff)
  have k3: "keeps d d3" by (rule keeps_outside [OF wf t(3) k2 copy_tree_agree(1) [OF c3]])
  have same: "lookup d2 q = lookup d q" if "\<not> prefix q t" for q
  proof -
    have dl: "dotless t" "dotless (butlast t)"
      using t(1) by (auto simp: dotless_def list_all_iff plain_name_def dest: in_set_butlastD)
    have pb: "list_all plain_name (butlast t)" using t(1) by (auto simp: list_all_iff dest: in_set_butlastD)
    have "\<not> prefix q (butlast t)" using that prefix_order.trans [OF _ prefixeq_butlast] by blast
    then show ?thesis
      using that agree_lookup [OF make_dirs_along [OF mk1 dl(2)]] agree_lookup [OF make_dirs_along [OF mk2 dl(1)]]
      by (simp add: norm_stack_id t(1) pb)
  qed
  have along: "lookup d2 (t @ x # r) = None" for x r
    using same [of "t @ x # r"] prefix_length_le [of "t @ x # r" t] nothing_below [OF wf t(3)] by fastforce
  have cp3: "copied d s d3 t" if b2 b3
  proof -
    have "copied d2 s d3 t"
      using c3 that(2) t(1,2) along by (intro copy_exact(1) [of "fd_limit d2" False]) (auto simp: w2 ap s2 fresh_below_def list_all_iff)
    moreover have "lookup d2 (s @ r) = lookup d (s @ r)" for r
      using same [of "s @ r"] ap append_prefixD [of s r t] by (auto simp: apart_def)
    ultimately show ?thesis by (simp add: copied_def)
  qed
  have cpy: "fs_copy d2 (Abs s) (Abs t) False = (b3, d3)" if b2
  proof -
    have "isdir d2 t" using make_dirs_ok [of d1 "[]" False t new2 d2] mk2 that t(1) by simp
    then have "isdir d2 (butlast t)" using wf_diskD(3) [OF w2, of t] t(2) by (simp add: isdir_def)
    then show ?thesis
      using c3 s2 t by (simp add: fs_copy_def locate_plain_Abs [OF w2] isdir_lookup target_plain [OF w2])
  qed
  have "d' \<in> {d1, d2} \<and> \<not> ok \<or> b2 \<and> (ok, d') = (b3, d3)"
    using cp ex pr dir mk2 cpy by (auto simp: copy_path_def fs_create_directories_def split: bool.splits)
  then show "wf_disk d'" and "keeps d d'" and "ok \<Longrightarrow> copied d s d' t"
    using w1 w2 w3 k1 k2 k3 cp3 by auto
qed

section \<open>Migration\<close>

lemma migration_failed_not_ok [simp]: "\<not> mr_ok (migration_failed m)"
  by (simp add: migration_failed_def)

lemma migrate_user_safe:
  assumes "wf_disk (sto_disk st)" and "user_home (st_path from) u = Abs s" and "user_home (st_path to) u = Abs t"
    and "list_all plain_name s" and "list_all plain_name t" and "apart s t"
    and "migrate_user E st u from to = (res, st')"
  shows "if mr_ok res
     then (isdir (sto_disk st) s \<longrightarrow> copied (sto_disk st) s (sto_disk st') t) \<and>
       (\<forall>q. \<not> prefix s q \<longrightarrow> lookup (sto_disk st) q \<noteq> None \<longrightarrow> lookup (sto_disk st') q = lookup (sto_disk st) q)
     else (\<forall>q. lookup (sto_disk st) q \<noteq> None \<longrightarrow> lookup (sto_disk st') q = lookup (sto_disk st) q)"
proof -
  let ?d = "sto_disk st"
  have t: "t \<noteq> []" using assms(6) by (auto simp: apart_def)
  have dir: "is_directory ?d (Abs s) \<longleftrightarrow> isdir ?d s"
    using assms(4) by (auto simp: is_directory_def fs_is_directory_def status_def locate_Abs walk_plain [OF assms(1)] isdir_def)
  have exi: "exists ?d (Abs t) \<longleftrightarrow> lookup ?d t \<noteq> None"
    using assms(5) by (auto simp: exists_def fs_exists_def status_def locate_Abs walk_plain [OF assms(1)])
  show ?thesis
  proof (cases "isdir ?d s")
    case False
    obtain b new d1 where mk: "make_dirs ?d [] False t = (b, new, d1)" by (metis prod_cases3)
    have "keeps ?d d1" using make_dirs_agree [OF mk] .
    moreover have "sto_disk st' \<in> {?d, d1}"
      using assms(7) False mk
      by (auto simp: migrate_user_def assms(2,3) dir Let_def mkdir_def fs_create_directories_def invalidate_partmeta_def
          split: if_splits prod.splits bool.splits)
    ultimately show ?thesis using False by (auto simp: agree_lookup)
  next
    case True
    show ?thesis
    proof (cases "lookup ?d t")
      case (Some n)
      then have "\<not> mr_ok res \<and> st' = st"
        using assms(7) True exi by (auto simp: migrate_user_def assms(2,3) dir Let_def)
      then show ?thesis by simp
    next
      case None
      obtain b d1 where cp: "copy_path ?d (Abs s) (Abs t) False = (b, d1)" by force
      note cf = copy_path_fresh [OF assms(1) True assms(5) t None assms(6) cp]
      have kt: "keeps ?d (snd (rmdir d1 (Abs t)))"
        by (rule keeps_outside [OF assms(1) None cf(2) rmdir_agree [OF cf(1) assms(5)]])
      note rs = agree_lookup [OF rmdir_agree [OF cf(1) assms(4)]]
      have "\<not> mr_ok res \<and> (sto_disk st' = ?d \<or> sto_disk st' = snd (rmdir d1 (Abs t))) \<or>
          mr_ok res \<and> b \<and> sto_disk st' = snd (rmdir d1 (Abs s))"
        using assms(7) True None exi cp
        by (auto simp: migrate_user_def assms(2,3) dir Let_def invalidate_partmeta_def
            split: if_splits prod.splits bool.splits option.splits)
      then show ?thesis
      proof (elim disjE conjE)
        assume "mr_ok res" "b" and d': "sto_disk st' = snd (rmdir d1 (Abs s))"
        have "copied ?d s (sto_disk st') t"
          using cf(3) \<open>b\<close> rs apart_not_below [of t s] assms(6) unfolding copied_def d' by (simp add: apart_def)
        moreover have "\<forall>q. \<not> prefix s q \<longrightarrow> lookup ?d q \<noteq> None \<longrightarrow> lookup (sto_disk st') q = lookup ?d q"
          using rs agree_lookup [OF cf(2)] unfolding d' by simp
        ultimately show ?thesis using \<open>mr_ok res\<close> by simp
      qed (use agree_lookup [OF kt] in auto)
    qed
  qed
qed

text \<open>
  Property (C3). Migration between tiers cannot lose data. For the home directory of the user at \<^verbatim>\<open>s\<close>
  and the new one at \<^verbatim>\<open>t\<close>, and for every schedule of disk errors: a migration that reports failure
  leaves everything that existed as it was; a migration that reports success leaves at \<^verbatim>\<open>t\<close> exactly
  the tree that was at \<^verbatim>\<open>s\<close>, byte for byte, and everything outside the old home as it was.
\<close>

theorem migration_preserves_data:
  assumes "wf_disk (sto_disk st)" and "user_home (st_path from) u = Abs s" and "user_home (st_path to) u = Abs t"
    and "list_all plain_name s" and "list_all plain_name t" and "apart s t"
    and "migrate_user E st u from to = (res, st')"
  shows "if mr_ok res
     then (isdir (sto_disk st) s \<longrightarrow> copied (sto_disk st) s (sto_disk st') t) \<and>
       (\<forall>q. \<not> prefix s q \<longrightarrow> lookup (sto_disk st) q \<noteq> None \<longrightarrow> lookup (sto_disk st') q = lookup (sto_disk st) q)
     else (\<forall>q. lookup (sto_disk st) q \<noteq> None \<longrightarrow> lookup (sto_disk st') q = lookup (sto_disk st) q)"
  by (rule migrate_user_safe [OF assms])

theorem migration_preserves_data_witness:
  "let ns = [([], Dir), ([''hot''], Dir), ([''hot'', ''private''], Dir), ([''hot'', ''private'', ''bob''], Dir),
       ([''hot'', ''private'', ''bob'', ''a''], File [1, 2])];
     r = migrate_user demo_env (demo_storage ns) ''bob''
           \<lparr>st_name = ''hot'', st_path = Abs [''hot''], st_description = []\<rparr>
           \<lparr>st_name = ''cold'', st_path = Abs [''cold''], st_description = []\<rparr>
   in mr_ok (fst r) \<and> copied (disk_of ns) [''hot'', ''private'', ''bob''] (sto_disk (snd r)) [''cold'', ''private'', ''bob'']"
proof -
  let ?ns = "[([], Dir), ([''hot''], Dir), ([''hot'', ''private''], Dir), ([''hot'', ''private'', ''bob''], Dir),
       ([''hot'', ''private'', ''bob'', ''a''], File [1, 2])]"
  let ?from = "\<lparr>st_name = ''hot'', st_path = Abs [''hot''], st_description = []\<rparr>"
  let ?to = "\<lparr>st_name = ''cold'', st_path = Abs [''cold''], st_description = []\<rparr>"
  let ?s = "[''hot'', ''private'', ''bob'']" and ?t = "[''cold'', ''private'', ''bob'']"
  obtain res st' where m: "migrate_user demo_env (demo_storage ?ns) ''bob'' ?from ?to = (res, st')" by force
  have "mr_ok (fst (migrate_user demo_env (demo_storage ?ns) ''bob'' ?from ?to))" by code_simp
  then have ok: "mr_ok res" by (simp add: m)
  have d: "sto_disk (demo_storage ?ns) = disk_of ?ns" by (simp add: demo_storage_def)
  have wf: "wf_disk (sto_disk (demo_storage ?ns))" unfolding d by (rule wf_disk_of) (simp_all add: plain_name_def)
  have h: "user_home (st_path ?from) ''bob'' = Abs ?s" "user_home (st_path ?to) ''bob'' = Abs ?t" by code_simp+
  have p: "list_all plain_name ?s" "list_all plain_name ?t" "apart ?s ?t" by (simp_all add: plain_name_def apart_def)
  have "isdir (disk_of ?ns) ?s" by (simp add: isdir_def)
  then have "copied (disk_of ?ns) ?s (sto_disk st') ?t"
    using migration_preserves_data [OF wf h p m] ok unfolding d by simp
  with ok show ?thesis by (simp only: Let_def m fst_conv snd_conv simp_thms)
qed

end
