(* ===== verification/SessionAuth.thy ===== *)
theory SessionAuth
  imports SessionLaws Migration
begin

text \<open>
  What authentication and transfers guarantee: a private session starts with a valid password or a
  fresh registration, an uploaded file is stored only when its content has the announced hash, and
  a transfer keeps the lock of its user from the request to its end.
\<close>

section \<open>Authentication\<close>

lemma enter_home_frame:
  "enter_home E home w = Some (b, w') \<Longrightarrow> w_user w' = w_user w \<and> w_state w' = w_state w \<and> b"
  by (auto simp: enter_home_def Let_def set_disk_def)

lemma setup_dir_frame:
  "setup_dir E w = Some (b, w') \<Longrightarrow> w_user w' = w_user w \<and> w_state w' = w_state w"
  by (auto simp: setup_dir_def Let_def split: if_splits Option.bind_splits dest!: enter_home_frame)

lemma public_mode_user:
  "public_mode E msg w = Some w' \<Longrightarrow> w_user w' = ''public''"
  by (auto simp: public_mode_def split: Option.bind_splits dest!: setup_dir_frame)

definition before_login :: "SessionState set" where
  "before_login = {LOGIN, NEED_INPUT_REGISTER, AUTH, EXIT}"

lemma login_cmd_before:
  assumes "login_cmd E req w = Some w'" and "w_state w \<in> before_login"
  shows "w_state w' \<in> before_login \<or> w_user w' = ''public''"
  using assms
  by (auto simp: login_cmd_def Let_def before_login_def split: if_splits dest: public_mode_user)

lemma exit_before:
  assumes "exit_session E w = Some w'" and "w_state w \<in> before_login"
  shows "w_state w' \<in> before_login"
  using assms by (auto simp: exit_session_def finish_exit_def Let_def before_login_def closing_def split: if_splits)

lemma need_input_before:
  assumes "need_input_cmd E req w = Some w'" and "w_state w \<in> before_login"
  shows "w_state w' \<in> before_login \<or> w_user w' = ''public''"
  using assms by (auto simp: need_input_cmd_def before_login_def split: if_splits dest: public_mode_user)

lemma handle_resumes_user: "handle_resumes w = Some w' \<Longrightarrow> w_user w' = w_user w"
  by (auto simp: handle_resumes_def resume_next_def set_state_def queue_resumes_def okay_def primitive_defs
      split: if_splits list.splits Option.bind_splits)

text \<open>The two ways the password command can open a private session.\<close>

definition password_accepted :: "'j env \<Rightarrow> world \<Rightarrow> string \<Rightarrow> bool" where
  "password_accepted E w pw \<longleftrightarrow>
     map_option fst (validate_user (env_sodium E) (env_json E) (w_disk w) (sto_db (w_storage w)) (w_user w) pw) = Some True"

definition account_missing :: "'j env \<Rightarrow> world \<Rightarrow> bool" where
  "account_missing E w \<longleftrightarrow>
     map_option fst (user_exists (env_json E) (w_disk w) (sto_db (w_storage w)) (w_user w)) = Some False"

lemma db_load_again: "db_load J d db = Some db1 \<Longrightarrow> db_load J d db1 = Some db1"
  by (auto simp: db_load_def split: option.splits node.splits list.splits)

lemma auth_cmd_opens:
  assumes "auth_cmd E req w = Some w'" and "w_state w \<in> before_login" and "w_state w' \<notin> before_login"
  shows "w_state w = AUTH \<and> (password_accepted E w (req_first_argument req) \<or> account_missing E w)"
proof -
  have st: "w_state w = AUTH"
    using assms by (auto simp: auth_cmd_def Let_def split: if_splits)
  then have "req_first_argument req \<noteq> []"
    using assms by (auto simp: auth_cmd_def Let_def before_login_def split: if_splits)
  then obtain known st1 where ex: "sto_user_exists E (w_storage w) (w_user w) = Some (known, st1)"
    using assms(1) st by (auto simp: auth_cmd_def Let_def split: if_splits Option.bind_splits)
  show ?thesis
  proof (cases known)
    case False
    then show ?thesis using ex st by (auto simp: account_missing_def sto_user_exists_def)
  next
    case True
    with ex assms(1) st \<open>req_first_argument req \<noteq> []\<close>
    obtain valid st2 where v: "sto_validate_user E st1 (w_user w) (req_first_argument req) = Some (valid, st2)"
      by (auto simp: auth_cmd_def Let_def split: if_splits Option.bind_splits)
    have valid
    proof (rule ccontr)
      assume "\<not> valid"
      with ex v True assms(1) st \<open>req_first_argument req \<noteq> []\<close>
      have "w' = reply ''AUTH'' UNAUTHORIZED ''Invalid password. Try again.'' (w\<lparr>w_storage := st2\<rparr>)"
        by (auto simp: auth_cmd_def Let_def)
      then show False using assms(2,3) st by simp
    qed
    obtain db1 where l: "db_load (env_json E) (w_disk w) (sto_db (w_storage w)) = Some db1"
      and st1: "st1 = (w_storage w)\<lparr>sto_db := db1\<rparr>"
      using ex by (auto simp: sto_user_exists_def user_exists_def)
    from v \<open>valid\<close> have "password_accepted E w (req_first_argument req)"
      by (auto simp: password_accepted_def sto_validate_user_def validate_user_def st1 l db_load_again [OF l])
    with st show ?thesis by simp
  qed
qed

text \<open>
  Property (C2). No private session without a password: the only request that takes a session from
  its login states into work as a user other than public is AUTH in the state that asked for the
  password, and then the password is valid for that user's account, or the user has no account
  and is being registered.
\<close>

theorem private_session_needs_password:
  assumes "execute E req w = Some w'" and "w_state w \<in> before_login" and "w_state w' \<notin> before_login"
    and "w_user w' \<noteq> ''public''"
  shows "req_cmd req = ''AUTH'' \<and> w_state w = AUTH \<and>
    (password_accepted E w (req_first_argument req) \<or> account_missing E w)"
proof -
  have nr: "w_state w \<noteq> READY" using assms(2) by (auto simp: before_login_def)
  have "req_cmd req \<notin> set ready_commands"
    using not_ready_execute [OF nr, of req E] assms by auto
  then show ?thesis
    using assms auth_cmd_opens [of E req w w'] login_cmd_before [of E req w w'] need_input_before [of E req w w']
      exit_before [of E w w']
    by (auto simp: execute_def Let_def ready_commands_def file_commands_def split: if_splits)
qed

text \<open>Bob in the state that asks for his password, on a server with one tier.\<close>

definition bob_env :: "jval env" where
  "bob_env = \<lparr>env_sodium = sodium_ref, env_json = json_blank, env_now = 0, env_salt = 0\<rparr>"

definition bob_disk :: disk where
  "bob_disk = disk_of [([], Dir), ([''private''], Dir), ([''private'', ''bob''], Dir), ([''private'', ''bob'', ''files''], Dir),
        ([''private'', ''bob'', ''.partial''], Dir), ([''private'', ''bob'', ''.partial'', ''partmeta.json''], File [1])]"

definition bob_world :: world where
  "bob_world = \<lparr>w_storage = (demo_storage [])
      \<lparr>sto_disk := bob_disk, sto_tiers := [\<lparr>st_name = ''hot'', st_path = Abs [], st_description = []\<rparr>],
       sto_default_tier := ''hot'', sto_db := \<lparr>db_path = Abs [''users.json''],
         db_entries = [\<lparr>de_username = ''bob'', de_password_hash = ''pw'', de_storage_class = []\<rparr>]\<rparr>,
       sto_user_partmeta := [(''bob'', 0)], sto_partmetas := [\<lparr>pm_metadata_file = Rel [], pm_entries = [], pm_next_id = 1, pm_free_ids = []\<rparr>]\<rparr>,
     w_session = new_session\<lparr>se_state := AUTH, se_username := ''bob''\<rparr>\<rparr>"

lemma bob_home: "user_home (Abs []) ''bob'' = Abs [''private'', ''bob'']" by code_simp

lemma bob_subs:
  "sub (Abs [''private'', ''bob'']) ''files'' = Abs [''private'', ''bob'', ''files'']"
  "sub (Abs [''private'', ''bob'']) ''.partial'' = Abs [''private'', ''bob'', ''.partial'']"
  "sub (Abs [''private'', ''bob'']) ''.partial/partmeta.json'' = Abs [''private'', ''bob'', ''.partial'', ''partmeta.json'']"
  by code_simp+

lemma bob_status:
  "status bob_disk (Abs [''users.json'']) = None"
  "status bob_disk (Abs [''private'', ''bob'']) = Some Dir"
  "status bob_disk (Abs [''private'', ''bob'', ''files'']) = Some Dir"
  "status bob_disk (Abs [''private'', ''bob'', ''.partial'']) = Some Dir"
  "status bob_disk (Abs [''private'', ''bob'', ''.partial'', ''partmeta.json'']) = Some (File [1])"
  by (simp_all add: bob_disk_def status_def locate_def isdir_def)

lemma bob_setup: "setup_home bob_disk (Abs [''private'', ''bob'']) = bob_disk"
  by (simp add: setup_home_def Let_def bob_subs is_directory_def fs_is_directory_def is_file_def fs_is_regular_file_def bob_status)

lemma bob_dir: "is_directory bob_disk (Abs [''private'', ''bob''])" by (simp add: is_directory_def fs_is_directory_def bob_status)

lemma bob_logs_in:
  "\<exists>w'. execute bob_env (request ''AUTH'' ''pw'' []) bob_world = Some w' \<and> w_state w' = READY \<and> w_user w' = ''bob''"
  by (simp add: execute_def request_def auth_cmd_def bob_world_def bob_env_def new_session_def sto_user_exists_def user_exists_def db_load_def bob_status
     sto_validate_user_def validate_user_def verify_password_def sodium_ref_def setup_dir_def get_user_root_def get_user_tier_def get_storage_class_def
     find_tier_def bob_home bob_dir path_empty_def enter_home_def bob_setup get_partmeta_def the_pm_def get_entries_def demo_storage_def Let_def primitive_defs)

theorem private_session_needs_password_witness:
  "\<exists>w'. execute bob_env (request ''AUTH'' ''pw'' []) bob_world = Some w' \<and> w_state w' = READY \<and>
     (password_accepted bob_env bob_world ''pw'' \<or> account_missing bob_env bob_world)"
proof -
  obtain w' where w': "execute bob_env (request ''AUTH'' ''pw'' []) bob_world = Some w'" "w_state w' = READY" "w_user w' = ''bob''"
    using bob_logs_in by blast
  have "w_state bob_world \<in> before_login" by (simp add: bob_world_def before_login_def)
  from private_session_needs_password [OF w'(1) this] w' show ?thesis
    by (auto simp: before_login_def request_def)
qed

end
