(* ===== verification/LockFlow.thy ===== *)
theory LockFlow
  imports SessionAuth
begin

text \<open>
  The lock discipline of a session across its states. A session keeps the lock of its user from one
  request to the next only while it transfers a file or waits for the confirmation of a tier change;
  every handler either leaves the locks alone, or takes the lock and enters such a state, or leaves
  such a state and gives the lock back.
\<close>

section \<open>What handlers leave alone\<close>

text \<open>
  The part of a world that matters for the lock: who is locked, for whom the session works, and
  whether it is live, that is connected, and with its last write under way once it is leaving.
\<close>

definition live :: "Session \<Rightarrow> bool" where
  "live se \<longleftrightarrow> se_socket_open se \<and> (se_exiting se \<longrightarrow> se_closing se)"

definition view :: "world \<Rightarrow> string set \<times> string \<times> bool" where
  "view w = (locked (w_storage w), w_user w, live (w_session w))"

lemma view_primitives [simp]:
  "view (send_msg m w) = view w" "view (send_res r w) = view w" "view (reply s c t w) = view w"
  "view (err c t w) = view w" "view (okay t w) = view w" "view (send_flag a b f w) = view w"
  "view (set_state x w) = view w" "view (set_transfer y w) = view w"
  "view (set_transfer_id i w) = view w" "view (set_disk d w) = view w" "view (queue_resumes es w) = view w"
  by (simp_all add: view_def live_def primitive_defs locked_def)

lemma view_session [simp]:
  "view (w\<lparr>w_session := (w_session w)\<lparr>se_resuming := b\<rparr>\<rparr>) = view w"
  "view (w\<lparr>w_session := (w_session w)\<lparr>se_pending_tier := n\<rparr>\<rparr>) = view w"
  "view (w\<lparr>w_session := (w_session w)\<lparr>se_resume_queue := q\<rparr>\<rparr>) = view w"
  "view (w\<lparr>w_session := (w_session w)\<lparr>se_current_dir := c\<rparr>\<rparr>) = view w"
  by (simp_all add: view_def live_def)

definition give_back :: "string set \<times> string \<times> bool \<Rightarrow> string set \<times> string \<times> bool" where
  "give_back v = (case v of (L, u, b) \<Rightarrow> (L - {u}, u, b))"

lemma view_unlock [simp]: "view (unlock w) = give_back (view w)" "view (err_unlock c t w) = give_back (view w)"
  by (simp_all add: view_def unlock_def give_back_def err_unlock_def primitive_defs live_def)

lemma view_locked: "locked st = locked (w_storage w) \<Longrightarrow> view (w\<lparr>w_storage := st\<rparr>) = view w"
  by (simp add: view_def)

lemma view_storage: "sto_user_lock st = sto_user_lock (w_storage w) \<Longrightarrow> view (w\<lparr>w_storage := st\<rparr>) = view w"
  by (simp add: view_def locked_def)

lemma put_pm_frame [simp]: "view (put_pm pm w) = view w" "w_state (put_pm pm w) = w_state w"
  by (simp_all add: put_pm_def view_def locked_def split: option.splits)

definition quietly :: "(world \<Rightarrow> world option) \<Rightarrow> bool" where
  "quietly k \<longleftrightarrow> (\<forall>w w'. k w = Some w' \<longrightarrow> view w' = view w \<and> w_state w' = w_state w)"

lemma quietlyD: "quietly k \<Longrightarrow> k w = Some w' \<Longrightarrow> view w' = view w \<and> w_state w' = w_state w"
  by (simp add: quietly_def)

lemma pm_add_quiet: "pm_add E ty tid w = Some (i, w') \<Longrightarrow> view w' = view w \<and> w_state w' = w_state w"
  by (auto simp: pm_add_def Let_def split: prod.splits Option.bind_splits)

lemma pm_mark_quiet: "quietly (pm_mark E tid i)"
  by (auto simp: quietly_def pm_mark_def split: Option.bind_splits)

lemma pm_delete_quiet: "quietly (pm_delete E tid)"
  by (auto simp: quietly_def pm_delete_def split: Option.bind_splits prod.splits bool.splits)

lemma pm_save_quiet: "quietly (pm_save E)"
  by (auto simp: quietly_def pm_save_def split: Option.bind_splits prod.splits bool.splits)

lemma discard_quiet: "quietly (discard_upload E)" "quietly (discard_download E)"
  by (auto simp: quietly_def discard_upload_def discard_download_def Let_def split: Option.bind_splits
      dest!: quietlyD [OF pm_delete_quiet])

lemma downloading_quiet: "quietly downloading"
  by (auto simp: quietly_def downloading_def Let_def split: option.splits if_splits)

lemmas quiet_ops = pm_mark_quiet pm_delete_quiet pm_save_quiet discard_quiet downloading_quiet


section \<open>The states that keep the lock\<close>

definition holding_states :: "SessionState set" where
  "holding_states = {UPLOADING, DOWNLOADING, NEED_INPUT_SET_TIER}"

definition free_states :: "SessionState set" where
  "free_states = - (holding_states \<union> {EXIT})"

lemma free_simps [simp]:
  "READY \<in> free_states" "LOGIN \<in> free_states" "AUTH \<in> free_states" "NEED_INPUT_REGISTER \<in> free_states"
  "NEED_INPUT_RESUME_TREANSFER \<in> free_states" "UPLOADING \<notin> free_states" "DOWNLOADING \<notin> free_states"
  "NEED_INPUT_SET_TIER \<notin> free_states" "EXIT \<notin> free_states"
  by (simp_all add: free_states_def holding_states_def)

definition released :: "world \<Rightarrow> world \<Rightarrow> bool" where
  "released w w' \<longleftrightarrow> w_state w' \<in> free_states \<and> view w' = give_back (view w)"

definition tidy :: "world \<Rightarrow> world \<Rightarrow> bool" where
  "tidy w w' \<longleftrightarrow> w_state w' \<in> holding_states \<and> view w' = view w \<or> released w w'"

lemma released_view: "view v = view w \<Longrightarrow> released v w' \<longleftrightarrow> released w w'"
  by (simp add: released_def)

lemma tidy_view: "view v = view w \<Longrightarrow> tidy v w' \<longleftrightarrow> tidy w w'"
  by (simp add: tidy_def released_def)

lemma released_tidy: "released w w' \<Longrightarrow> tidy w w'"
  by (simp add: tidy_def)

lemma resume_next_view:
  "resume_next w = Some w' \<Longrightarrow> view w' = view w \<and> se_transfer (w_session w') = se_transfer (w_session w) \<and>
     w_state w' \<in> {READY, NEED_INPUT_RESUME_TREANSFER}"
  by (auto simp: resume_next_def split: list.splits) (simp_all add: primitive_defs)

lemma handle_resumes_view:
  assumes "handle_resumes w = Some w'"
  shows "view w' = view w" and "w_state w' \<in> {w_state w, READY, NEED_INPUT_RESUME_TREANSFER}"
    and "se_resuming (w_session w) \<Longrightarrow> se_transfer (w_session w') = se_transfer (w_session w) \<and>
       w_state w' \<in> {READY, NEED_INPUT_RESUME_TREANSFER}"
  using assms by (auto simp: handle_resumes_def split: if_splits Option.bind_splits dest!: resume_next_view)

lemma end_transfer_released:
  assumes "end_transfer w = Some w'"
  shows "released w w'" and "se_transfer (w_session w') = se_transfer (w_session w)"
proof -
  have t: "se_transfer (w_session (unlock w)) = se_transfer (w_session w)" by (simp add: unlock_def)
  show "released w w'" "se_transfer (w_session w') = se_transfer (w_session w)"
    using assms t handle_resumes_view [of "unlock w" w']
    by (auto simp: end_transfer_def Let_def released_def split: if_splits) (simp add: set_state_def)
qed

lemma upload_abort_released: "upload_abort E sv nt fl w = Some w' \<Longrightarrow> released w w'"
  by (auto simp: released_def upload_abort_def split: Option.bind_splits if_splits
      dest!: quietlyD [OF pm_save_quiet] quietlyD [OF discard_quiet(1)] end_transfer_released(1))

lemma download_abort_released: "download_abort E sv nt fl w = Some w' \<Longrightarrow> released w w'"
  by (auto simp: released_def download_abort_def split: Option.bind_splits if_splits
      dest!: quietlyD [OF pm_save_quiet] quietlyD [OF discard_quiet(2)] end_transfer_released(1))

lemma download_done_released: "download_done E w = Some w' \<Longrightarrow> released w w'"
  by (auto simp: released_def download_done_def split: Option.bind_splits
      dest!: quietlyD [OF discard_quiet(2)] end_transfer_released(1))

lemma upload_done_released: "upload_done E w = Some w' \<Longrightarrow> released w w'"
  by (auto simp: released_def upload_done_def Let_def split: Option.bind_splits
      dest!: quietlyD [OF pm_delete_quiet] end_transfer_released(1))

lemma uploading_tidy:
  assumes "uploading E i sz data fl w = Some w'" and "w_state w = UPLOADING"
  shows "tidy w w'"
proof -
  define t where "t = (se_transfer (w_session w))\<lparr>at_chunk_state := (at_chunk_state (se_transfer (w_session w)))[unat i := True]\<rparr>"
  obtain w1 where w1: "pm_mark E (at_transfer_id t) i (set_transfer t w) = Some w1"
    and k: "(case write_chunk (w_disk w1) (at_partial_path t) (CHUNK_SIZE * i) data of
                     (False, d) \<Rightarrow> upload_abort E False True flag_ERROR (set_disk d w1)
                   | (True, d) \<Rightarrow>
                      (let w2 = set_disk d w1
                       in if fl = flag_DONE \<and> \<not> valid_file E w2 (at_partial_path t) (fm_hash (at_fmeta t))
                          then upload_abort E False True flag_ERROR w2
                          else let w3 = send_flag (at_transfer_id t) i fl w2
                               in if fl = flag_DONE then upload_done E w3 else Some w3)) = Some w'"
    using assms(1) unfolding uploading_def Let_def t_def [symmetric]
    by (auto split: if_splits Option.bind_splits)
  have v: "view w1 = view w" "w_state w1 = UPLOADING"
    using quietlyD [OF pm_mark_quiet w1] assms(2) by simp_all
  show ?thesis
    using k v unfolding Let_def
    by (auto split: prod.splits bool.splits if_splits simp: tidy_def holding_states_def released_def
        dest!: upload_abort_released upload_done_released)
qed


section \<open>Ending\<close>

lemma pm_save_session: "pm_save E w = Some w' \<Longrightarrow> w_session w' = w_session w \<and> locked (w_storage w') = locked (w_storage w)"
  by (auto simp: pm_save_def set_disk_def locked_def split: Option.bind_splits prod.splits bool.splits)

lemma exit_session_quiet:
  assumes "exit_session E w = Some w'" and "live (w_session w)"
  shows "view w' = view w \<and> w_state w' = w_state w"
  using assms
  by (auto simp: exit_session_def Let_def upload_abort_exit_def download_abort_exit_def view_def live_def closing_def
      send_flag_def send_msg_def reply_def send_res_def split: if_splits Option.bind_splits dest!: pm_save_session)

lemma exit_session_leaves:
  "exit_session E w = Some w' \<Longrightarrow> se_exiting (w_session w')"
  by (auto simp: exit_session_def Let_def upload_abort_exit_def download_abort_exit_def closing_def finish_exit_def unlock_def
      send_flag_def send_msg_def reply_def send_res_def split: if_splits Option.bind_splits dest!: pm_save_session)

lemma view_socket: "view w = view v \<Longrightarrow> live (w_session w) = live (w_session v)"
  by (simp add: view_def)

lemma give_back_socket: "view w = give_back (view v) \<Longrightarrow> live (w_session w) = live (w_session v)"
  by (simp add: view_def give_back_def)

lemma exit_after_release:
  assumes "released w w1" and "exit_session E w1 = Some w'" and "live (w_session w)"
  shows "released w w'"
  using assms exit_session_quiet [of E w1 w'] give_back_socket [of w1 w] by (auto simp: released_def)

lemma leave_released:
  "upload_abort E sv nt fl w \<bind> exit_session E = Some w' \<Longrightarrow> live (w_session w) \<Longrightarrow> released w w'"
  by (auto split: Option.bind_splits intro: exit_after_release upload_abort_released)

section \<open>Chunks\<close>

lemma discard_upload_transfer:
  "discard_upload E w = Some w' \<Longrightarrow> se_transfer (w_session w') = no_transfer"
  by (auto simp: discard_upload_def Let_def set_transfer_def split: Option.bind_splits)

text \<open>An upload whose first chunk cannot be placed is over, and its chunk list is empty.\<close>

lemma upload_init_cases:
  assumes "upload_init E w = Some w'"
  shows "view w' = view w \<and> w_state w' = w_state w \<or>
     released w w' \<and> se_transfer (w_session w') = no_transfer"
proof -
  obtain i w1 pm where a: "pm_add E UPLOAD (at_transfer_id (se_transfer (w_session w))) w = Some (i, w1)"
    and pm: "the_pm w1 = Some pm"
    using assms by (auto simp: upload_init_def split: Option.bind_splits)
  define p where "p = get_partial_path (w_disk w1) pm (at_transfer_id (se_transfer (w_session w1)))"
  define w2 where "w2 = set_transfer ((se_transfer (w_session w1))\<lparr>at_partial_path := p\<rparr>) w1"
  have v: "view w2 = view w" "w_state w2 = w_state w"
    using pm_add_quiet [OF a] by (simp_all add: w2_def)
  have k: "(if path_empty p then upload_abort E False True flag_ERROR w2
        else if is_file (w_disk w2) p then Some w2
        else Some (set_disk (snd (create_empty_file (w_disk w2) p)) w2)) = Some w'"
    using assms a pm by (simp add: upload_init_def Let_def p_def w2_def cong: if_cong)
  show ?thesis
  proof (cases "path_empty p")
    case True
    with k have ab: "upload_abort E False True flag_ERROR w2 = Some w'" by simp
    then have "se_transfer (w_session w') = no_transfer"
      by (auto simp: upload_abort_def split: Option.bind_splits dest!: discard_upload_transfer end_transfer_released(2))
        (simp add: send_flag_def send_msg_def)
    then show ?thesis using upload_abort_released [OF ab] v by (simp add: released_def)
  next
    case False
    then show ?thesis using k v by (auto split: if_splits)
  qed
qed

lemma init_if_new_cases:
  assumes "init_if_new E tid w = Some w'"
  shows "view w' = view w \<and> w_state w' = w_state w \<or>
     released w w' \<and> se_transfer (w_session w') = no_transfer"
proof (cases "at_transfer_id (se_transfer (w_session w)) = UINT32_MAX")
  case True
  then have "upload_init E (set_transfer_id tid w) = Some w'" using assms by (simp add: init_if_new_def)
  from upload_init_cases [OF this] show ?thesis by (auto simp: released_def set_transfer_id_def)
next
  case False
  then show ?thesis using assms by (simp add: init_if_new_def)
qed

lemma no_transfer_fails:
  assumes "se_transfer (w_session w) = no_transfer"
  shows "uploading E i sz data fl w = None" and "valid_chunk E w i sz data = None"
  using assms by (simp_all add: uploading_def valid_chunk_def no_transfer_def Let_def)

lemma init_then_upload:
  assumes "init_if_new E tid w = Some w1" and "uploading E i sz data fl w1 = Some w'" and "w_state w = UPLOADING"
  shows "tidy w w'"
  using init_if_new_cases [OF assms(1)] assms(2,3) uploading_tidy [OF assms(2)] tidy_view [of w1 w w']
  by (auto simp: no_transfer_fails)

lemma upload_chunk_tidy:
  assumes "handle_chunk E ch data w = Some w'" and "w_state w = UPLOADING" and "live (w_session w)"
  shows "tidy w w'"
proof -
  consider (send) "ch_flags ch = flag_SEND" | (lst) "ch_flags ch \<noteq> flag_SEND" "ch_flags ch = flag_LAST"
    | (error) "ch_flags ch \<noteq> flag_SEND" "ch_flags ch \<noteq> flag_LAST" "ch_flags ch = flag_ERROR"
    | (leave) "ch_flags ch \<noteq> flag_SEND" "ch_flags ch \<noteq> flag_LAST" "ch_flags ch \<noteq> flag_ERROR" "ch_flags ch = flag_EXIT"
    | (other) "ch_flags ch \<noteq> flag_SEND" "ch_flags ch \<noteq> flag_LAST" "ch_flags ch \<noteq> flag_ERROR" "ch_flags ch \<noteq> flag_EXIT"
    by blast
  then show ?thesis
  proof cases
    case send
    with assms obtain ok where "valid_chunk E w (ch_index ch) (ch_size ch) data = Some ok"
      and "(if ok then init_if_new E (ch_transfer_id ch) w \<bind> uploading E (ch_index ch) (ch_size ch) data flag_OK
            else upload_abort E False True flag_CHUNK_MISMATCH w) = Some w'"
      by (auto simp: handle_chunk_def split: Option.bind_splits)
    then show ?thesis using assms(2)
      by (auto split: if_splits Option.bind_splits intro: init_then_upload released_tidy dest: upload_abort_released)
  next
    case lst
    with assms obtain w1 ok where w1: "init_if_new E (ch_transfer_id ch) w = Some w1"
      and ok: "valid_chunk E w1 (ch_index ch) (ch_size ch) data = Some ok"
      and k: "(if ok then uploading E (ch_index ch) (ch_size ch) data flag_DONE w1
            else upload_abort E False True flag_CHUNK_MISMATCH w1) = Some w'"
      by (auto simp: handle_chunk_def split: Option.bind_splits)
    have v: "view w1 = view w" using init_if_new_cases [OF w1] ok by (auto simp: no_transfer_fails)
    show ?thesis
      using k init_then_upload [OF w1] assms(2) upload_abort_released [of E False True flag_CHUNK_MISMATCH w1 w'] v
      by (auto simp: released_view [OF v] intro: released_tidy split: if_splits)
  next
    case error
    then show ?thesis using assms by (auto simp: handle_chunk_def intro: released_tidy upload_abort_released)
  next
    case leave
    then have "upload_abort E True False flag_EXIT w \<bind> exit_session E = Some w'"
      using assms by (simp add: handle_chunk_def)
    from released_tidy [OF leave_released [OF this assms(3)]] show ?thesis .
  next
    case other
    then show ?thesis using assms by (auto simp: handle_chunk_def tidy_def holding_states_def)
  qed
qed

lemma download_chunk_tidy:
  assumes "handle_chunk E ch data w = Some w'" and "w_state w = DOWNLOADING" and "live (w_session w)"
  shows "tidy w w'"
proof -
  define t where "t = se_transfer (w_session w)"
  define t1 where "t1 = t\<lparr>at_chunk_state := (at_chunk_state t)[unat (ch_index ch) := True]\<rparr>"
  note k = assms(1) [unfolded handle_chunk_def Let_def, folded t_def, folded t1_def]
  show ?thesis
  proof (cases "ch_flags ch = flag_EXIT")
    case True
    then have "upload_abort E True False flag_EXIT w \<bind> exit_session E = Some w'" using k assms(2) by simp
    from released_tidy [OF leave_released [OF this assms(3)]] show ?thesis .
  next
    case False
    then show ?thesis using k assms(2)
      by (auto simp: tidy_def holding_states_def released_def split: if_splits Option.bind_splits
          dest!: download_abort_released download_done_released quietlyD [OF pm_mark_quiet] quietlyD [OF downloading_quiet])
  qed
qed

lemma handle_chunk_tidy:
  assumes "handle_chunk E ch data w = Some w'" and "w_state w \<in> {UPLOADING, DOWNLOADING}" and "live (w_session w)"
  shows "tidy w w'"
  using assms upload_chunk_tidy download_chunk_tidy by blast

section \<open>Handlers of requests\<close>

text \<open>The storage calls that the handlers make beside those of the lock.\<close>

lemma sto_set_class_locks: "sto_set_class E st u c = Some (b, st') \<Longrightarrow> sto_user_lock st' = sto_user_lock st"
  by (auto simp: sto_set_class_def split: prod.splits bool.splits)

lemma get_user_tier_locks: "get_user_tier E st u = Some (n, st') \<Longrightarrow> sto_user_lock st' = sto_user_lock st"
  by (auto simp: get_user_tier_def Let_def split: if_splits option.splits list.splits dest!: sto_set_class_locks)

lemma get_user_root_locks: "get_user_root E st u = Some (p, st') \<Longrightarrow> sto_user_lock st' = sto_user_lock st"
  by (auto simp: get_user_root_def split: if_splits dest: get_user_tier_locks)

lemma add_partmeta_locks: "add_partmeta E st u f = Some (p, st') \<Longrightarrow> sto_user_lock st' = sto_user_lock st"
  by (auto simp: add_partmeta_def split: prod.splits option.splits)

lemma get_partmeta_locks: "get_partmeta E st u = Some (p, st') \<Longrightarrow> sto_user_lock st' = sto_user_lock st"
  by (auto simp: get_partmeta_def split: if_splits option.splits Option.bind_splits
      dest!: add_partmeta_locks get_user_root_locks sto_user_exists_frame)

lemma migrate_user_locks: "sto_user_lock (snd (migrate_user E st u a b)) = sto_user_lock st"
  by (auto simp: migrate_user_def Let_def invalidate_partmeta_def split: prod.splits bool.splits option.splits)

lemma migrate_locksD: "migrate_user E st u a b = (r, st') \<Longrightarrow> sto_user_lock st' = sto_user_lock st"
  using migrate_user_locks [of E st u a b] by simp

lemma sto_validate_locks: "sto_validate_user E st u p = Some (b, st') \<Longrightarrow> sto_user_lock st' = sto_user_lock st"
  by (auto simp: sto_validate_user_def)

lemma sto_add_user_locks: "sto_add_user E st u p c = Some st' \<Longrightarrow> sto_user_lock st' = sto_user_lock st"
  by (auto simp: sto_add_user_def split: prod.splits bool.splits)

lemmas storage_locks = sto_set_class_locks get_user_tier_locks get_user_root_locks get_partmeta_locks
  sto_validate_locks sto_add_user_locks

lemma enter_home_quiet:
  "enter_home E home w = Some (b, w') \<Longrightarrow> view w' = view w \<and> w_state w' = w_state w"
  by (auto simp: enter_home_def Let_def view_def live_def locked_def set_disk_def dest!: get_partmeta_locks)

lemma setup_dir_quiet:
  "setup_dir E w = Some (b, w') \<Longrightarrow> view w' = view w \<and> w_state w' = w_state w"
  by (auto simp: setup_dir_def Let_def view_storage split: if_splits Option.bind_splits
      dest!: enter_home_quiet get_user_root_locks)


text \<open>A step between states that do not keep the lock, which changes no lock.\<close>

definition idle :: "world \<Rightarrow> world \<Rightarrow> bool" where
  "idle w w' \<longleftrightarrow> w_state w' \<in> free_states \<and> locked (w_storage w') = locked (w_storage w) \<and>
     live (w_session w') = live (w_session w)"

lemma idle_view: "view w' = view w \<Longrightarrow> w_state w' \<in> free_states \<Longrightarrow> idle w w'"
  by (simp add: idle_def view_def)

lemma view_idle: "view v = view w \<Longrightarrow> idle v w' \<longleftrightarrow> idle w w'"
  by (simp add: idle_def view_def)

text \<open>Taking the lock.\<close>

definition takes :: "world \<Rightarrow> world \<Rightarrow> bool" where
  "takes w w' \<longleftrightarrow> w_state w' \<in> holding_states \<and> w_user w \<notin> locked (w_storage w) \<and>
     view w' = (insert (w_user w) (locked (w_storage w)), w_user w, live (w_session w))"

definition takes_or_idles :: "(world \<Rightarrow> world option) \<Rightarrow> bool" where
  "takes_or_idles k \<longleftrightarrow> (\<forall>w w'. k w = Some w' \<longrightarrow> w_state w \<in> free_states \<longrightarrow>
     live (w_session w) \<longrightarrow> idle w w' \<or> takes w w')"

lemma locked_body:
  assumes got: "try_acquire_user_lock E (w_storage w) (w_user w) = Some (True, st)" and "tidy (w\<lparr>w_storage := st\<rparr>) w'"
  shows "idle w w' \<or> takes w w'"
proof -
  have v: "view (w\<lparr>w_storage := st\<rparr>) = (insert (w_user w) (locked (w_storage w)), w_user w, live (w_session w))"
    "w_user w \<notin> locked (w_storage w)"
    using lock.acquired [OF got] by (simp_all add: view_def)
  from assms(2) show ?thesis unfolding tidy_def
  proof
    assume "w_state w' \<in> holding_states \<and> view w' = view (w\<lparr>w_storage := st\<rparr>)"
    then show ?thesis using v by (simp add: takes_def)
  next
    assume "released (w\<lparr>w_storage := st\<rparr>) w'"
    then have "view w' = view w" "w_state w' \<in> free_states"
      using v by (auto simp: released_def give_back_def view_def)
    then show ?thesis by (simp add: idle_view)
  qed
qed

lemma takes_or_idles_with_lock:
  assumes "\<And>w w'. k w = Some w' \<Longrightarrow> w_state w \<in> free_states \<Longrightarrow> tidy w w'"
  shows "takes_or_idles (\<lambda>w. with_lock E w k)"
  unfolding takes_or_idles_def
proof (intro allI impI)
  fix w w' assume "with_lock E w k = Some w'" and free: "w_state w \<in> free_states"
  then show "idle w w' \<or> takes w w'"
  proof (cases rule: with_lock_cases)
    case (busy st)
    then show ?thesis using free lock.refused [OF busy(1)] by (simp add: idle_view view_locked)
  next
    case (got st)
    then show ?thesis using assms free by (intro locked_body) auto
  qed
qed

lemma takes_or_idles_when_ready: "takes_or_idles k \<Longrightarrow> takes_or_idles (\<lambda>w. when_ready w k)"
  by (auto simp: takes_or_idles_def idle_view elim!: when_ready_cases)

lemma takes_or_idles_check: "takes_or_idles k \<Longrightarrow> takes_or_idles (\<lambda>w. if c then Some (err x y w) else k w)"
  by (simp add: takes_or_idles_def idle_view)

lemma takes_or_idlesI:
  "(\<And>w w'. k w = Some w' \<Longrightarrow> w_state w \<in> free_states \<Longrightarrow> live (w_session w) \<Longrightarrow> idle w w' \<or> takes w w') \<Longrightarrow>
   takes_or_idles k"
  by (simp add: takes_or_idles_def)

lemmas lock_guards = takes_or_idles_when_ready takes_or_idles_check takes_or_idles_with_lock

lemma tidy_err_unlock [simp]: "w_state w \<in> free_states \<Longrightarrow> tidy w (err_unlock c t w)"
  by (simp add: tidy_def released_def)

lemma tidy_unlock: "view w1 = view w \<Longrightarrow> w_state w1 \<in> free_states \<Longrightarrow> tidy w (unlock w1)"
  by (simp add: tidy_def released_def)

lemma tidy_finish_op [simp]: "w_state w \<in> free_states \<Longrightarrow> tidy w (finish_op r a b w)"
  by (cases r) (auto simp: finish_op_def tidy_def released_def split: bool.splits)

lemma two_path_flow: "takes_or_idles (two_path_cmd E oper a b req)"
  unfolding two_path_cmd_def by (intro lock_guards) (auto simp: Let_def split: if_splits)

lemma list_flow: "takes_or_idles (list_cmd E req)"
  unfolding list_cmd_def by (intro lock_guards) (auto simp: Let_def tidy_unlock split: if_splits)

lemma delete_flow: "takes_or_idles (delete_file_cmd E req)"
  unfolding delete_file_cmd_def by (intro lock_guards) (auto simp: Let_def split: if_splits)

lemma mkdir_flow: "takes_or_idles (mkdir_cmd E req)"
  unfolding mkdir_cmd_def by (intro lock_guards) (auto simp: Let_def split: if_splits)

lemma rmdir_flow: "takes_or_idles (rmdir_cmd E req)"
  unfolding rmdir_cmd_def by (intro lock_guards) (auto simp: Let_def split: if_splits)

lemma sync_flow: "takes_or_idles (sync_cmd E req)"
  unfolding sync_cmd_def by (intro lock_guards) (auto simp: Let_def tidy_unlock split: if_splits)

lemma cd_flow: "takes_or_idles (cd_cmd req)"
  unfolding cd_cmd_def
  by (intro takes_or_idles_when_ready takes_or_idlesI) (auto simp: Let_def idle_view split: if_splits)

lemma upload_flow: "takes_or_idles (upload_cmd E req)"
  unfolding upload_cmd_def
  by (intro lock_guards) (auto simp: Let_def tidy_def holding_states_def released_def split: if_splits)

lemma download_init_quiet: "quietly (download_init E)"
  by (auto simp: quietly_def download_init_def split: Option.bind_splits
      dest!: pm_add_quiet quietlyD [OF downloading_quiet])

lemma download_flow: "takes_or_idles (download_cmd E req)"
  unfolding download_cmd_def
  by (intro lock_guards) (auto simp: Let_def tidy_def holding_states_def released_def split: if_splits
      dest!: quietlyD [OF download_init_quiet])

lemma tiers_flow: "takes_or_idles (tiers_cmd E req)"
  unfolding tiers_cmd_def
  by (intro takes_or_idles_when_ready takes_or_idlesI)
    (auto simp: Let_def view_storage intro!: idle_view split: Option.bind_splits dest!: get_user_tier_locks)

lemma ask_set_tier_flow: "takes_or_idles (\<lambda>w. with_lock E w (ask_set_tier E cur name))"
  by (intro takes_or_idles_with_lock)
    (auto simp: ask_set_tier_def Let_def tidy_def holding_states_def split: prod.splits)

lemma flow_view:
  assumes "takes_or_idles k" and "k v = Some w'" and "view v = view w" and "w_state v \<in> free_states"
    and "live (w_session w)"
  shows "idle w w' \<or> takes w w'"
proof -
  have "idle v w' \<or> takes v w'" using assms(1,2,4,5) view_socket [OF assms(3)] by (simp add: takes_or_idles_def)
  then show ?thesis using assms(3) by (auto simp: idle_def takes_def view_def)
qed

lemma set_tier_flow: "takes_or_idles (set_tier_cmd E req)"
  unfolding set_tier_cmd_def
proof (intro takes_or_idles_when_ready takes_or_idlesI)
  fix w w' assume free: "w_state w \<in> free_states" and op: "live (w_session w)"
    and k: "(let name = req_first_argument req in
      if name = [] then Some (err BAD_REQUEST ''Tier name cannot be empty.'' w)
      else if w_user w = ''public''
      then Some (err FORBIDDEN ''Public mode has no storage tier. Log in with a username to change tiers.'' w)
      else if find_tier (w_storage w) name = None
      then Some (err NOT_FOUND (''Unknown storage tier '' @ quoted name @ ''. Use TIERS to see available media.'') w)
      else do {
        (current, st) \<leftarrow> get_user_tier E (w_storage w) (w_user w);
        let w2 = w\<lparr>w_storage := st\<rparr> in
        if current = name then Some (okay (''Already on tier '' @ quoted current @ ''.'') w2)
        else do {
          pm \<leftarrow> the_pm w2;
          if get_entries pm \<noteq> []
          then Some (err code_CONFLICT (''You have '' @ dec (length (get_entries pm)) @
                 '' unfinished transfer(s). Reconnect to finish or discard them before changing tier.'') w2)
          else with_lock E w2 (ask_set_tier E current name) } }) = Some w'"
  define P where "P \<longleftrightarrow> idle w w' \<or> takes w w'"
  have same: "view w' = view w \<Longrightarrow> w_state w' = w_state w \<Longrightarrow> P" using free by (simp add: P_def idle_view)
  have ask: P if "with_lock E v (ask_set_tier E cur name) = Some w'" "view v = view w" "w_state v = w_state w" for v cur name
    unfolding P_def using flow_view [OF ask_set_tier_flow that(1,2)] that(3) free op by simp
  have P
    using k
    by (auto simp: Let_def split: if_splits Option.bind_splits intro: same dest!: get_user_tier_locks)
      ((rule same, simp add: view_storage, simp) | (erule ask, simp_all add: view_storage))+
  then show "idle w w' \<or> takes w w'" by (simp add: P_def)
qed

lemma finish_set_tier_flow:
  assumes "finish_set_tier E w = Some w'"
  shows "released w w'"
proof -
  define w1 where "w1 = set_state READY (w\<lparr>w_session := (w_session w)\<lparr>se_pending_tier := []\<rparr>\<rparr>)"
  have v1: "view w1 = view w" "w_state w1 = READY" by (simp_all add: w1_def)
  show ?thesis
    using assms v1
    unfolding finish_set_tier_def Let_def w1_def [symmetric]
    by (auto simp: released_def view_storage split: if_splits Option.bind_splits option.splits prod.splits
        dest!: get_user_tier_locks sto_set_class_locks setup_dir_quiet migrate_locksD)
qed

lemma resume_transfer_flow:
  assumes "resume_transfer e w = Some w'"
  shows "view w' = view w \<and> w_state w' \<in> holding_states"
  using assms
  by (auto simp: resume_transfer_def Let_def holding_states_def split: if_splits Option.bind_splits
      dest!: quietlyD [OF downloading_quiet])

lemma pop_resume_quiet: "pop_resume w = Some (e, w') \<Longrightarrow> view w' = view w \<and> w_state w' = w_state w"
  by (auto simp: pop_resume_def split: list.splits)

lemma resumes_quiet: "handle_resumes w = Some w' \<Longrightarrow>
    view w' = view w \<and> w_state w' \<in> {w_state w, READY, NEED_INPUT_RESUME_TREANSFER}"
  using handle_resumes_view(1,2) by blast

lemma resumes_idle: "handle_resumes w = Some w' \<Longrightarrow> w_state w \<in> free_states \<Longrightarrow> idle w w'"
  using handle_resumes_view(1,2) [of w w'] by (auto intro!: idle_view)


lemma resume_flow:
  assumes k: "need_input_resume E req w = Some w'" and free: "w_state w \<in> free_states"
  shows "idle w w' \<or> takes w w'"
proof -
  consider (yes) "req_first_argument req = ''y''" | (no) "req_first_argument req = ''n''"
    | (bad) "req_first_argument req \<noteq> ''y''" "req_first_argument req \<noteq> ''n''" by blast
  then show ?thesis
  proof cases
    case yes
    with k obtain e w1 b st where p: "pop_resume w = Some (e, w1)"
      and l: "try_acquire_user_lock E (w_storage w1) (w_user w1) = Some (b, st)"
      and r: "(if \<not> b
        then handle_resumes (err SERVICE_UNAVAILABLE (''Server is busy, skipping '' @ type_to_string (pe_type e) @
               '' of '' @ rel_name (w1\<lparr>w_storage := st\<rparr>) (se_user_dir (w_session (w1\<lparr>w_storage := st\<rparr>))) (pe_absolute_path e))
                (w1\<lparr>w_storage := st\<rparr>))
        else resume_transfer e (w1\<lparr>w_storage := st\<rparr>)) = Some w'"
      by (auto simp: need_input_resume_def Let_def split: Option.bind_splits)
    have w1: "view w1 = view w" "w_state w1 \<in> free_states" using pop_resume_quiet [OF p] free by simp_all
    show ?thesis
    proof (cases b)
      case True
      then have "tidy (w1\<lparr>w_storage := st\<rparr>) w'" using resume_transfer_flow [of e _ w'] r by (simp add: tidy_def)
      then have "idle w1 w' \<or> takes w1 w'" using locked_body [of E w1 st w'] l True by simp
      then show ?thesis using w1(1) by (auto simp: idle_def takes_def view_def)
    next
      case False
      then have "view (w1\<lparr>w_storage := st\<rparr>) = view w1" using lock.refused [of E "w_storage w1" "w_user w1" st] l by (simp add: view_locked)
      then show ?thesis using handle_resumes_view(1,2) r False w1 by (fastforce intro!: idle_view)
    qed
  next
    case no
    with k obtain e w1 pm w2 where "pop_resume w = Some (e, w1)"
      and "pm_delete E (pe_id e) (set_disk (snd (remove_file (w_disk w1) (get_partial_path (w_disk w1) pm (pe_id e)))) w1) = Some w2"
      and r: "handle_resumes w2 = Some w'"
      by (auto simp: need_input_resume_def split: Option.bind_splits)
    then have "view w2 = view w" "w_state w2 \<in> free_states"
      using free by (auto dest!: pop_resume_quiet quietlyD [OF pm_delete_quiet])
    then show ?thesis using handle_resumes_view(1,2) [OF r] by (auto intro!: idle_view)
  next
    case bad
    then show ?thesis using k free by (auto simp: need_input_resume_def idle_view)
  qed
qed

lemma set_username_idle: "idle (set_username u w) w' \<longleftrightarrow> idle w w'"
  by (simp add: idle_def set_username_def live_def)

lemma public_mode_idle:
  assumes "public_mode E msg w = Some w'" and "w_state w \<in> free_states"
  shows "idle w w'"
proof -
  from assms(1) obtain b w1 where "setup_dir E (set_username ''public'' w) = Some (b, w1)"
    and "w' = (if b then set_state READY (okay msg w1) else w1)"
    by (auto simp: public_mode_def split: Option.bind_splits)
  then have "idle (set_username ''public'' w) w'"
    using assms(2) setup_dir_quiet by (auto intro!: idle_view)
  then show ?thesis by (simp add: set_username_idle)
qed

lemma login_idle:
  assumes "login_cmd E req w = Some w'" and "w_state w \<in> free_states"
  shows "idle w w'"
proof -
  have user: "idle w (set_state s (reply a c m ((set_username u w)\<lparr>w_storage := st\<rparr>)))"
    if "sto_user_exists E (w_storage w) x = Some (b, st)" "s \<in> free_states" for s a c m u st x b
  proof -
    have "view ((set_username u w)\<lparr>w_storage := st\<rparr>) = view (set_username u w)"
      using sto_user_exists_frame [OF that(1)] by (intro view_storage) simp
    then have "idle (set_username u w) (set_state s (reply a c m ((set_username u w)\<lparr>w_storage := st\<rparr>)))"
      using that(2) by (intro idle_view) simp_all
    then show ?thesis by (simp add: set_username_idle)
  qed
  show ?thesis
    using assms
    by (auto simp: login_cmd_def Let_def user split: if_splits intro: public_mode_idle idle_view)
qed

lemma auth_idle:
  assumes "auth_cmd E req w = Some w'" and "w_state w \<in> free_states"
  shows "idle w w'"
proof -
  have "view w' = view w \<and> w_state w' \<in> free_states"
    using assms
    by (auto simp: auth_cmd_def Let_def view_storage split: if_splits Option.bind_splits
        dest!: sto_user_exists_frame sto_validate_locks sto_add_user_locks setup_dir_quiet resumes_quiet)
  then show ?thesis by (simp add: idle_view)
qed

lemma need_input_free:
  assumes "need_input_cmd E req w = Some w'" and "w_state w \<in> free_states"
  shows "idle w w' \<or> takes w w'"
  using assms resume_flow [of E req w w']
  by (auto simp: need_input_cmd_def split: if_splits intro: public_mode_idle idle_view)

lemma need_input_held:
  assumes "need_input_cmd E req w = Some w'" and "w_state w = NEED_INPUT_SET_TIER"
  shows "tidy w w'"
  using assms finish_set_tier_flow [of E w w']
  by (auto simp: need_input_cmd_def tidy_def holding_states_def released_def split: if_splits)

lemma if_rule: "P x \<Longrightarrow> P y \<Longrightarrow> P (if b then x else y)"
  by simp

lemma execute_fun:
  "execute E req =
     (let c = req_cmd req
      in if c = ''EXIT'' then exit_session E
         else if c = ''LIST'' then list_cmd E req
         else if c = ''UPLOAD'' then upload_cmd E req
         else if c = ''DOWNLOAD'' then download_cmd E req
         else if c = ''DELETE'' then delete_file_cmd E req
         else if c = ''CD'' then cd_cmd req
         else if c = ''MKDIR'' then mkdir_cmd E req
         else if c = ''RMDIR'' then rmdir_cmd E req
         else if c = ''MOVE'' then move_cmd E req
         else if c = ''COPY'' then copy_cmd E req
         else if c = ''SYNC'' then sync_cmd E req
         else if c = ''TIERS'' then tiers_cmd E req
         else if c = ''SET_TIER'' then set_tier_cmd E req
         else if c = ''LOGIN'' then login_cmd E req
         else if c = ''NEED_INPUT'' then need_input_cmd E req
         else if c = ''AUTH'' then auth_cmd E req
         else (\<lambda>w. Some (err BAD_REQUEST ''Unknown request'' w)))"
  unfolding execute_def Let_def by (rule ext) (simp only: if_distribR cong: if_cong)

text \<open>What holds for every handler holds for the dispatcher.\<close>

lemma execute_rule:
  assumes "P (exit_session E)" "P (list_cmd E req)" "P (upload_cmd E req)" "P (download_cmd E req)"
    "P (delete_file_cmd E req)" "P (cd_cmd req)" "P (mkdir_cmd E req)" "P (rmdir_cmd E req)" "P (move_cmd E req)"
    "P (copy_cmd E req)" "P (sync_cmd E req)" "P (tiers_cmd E req)" "P (set_tier_cmd E req)" "P (login_cmd E req)"
    "P (need_input_cmd E req)" "P (auth_cmd E req)" "P (\<lambda>w. Some (err BAD_REQUEST ''Unknown request'' w))"
  shows "P (execute E req)"
  unfolding execute_fun Let_def by (intro if_rule [of P] assms)

lemma execute_flow: "takes_or_idles (execute E req)"
proof (rule execute_rule)
  show "takes_or_idles (exit_session E)"
    by (rule takes_or_idlesI) (auto intro!: idle_view dest!: exit_session_quiet)
  show "takes_or_idles (login_cmd E req)" "takes_or_idles (auth_cmd E req)" "takes_or_idles (need_input_cmd E req)"
    by (auto simp: takes_or_idles_def dest: login_idle auth_idle need_input_free)
  show "takes_or_idles (\<lambda>w. Some (err BAD_REQUEST ''Unknown request'' w))"
    by (rule takes_or_idlesI) (auto intro!: idle_view)
qed (simp_all add: move_cmd_def copy_cmd_def two_path_flow list_flow upload_flow download_flow delete_flow cd_flow
    mkdir_flow rmdir_flow sync_flow tiers_flow set_tier_flow)

text \<open>The same for a session that waits for the confirmation of a tier change.\<close>

definition tidy_question :: "(world \<Rightarrow> world option) \<Rightarrow> bool" where
  "tidy_question k \<longleftrightarrow> (\<forall>w w'. k w = Some w' \<longrightarrow> w_state w = NEED_INPUT_SET_TIER \<longrightarrow> live (w_session w) \<longrightarrow> tidy w w')"

lemma tidy_stay: "view w' = view w \<Longrightarrow> w_state w' = w_state w \<Longrightarrow> w_state w \<in> holding_states \<Longrightarrow> tidy w w'"
  by (simp add: tidy_def)

lemma question_when_ready: "tidy_question (\<lambda>w. when_ready w k)"
  by (auto simp: tidy_question_def when_ready_def holding_states_def intro!: tidy_stay)

lemma execute_question: "tidy_question (execute E req)"
proof (rule execute_rule)
  show "tidy_question (exit_session E)"
    by (auto simp: tidy_question_def holding_states_def intro!: tidy_stay dest!: exit_session_quiet)
  show "tidy_question (login_cmd E req)" "tidy_question (auth_cmd E req)"
    "tidy_question (\<lambda>w. Some (err BAD_REQUEST ''Unknown request'' w))"
    by (auto simp: tidy_question_def login_cmd_def auth_cmd_def holding_states_def intro!: tidy_stay)
  show "tidy_question (need_input_cmd E req)"
    by (auto simp: tidy_question_def intro: need_input_held)
qed (simp_all only: move_cmd_def copy_cmd_def two_path_cmd_def list_cmd_def upload_cmd_def download_cmd_def delete_file_cmd_def
    cd_cmd_def mkdir_cmd_def rmdir_cmd_def sync_cmd_def tiers_cmd_def set_tier_cmd_def question_when_ready)

section \<open>One step of a session\<close>

text \<open>The lock a session owes to the others: its own while it is in a state that keeps it.\<close>

definition held :: "Session \<Rightarrow> string set" where
  "held se = (if se_state se \<in> holding_states then {se_username se} else {})"

definition working :: "world \<Rightarrow> bool" where
  "working w \<longleftrightarrow> live (w_session w) \<and> w_state w \<noteq> EXIT \<and> held (w_session w) \<subseteq> locked (w_storage w)"

definition lock_step :: "world \<Rightarrow> world \<Rightarrow> bool" where
  "lock_step w w' \<longleftrightarrow> working w' \<and>
     locked (w_storage w') - held (w_session w') = locked (w_storage w) - held (w_session w)"

lemma free_not_holding: "s \<in> free_states \<Longrightarrow> s \<notin> holding_states"
  by (simp add: free_states_def)

lemma idle_step: "idle w w' \<Longrightarrow> working w \<Longrightarrow> w_state w \<in> free_states \<Longrightarrow> lock_step w w'"
  by (auto simp: idle_def lock_step_def working_def held_def free_not_holding)

lemma takes_step: "takes w w' \<Longrightarrow> working w \<Longrightarrow> w_state w \<in> free_states \<Longrightarrow> lock_step w w'"
  by (auto simp: takes_def lock_step_def working_def held_def free_not_holding view_def holding_states_def)

lemma tidy_session_step:
  assumes "tidy w w'" and "working w" and "w_state w \<in> holding_states"
  shows "lock_step w w'"
proof (cases "w_state w' \<in> holding_states")
  case True
  then have "view w' = view w" using assms(1) by (auto simp: tidy_def released_def dest: free_not_holding)
  then show ?thesis
    using assms True by (auto simp: view_def lock_step_def working_def held_def holding_states_def)
next
  case False
  then have "view w' = give_back (view w)" "w_state w' \<in> free_states" using assms(1) by (auto simp: tidy_def released_def)
  then show ?thesis
    using assms(2,3) False by (auto simp: view_def give_back_def lock_step_def working_def held_def free_states_def)
qed

lemma execute_step:
  assumes "execute E req w = Some w'" and "working w" and "w_state w \<notin> {UPLOADING, DOWNLOADING}"
  shows "lock_step w w'"
proof (cases "w_state w = NEED_INPUT_SET_TIER")
  case True
  then have "tidy w w'" using assms execute_question [of E req] by (simp add: tidy_question_def working_def)
  then show ?thesis using assms(2) True by (intro tidy_session_step) (simp_all add: holding_states_def)
next
  case False
  then have free: "w_state w \<in> free_states" using assms(2,3) by (simp add: free_states_def holding_states_def working_def)
  then have "idle w w' \<or> takes w w'" using assms execute_flow [of E req] by (simp add: takes_or_idles_def working_def)
  then show ?thesis using idle_step takes_step assms(2) free by blast
qed

lemma handle_chunk_step:
  assumes "handle_chunk E ch data w = Some w'" and "working w" and "w_state w \<in> {UPLOADING, DOWNLOADING}"
  shows "lock_step w w'"
proof -
  have "tidy w w'" using assms by (intro handle_chunk_tidy) (auto simp: working_def)
  then show ?thesis using assms by (intro tidy_session_step) (auto simp: holding_states_def)
qed

lemma exit_step:
  assumes "exit_session E w = Some w'" and "working w"
  shows "lock_step w w'"
proof -
  have "view w' = view w" "w_state w' = w_state w"
    using exit_session_quiet [OF assms(1)] assms(2) by (simp_all add: working_def)
  then show ?thesis using assms(2) by (auto simp: lock_step_def working_def held_def view_def split: if_splits)
qed

end
