(* ===== verification/Server.thy ===== *)
theory Server
  imports LockFlow
begin

text \<open>
  \<^verbatim>\<open>Server\<close> (\<^verbatim>\<open>server/src/server.cpp\<close>) and what asio does with it: the sessions of all connections over
  one storage. The object identity of a session is a number. An event is the completion of one
  asynchronous operation; its handler runs to the end before the next one. \<^verbatim>\<open>None\<close> stands for an
  event that cannot happen in this state, or for an exception that ends the process.
\<close>

section \<open>State and operations\<close>

record Server =
  srv_storage :: Storage
  srv_sessions :: "(nat \<times> Session) list"
  srv_next :: nat
  srv_exit :: bool
  srv_acceptor_open :: bool
  srv_accepting :: bool

definition new_server :: "disk \<Rightarrow> StorageConfig \<Rightarrow> Server" where
  "new_server d cfg = \<lparr>srv_storage = new_storage d cfg, srv_sessions = [], srv_next = 0, srv_exit = False,
     srv_acceptor_open = True, srv_accepting = False\<rparr>"

text \<open>\<^verbatim>\<open>accept\<close> starts one asynchronous accept.\<close>

definition accept :: "Server \<Rightarrow> Server" where
  "accept s = s\<lparr>srv_accepting := True\<rparr>"

definition server_start :: "'j env \<Rightarrow> Server \<Rightarrow> Server option" where
  "server_start E s = map_option (\<lambda>st. accept (s\<lparr>srv_storage := st\<rparr>)) (storage_setup E (srv_storage s))"

definition add_session :: "Session \<Rightarrow> Server \<Rightarrow> Server" where
  "add_session se s = s\<lparr>srv_sessions := AList.update (srv_next s) se (srv_sessions s), srv_next := Suc (srv_next s)\<rparr>"

definition remove_session :: "nat \<Rightarrow> Server \<Rightarrow> Server" where
  "remove_session i s = s\<lparr>srv_sessions := AList.delete i (srv_sessions s)\<rparr>"

text \<open>The handler of an accept: the new session waits for its first request.\<close>

definition on_accept :: "bool \<Rightarrow> Server \<Rightarrow> Server" where
  "on_accept ok s =
     (let s1 = (if ok then add_session new_session s else s); s2 = s1\<lparr>srv_accepting := False\<rparr>
      in if srv_exit s2 then s2 else accept s2)"

text \<open>A handler of session \<^verbatim>\<open>i\<close>; \<^verbatim>\<open>finish_exit\<close> ends with the callback that removes the session.\<close>

definition world_of :: "Server \<Rightarrow> Session \<Rightarrow> world" where
  "world_of s se = \<lparr>w_storage = srv_storage s, w_session = se\<rparr>"

definition put_session :: "nat \<Rightarrow> world \<Rightarrow> Server \<Rightarrow> Server" where
  "put_session i w s =
     (let s1 = s\<lparr>srv_storage := w_storage w\<rparr>
      in if w_state w = EXIT then remove_session i s1
         else s1\<lparr>srv_sessions := AList.update i (w_session w) (srv_sessions s1)\<rparr>)"

definition in_session :: "nat \<Rightarrow> (world \<Rightarrow> world option) \<Rightarrow> Server \<Rightarrow> Server option" where
  "in_session i k s = do {
     se \<leftarrow> map_of (srv_sessions s) i;
     w \<leftarrow> k (world_of s se);
     Some (put_session i w s) }"

text \<open>The loop of \<^verbatim>\<open>exit_all_sessions\<close> over the copy of the set.\<close>

fun exit_each :: "'j env \<Rightarrow> nat list \<Rightarrow> Server \<Rightarrow> Server option" where
  "exit_each E [] s = Some s"
| "exit_each E (i # is) s = in_session i (exit_session E) s \<bind> exit_each E is"

definition exit_all_sessions :: "'j env \<Rightarrow> Server \<Rightarrow> Server option" where
  "exit_all_sessions E s =
     (let s1 = s\<lparr>srv_exit := True, srv_acceptor_open := False\<rparr>
      in exit_each E (map fst (srv_sessions s1)) s1)"

section \<open>Events\<close>

datatype 'j event =
    Accepted | Accept_failed | Got_request nat 'j | Got_chunk nat ChunkHeader bytes
  | Failed nat | Wrote_last nat | Signal

text \<open>A message reaches the session only when it reads that kind of message.\<close>

definition when_reading :: "expected \<Rightarrow> (world \<Rightarrow> world option) \<Rightarrow> world \<Rightarrow> world option" where
  "when_reading x k w = (if read_next w = x then k w else None)"

definition when_closing :: "world \<Rightarrow> world option" where
  "when_closing w = (if se_closing (w_session w) then Some (finish_exit w) else None)"

fun server_step :: "'j env \<Rightarrow> 'j event \<Rightarrow> Server \<Rightarrow> Server option" where
  "server_step E Accepted s = (if srv_accepting s then Some (on_accept True s) else None)"
| "server_step E Accept_failed s = (if srv_accepting s then Some (on_accept False s) else None)"
| "server_step E (Got_request i j) s = in_session i (when_reading Expect_json (handle_request E j)) s"
| "server_step E (Got_chunk i ch data) s =
     (if length data = unat (ch_size ch) then in_session i (when_reading Expect_chunk (handle_chunk E ch data)) s else None)"
| "server_step E (Failed i) s = in_session i (handle_error E) s"
| "server_step E (Wrote_last i) s = in_session i when_closing s"
| "server_step E Signal s = exit_all_sessions E s"

section \<open>Who holds which lock\<close>

definition owed :: "Server \<Rightarrow> nat \<Rightarrow> string set" where
  "owed s i = (case map_of (srv_sessions s) i of None \<Rightarrow> {} | Some se \<Rightarrow> held se)"

text \<open>A family of disjoint sets that cover a set, and its change at one place.\<close>

definition shares :: "'a set \<Rightarrow> ('i \<Rightarrow> 'a set) \<Rightarrow> bool" where
  "shares L f \<longleftrightarrow> L = (\<Union>i. f i) \<and> (\<forall>i j. i \<noteq> j \<longrightarrow> f i \<inter> f j = {})"

lemma shares_update:
  assumes "shares L f" and "X \<subseteq> L'" and "L' - X = L - f i"
  shows "shares L' (f(i := X))"
proof -
  have others: "L - f i = (\<Union>j\<in>-{i}. f j)" using assms(1) unfolding shares_def by blast
  have "L' = X \<union> (\<Union>j\<in>-{i}. f j)" and dis: "X \<inter> (\<Union>j\<in>-{i}. f j) = {}"
    using assms(2,3) others by blast+
  then have "L' = (\<Union>j. (f(i := X)) j)" by (auto simp: fun_upd_def)
  moreover have "(f(i := X)) j \<inter> (f(i := X)) k = {}" if "j \<noteq> k" for j k
    using that dis assms(1) unfolding shares_def by (cases "j = i"; cases "k = i") auto
  ultimately show ?thesis by (simp add: shares_def)
qed

lemma shares_less: "shares L f \<Longrightarrow> i \<noteq> j \<Longrightarrow> x \<in> f i \<Longrightarrow> x \<notin> f j"
  unfolding shares_def by blast

definition server_inv :: "Server \<Rightarrow> bool" where
  "server_inv s \<longleftrightarrow> shares (locked (srv_storage s)) (owed s) \<and>
     (\<forall>i se. map_of (srv_sessions s) i = Some se \<longrightarrow> live se \<and> se_state se \<noteq> EXIT \<and> i < srv_next s)"

lemma owed_iff: "x \<in> owed s i \<longleftrightarrow>
    (\<exists>se. map_of (srv_sessions s) i = Some se \<and> se_state se \<in> holding_states \<and> x = se_username se)"
  by (auto simp: owed_def held_def split: option.splits)

lemma owed_users: "owed s i \<subseteq> se_username ` ran (map_of (srv_sessions s))"
  by (force simp: owed_iff ran_def)

lemma server_inv_working:
  assumes "server_inv s" and "map_of (srv_sessions s) i = Some se"
  shows "working (world_of s se)"
proof -
  have "owed s i = held se" using assms(2) by (simp add: owed_def)
  then have "held se \<subseteq> (\<Union>i. owed s i)" by blast
  then show ?thesis using assms by (auto simp: server_inv_def working_def world_of_def shares_def)
qed

lemma owed_put: "w_state w \<noteq> EXIT \<Longrightarrow> owed (put_session i w s) = (owed s)(i := held (w_session w))"
  by (auto simp: owed_def put_session_def Let_def update_conv' fun_eq_iff)

lemma put_session_inv:
  assumes inv: "server_inv s" and i: "map_of (srv_sessions s) i = Some se" and st: "lock_step (world_of s se) w"
  shows "server_inv (put_session i w s)"
proof -
  have w: "live (w_session w)" "w_state w \<noteq> EXIT" "held (w_session w) \<subseteq> locked (w_storage w)"
    "locked (w_storage w) - held (w_session w) = locked (srv_storage s) - held se"
    using st by (auto simp: lock_step_def working_def world_of_def)
  have "owed s i = held se" using i by (simp add: owed_def)
  then have "shares (locked (w_storage w)) (owed (put_session i w s))"
    unfolding owed_put [OF w(2)] using inv w(3,4) by (intro shares_update) (auto simp: server_inv_def)
  then show ?thesis using inv i w(1,2) by (auto simp: server_inv_def put_session_def Let_def update_conv' split: if_splits)
qed

lemma in_session_inv:
  assumes "in_session i k s = Some s'" and "server_inv s"
    and "\<And>w w'. k w = Some w' \<Longrightarrow> working w \<Longrightarrow> lock_step w w'"
  shows "server_inv s'"
proof -
  from assms(1) obtain se w where se: "map_of (srv_sessions s) i = Some se" and k: "k (world_of s se) = Some w"
    and s': "s' = put_session i w s" by (auto simp: in_session_def split: Option.bind_splits)
  from assms(3) [OF k server_inv_working [OF assms(2) se]] show ?thesis
    unfolding s' using assms(2) se by (rule put_session_inv [rotated 2])
qed


text \<open>
  The end of a session is considerate when it does not give back a lock that another session needs:
  \<^verbatim>\<open>finish_exit\<close> releases the lock of the user whether or not this session took it.
\<close>

fun considerate :: "'j event \<Rightarrow> Server \<Rightarrow> bool" where
  "considerate (Wrote_last i) s =
     (case map_of (srv_sessions s) i of None \<Rightarrow> True
      | Some se \<Rightarrow> se_state se \<in> holding_states \<or> map_of (sto_user_lock (srv_storage s)) (se_username se) \<noteq> Some True)"
| "considerate _ s = True"

lemma finish_exit_frame:
  "w_state (finish_exit w) = EXIT" "locked (w_storage (finish_exit w)) = locked (w_storage w) - {w_user w}"
  by (simp_all add: finish_exit_def Let_def unlock_def)

lemma wrote_last_inv:
  assumes "server_inv s" and "in_session i when_closing s = Some s'" and "considerate (Wrote_last i) s"
  shows "server_inv s'"
proof -
  from assms(2) obtain se where se: "map_of (srv_sessions s) i = Some se"
    and s': "s' = put_session i (finish_exit (world_of s se)) s"
    by (auto simp: in_session_def when_closing_def split: Option.bind_splits if_splits)
  have st: "locked (srv_storage s') = locked (srv_storage s) - {se_username se}"
    using finish_exit_frame [of "world_of s se"] by (simp add: s' put_session_def Let_def remove_session_def world_of_def)
  have sess: "map_of (srv_sessions s') = (map_of (srv_sessions s))(i := None)" "srv_next s' = srv_next s"
    using finish_exit_frame [of "world_of s se"] by (simp_all add: s' put_session_def Let_def remove_session_def delete_conv')
  have polite: "se_state se \<in> holding_states \<or> se_username se \<notin> locked (srv_storage s)"
    using assms(3) se by (simp add: locked_def)
  have "owed s' = (owed s)(i := {})" by (auto simp: owed_def sess fun_eq_iff)
  moreover have "shares (locked (srv_storage s')) ((owed s)(i := {}))"
  proof (rule shares_update)
    show "shares (locked (srv_storage s)) (owed s)" using assms(1) by (simp add: server_inv_def)
    show "locked (srv_storage s') - {} = locked (srv_storage s) - owed s i"
      using polite se by (auto simp: st owed_def held_def)
  qed simp
  ultimately show ?thesis using assms(1) by (auto simp: server_inv_def sess)
qed

lemma on_accept_inv:
  assumes "server_inv s"
  shows "server_inv (on_accept ok s)"
proof -
  have fresh: "map_of (srv_sessions s) (srv_next s) = None"
    using assms by (cases "map_of (srv_sessions s) (srv_next s)") (auto simp: server_inv_def)
  have sess: "map_of (srv_sessions (on_accept ok s)) =
      (if ok then (map_of (srv_sessions s))(srv_next s \<mapsto> new_session) else map_of (srv_sessions s))"
    "srv_next (on_accept ok s) = (if ok then Suc (srv_next s) else srv_next s)"
    "srv_storage (on_accept ok s) = srv_storage s"
    by (simp_all add: on_accept_def accept_def add_session_def Let_def update_conv')
  have "owed (on_accept ok s) = owed s"
    using fresh by (auto simp: owed_def sess fun_eq_iff held_def new_session_def holding_states_def)
  then show ?thesis
    using assms by (auto simp: server_inv_def sess live_def new_session_def less_Suc_eq split: if_splits)
qed

lemma exit_one_inv: "in_session i (exit_session E) s = Some s' \<Longrightarrow> server_inv s \<Longrightarrow> server_inv s'"
  by (erule in_session_inv) (auto intro: exit_step)

lemma exit_each_inv: "exit_each E is s = Some s' \<Longrightarrow> server_inv s \<Longrightarrow> server_inv s'"
  by (induction "is" arbitrary: s) (auto split: Option.bind_splits dest: exit_one_inv)

lemma stop_accepting_inv: "server_inv (s\<lparr>srv_exit := True, srv_acceptor_open := False\<rparr>) = server_inv s"
proof -
  have "owed (s\<lparr>srv_exit := True, srv_acceptor_open := False\<rparr>) = owed s" by (simp add: owed_def fun_eq_iff)
  then show ?thesis by (simp add: server_inv_def)
qed

lemma exit_all_inv: "exit_all_sessions E s = Some s' \<Longrightarrow> server_inv s \<Longrightarrow> server_inv s'"
  unfolding exit_all_sessions_def Let_def by (erule exit_each_inv) (simp add: stop_accepting_inv)

lemma server_step_inv:
  assumes "server_step E ev s = Some s'" and "server_inv s" and "considerate ev s"
  shows "server_inv s'"
proof (cases ev)
  case (Got_request i j)
  with assms(1) have "in_session i (when_reading Expect_json (handle_request E j)) s = Some s'" by simp
  then show ?thesis using assms(2)
    by (rule in_session_inv)
      (auto simp: when_reading_def handle_request_def read_next_def split: if_splits Option.bind_splits intro: execute_step)
next
  case (Got_chunk i ch data)
  with assms(1) have "in_session i (when_reading Expect_chunk (handle_chunk E ch data)) s = Some s'"
    by (simp split: if_splits)
  then show ?thesis using assms(2)
    by (rule in_session_inv)
      (auto simp: when_reading_def read_next_def split: if_splits intro: handle_chunk_step)
next
  case (Failed i)
  with assms show ?thesis by (auto simp: handle_error_def intro: exit_step elim!: in_session_inv)
next
  case (Wrote_last i)
  with assms show ?thesis using wrote_last_inv by simp
next
  case Signal
  with assms show ?thesis using exit_all_inv by simp
qed (use assms in \<open>auto simp: on_accept_inv split: if_splits\<close>)

text \<open>
  The states a server can reach, on any disk and configuration, by a list of events. With
  \<^verbatim>\<open>polite\<close> only considerate events are taken.
\<close>

inductive reachable :: "bool \<Rightarrow> ('j env \<times> 'j event) list \<Rightarrow> Server \<Rightarrow> bool" for polite where
  started: "server_start (E :: 'j env) (new_server d cfg) = Some s \<Longrightarrow> reachable polite ([] :: ('j env \<times> 'j event) list) s"
| step: "reachable polite tr s \<Longrightarrow> server_step E ev s = Some s' \<Longrightarrow> (polite \<Longrightarrow> considerate ev s) \<Longrightarrow>
     reachable polite (tr @ [(E, ev)]) s'"

lemma storage_setup_locks: "storage_setup E st = Some st' \<Longrightarrow> sto_user_lock st' = sto_user_lock st"
  by (auto simp: storage_setup_def Let_def split: prod.splits option.splits)

lemma reachable_inv: "reachable True tr s \<Longrightarrow> server_inv s"
proof (induction rule: reachable.induct)
  case (started E d cfg s)
  then have "locked (srv_storage s) = {}" "srv_sessions s = []"
    by (auto simp: server_start_def new_server_def new_storage_def locked_def accept_def dest!: storage_setup_locks)
  then show ?case by (simp add: server_inv_def shares_def owed_def)
next
  case (step tr s E ev s')
  then show ?case using server_step_inv by blast
qed


text \<open>
  Property (C8). Mutual exclusion across sessions: as long as sessions end considerately, in every state
  the server can reach, the users whose lock is taken are exactly the users of the sessions that
  transfer a file or wait for a tier change to be confirmed, and no user has two such sessions.
  In particular no lock is ever leaked.
\<close>

theorem locks_match_sessions:
  assumes "reachable True tr s"
  shows "locked (srv_storage s) =
      {se_username se | i se. map_of (srv_sessions s) i = Some se \<and> se_state se \<in> holding_states} \<and>
    (\<forall>i j a b. map_of (srv_sessions s) i = Some a \<longrightarrow> map_of (srv_sessions s) j = Some b \<longrightarrow>
       se_state a \<in> holding_states \<longrightarrow> se_state b \<in> holding_states \<longrightarrow> se_username a = se_username b \<longrightarrow> i = j)"
proof -
  have sh: "shares (locked (srv_storage s)) (owed s)" using reachable_inv [OF assms] by (simp add: server_inv_def)
  have "(\<Union>i. owed s i) = {se_username se | i se. map_of (srv_sessions s) i = Some se \<and> se_state se \<in> holding_states}"
    unfolding set_eq_iff UN_iff owed_iff mem_Collect_eq by blast
  then have "locked (srv_storage s) =
      {se_username se | i se. map_of (srv_sessions s) i = Some se \<and> se_state se \<in> holding_states}"
    using sh by (simp only: shares_def)
  moreover have "i = j" if "map_of (srv_sessions s) i = Some a" "map_of (srv_sessions s) j = Some b"
      "se_state a \<in> holding_states" "se_state b \<in> holding_states" "se_username a = se_username b" for i j a b
  proof (rule ccontr)
    assume "i \<noteq> j"
    moreover have "se_username a \<in> owed s i" "se_username a \<in> owed s j"
      unfolding owed_iff using that by blast+
    ultimately show False using shares_less [OF sh] by blast
  qed
  ultimately show ?thesis by (intro conjI allI impI)
qed

text \<open>
  Property (C15). The exception the previous property makes is needed: while one session of a user
  transfers a file, the end of any other session under the same name, logged in or not, frees the
  lock although the transfer goes on.
\<close>

theorem ending_session_frees_lock:
  assumes "map_of (srv_sessions s) i = Some a" and "se_state a = UPLOADING" and "map_of (srv_sessions s) j = Some b"
    and "i \<noteq> j" and "se_username b = se_username a" and "se_closing b"
  shows "\<exists>s'. server_step E (Wrote_last j) s = Some s' \<and> map_of (srv_sessions s') i = Some a \<and>
    se_username a \<notin> locked (srv_storage s')"
  using assms finish_exit_frame [of "world_of s b"]
  by (auto simp: in_session_def when_closing_def world_of_def put_session_def remove_session_def Let_def delete_conv')

section \<open>Shutting down\<close>

text \<open>The completions of the last writes of the sessions, in any order.\<close>

fun drain :: "'j env \<Rightarrow> nat list \<Rightarrow> Server \<Rightarrow> Server option" where
  "drain E [] s = Some s"
| "drain E (i # is) s = server_step E (Wrote_last i) s \<bind> drain E is"


definition all_leaving :: "Server \<Rightarrow> nat set \<Rightarrow> bool" where
  "all_leaving s I \<longleftrightarrow> (\<forall>i\<in>I. \<forall>se. map_of (srv_sessions s) i = Some se \<longrightarrow> se_exiting se)"

lemma exit_one_leaves:
  assumes "in_session i (exit_session E) s = Some s'" and "server_inv s"
  shows "dom (map_of (srv_sessions s')) = dom (map_of (srv_sessions s))"
    and "all_leaving s I \<Longrightarrow> all_leaving s' (insert i I)"
proof -
  from assms(1) obtain se w where se: "map_of (srv_sessions s) i = Some se" and k: "exit_session E (world_of s se) = Some w"
    and s': "s' = put_session i w s" by (auto simp: in_session_def split: Option.bind_splits)
  have "w_state w \<noteq> EXIT"
    using exit_step [OF k server_inv_working [OF assms(2) se]] by (simp add: lock_step_def working_def)
  then have m: "map_of (srv_sessions s') = (map_of (srv_sessions s))(i \<mapsto> w_session w)"
    by (simp add: s' put_session_def Let_def update_conv')
  then show "dom (map_of (srv_sessions s')) = dom (map_of (srv_sessions s))" using se by auto
  show "all_leaving s' (insert i I)" if "all_leaving s I"
    using that exit_session_leaves [OF k] by (auto simp: all_leaving_def m)
qed

lemma exit_each_leaves:
  assumes "exit_each E is s = Some s'" and "server_inv s" and "all_leaving s I"
  shows "dom (map_of (srv_sessions s')) = dom (map_of (srv_sessions s)) \<and> all_leaving s' (set is \<union> I)"
  using assms
proof (induction "is" arbitrary: s I)
  case (Cons i "is")
  then obtain s1 where s1: "in_session i (exit_session E) s = Some s1" and r: "exit_each E is s1 = Some s'"
    by (auto split: Option.bind_splits)
  from Cons.IH [OF r exit_one_inv [OF s1 Cons.prems(2)] exit_one_leaves(2) [OF s1 Cons.prems(2,3)]]
    exit_one_leaves(1) [OF s1 Cons.prems(2)]
  show ?case by simp
qed simp

lemma drain_all:
  assumes "\<forall>i se. map_of (srv_sessions s) i = Some se \<longrightarrow> se_closing se" and "distinct is"
    and "set is = dom (map_of (srv_sessions s))" and "locked (srv_storage s) \<subseteq> se_username ` ran (map_of (srv_sessions s))"
  shows "\<exists>s'. drain E is s = Some s' \<and> srv_sessions s' = [] \<and> locked (srv_storage s') = {}"
  using assms
proof (induction "is" arbitrary: s)
  case Nil
  then have "srv_sessions s = []" by (simp add: dom_map_of_conv_image_fst)
  with Nil show ?case by simp
next
  case (Cons i "is")
  from Cons.prems(3) obtain se where se: "map_of (srv_sessions s) i = Some se" by auto
  define s1 where "s1 = put_session i (finish_exit (world_of s se)) s"
  have st: "server_step E (Wrote_last i) s = Some s1"
    using Cons.prems(1) se by (auto simp: in_session_def when_closing_def world_of_def s1_def)
  have m: "map_of (srv_sessions s1) = (map_of (srv_sessions s))(i := None)"
    and l: "locked (srv_storage s1) = locked (srv_storage s) - {se_username se}"
    using finish_exit_frame [of "world_of s se"]
    by (simp_all add: s1_def put_session_def Let_def remove_session_def delete_conv' world_of_def)
  have "locked (srv_storage s1) \<subseteq> se_username ` ran (map_of (srv_sessions s1))"
  proof
    fix u assume "u \<in> locked (srv_storage s1)"
    then obtain j b where "map_of (srv_sessions s) j = Some b" "u = se_username b" "u \<noteq> se_username se"
      using Cons.prems(4) l by (auto simp: ran_def)
    moreover from this se have "j \<noteq> i" by auto
    ultimately show "u \<in> se_username ` ran (map_of (srv_sessions s1))" by (auto simp: m ran_def)
  qed
  moreover have "\<forall>j b. map_of (srv_sessions s1) j = Some b \<longrightarrow> se_closing b" using Cons.prems(1) by (simp add: m)
  moreover have "set is = dom (map_of (srv_sessions s1))" using Cons.prems(2,3) by (auto simp: m)
  ultimately show ?case using Cons.IH [of s1] Cons.prems(2) st by auto
qed



section \<open>Example runs\<close>

text \<open>The server after a list of events, if all of them can happen and are considerate.\<close>

fun server_run :: "('j env \<times> 'j event) list \<Rightarrow> Server \<Rightarrow> Server option" where
  "server_run [] s = Some s"
| "server_run ((E, ev) # evs) s = (if considerate ev s then server_step E ev s \<bind> server_run evs else None)"

lemma server_run_reachable: "server_run evs s = Some s' \<Longrightarrow> reachable p tr s \<Longrightarrow> reachable p (tr @ evs) s'"
proof (induction evs arbitrary: s tr)
  case (Cons e evs)
  obtain E ev where e: "e = (E, ev)" by (cases e)
  with Cons.prems(1) obtain s1 where "considerate ev s" "server_step E ev s = Some s1" and r: "server_run evs s1 = Some s'"
    by (auto split: if_splits Option.bind_splits)
  then have "reachable p (tr @ [(E, ev)]) s1" using Cons.prems(2) by (intro reachable.step)
  from Cons.IH [OF r this] show ?case by (simp add: e)
qed simp

definition demo_request :: "string \<Rightarrow> string \<Rightarrow> jval" where
  "demo_request c a = JObj [(''cmd'', JStr c), (''first_argument'', JStr a), (''second_argument'', JStr []),
     (''size'', JNum 1), (''file_hash'', JStr []), (''chunks'', JArr [])]"

definition demo_server :: "Server option" where
  "demo_server = server_start bob_env (new_server (disk_of [([], Dir)])
     \<lparr>sc_root = Abs [''r''], sc_tiers = [], sc_default_tier = []\<rparr>)"

text \<open>Two connections work in public mode and the first starts an upload.\<close>

definition demo_events :: "(jval env \<times> jval event) list" where
  "demo_events = map (Pair bob_env) [Accepted, Accepted, Got_request 0 (demo_request ''LOGIN'' []),
     Got_request 1 (demo_request ''LOGIN'' []), Got_request 0 (demo_request ''UPLOAD'' ''a'')]"

definition demo_run :: "Server option" where
  "demo_run = demo_server \<bind> server_run demo_events"

lemma demo_run_states:
  "map_option (\<lambda>s. (map (\<lambda>(i, se). (i, se_state se, se_username se)) (srv_sessions s), sto_user_lock (srv_storage s))) demo_run =
   Some ([(0, UPLOADING, ''public''), (1, READY, ''public'')], [(''public'', True)])"
  by code_simp

lemma demo_run_reachable: "demo_run = Some s \<Longrightarrow> reachable True demo_events s"
proof -
  assume "demo_run = Some s"
  then obtain s0 where s0: "demo_server = Some s0" and r: "server_run demo_events s0 = Some s"
    by (auto simp: demo_run_def split: Option.bind_splits)
  have "reachable True ([] :: (jval env \<times> jval event) list) s0" by (rule reachable.started [OF s0 [unfolded demo_server_def]])
  from server_run_reachable [OF r this] show ?thesis by simp
qed

lemma demo_run_result:
  obtains s a b where "demo_run = Some s" "srv_sessions s = [(0, a), (1, b)]" "se_state a = UPLOADING" "se_state b = READY"
    "se_username a = ''public''" "se_username b = ''public''" "locked (srv_storage s) = {''public''}"
  using demo_run_states by (auto simp: locked_def map_eq_Cons_conv)

theorem locks_match_sessions_witness:
  "\<exists>s a b. reachable True demo_events s \<and> srv_sessions s = [(0, a), (1, b)] \<and> se_state a = UPLOADING \<and> se_state b = READY \<and>
     locked (srv_storage s) = {se_username se | i se. map_of (srv_sessions s) i = Some se \<and> se_state se \<in> holding_states}"
proof -
  obtain s a b where d: "demo_run = Some s" "srv_sessions s = [(0, a), (1, b)]" "se_state a = UPLOADING" "se_state b = READY"
    by (rule demo_run_result)
  from demo_run_reachable [OF d(1)] have r: "reachable True demo_events s" .
  from locks_match_sessions [OF r, THEN conjunct1] r d(2-4) show ?thesis by (intro exI conjI)
qed


text \<open>The second connection leaves: its last write completes while the upload of the first is running.\<close>

theorem ending_session_frees_lock_witness:
  "\<exists>s s'. (demo_run \<bind> server_step bob_env (Got_request 1 (demo_request ''EXIT'' []))) = Some s \<and>
     server_step bob_env (Wrote_last 1) s = Some s' \<and> ''public'' \<in> locked (srv_storage s) \<and>
     ''public'' \<notin> locked (srv_storage s')"
proof -
  have "map_option (\<lambda>s. (map (\<lambda>(i, se). (i, se_state se, se_username se, se_closing se)) (srv_sessions s), sto_user_lock (srv_storage s)))
      (demo_run \<bind> server_step bob_env (Got_request 1 (demo_request ''EXIT'' []))) =
     Some ([(0, UPLOADING, ''public'', False), (1, READY, ''public'', True)], [(''public'', True)])"
    by code_simp
  then obtain s a b where s: "(demo_run \<bind> server_step bob_env (Got_request 1 (demo_request ''EXIT'' []))) = Some s"
    and ss: "srv_sessions s = [(0, a), (1, b)]" "se_state a = UPLOADING" "se_username a = ''public''"
      "se_username b = ''public''" "se_closing b" and l: "''public'' \<in> locked (srv_storage s)"
    by (auto simp: locked_def map_eq_Cons_conv)
  have "\<exists>s'. server_step bob_env (Wrote_last 1) s = Some s' \<and> map_of (srv_sessions s') 0 = Some a \<and>
      se_username a \<notin> locked (srv_storage s')"
    by (rule ending_session_frees_lock [of s 0 a 1 b]) (simp_all add: ss)
  then show ?thesis using s l ss(3) by auto
qed

end
