(* ===== verification/TableFlow.thy ===== *)
theory TableFlow
  imports Server
begin

text \<open>
  The transfer tables of the sessions. A session reaches its table through a shared pointer that is
  null until the login is complete, and most handlers dereference it without a test. In every
  reachable state of the server the pointer of a session that is past its login leads to a table.
\<close>

section \<open>What handlers leave alone\<close>

definition tables_ok :: "Storage \<Rightarrow> bool" where
  "tables_ok st \<longleftrightarrow> (\<forall>u p. map_of (sto_user_partmeta st) u = Some p \<longrightarrow> p < length (sto_partmetas st))"

definition tables :: "world \<Rightarrow> (string \<times> nat) list \<times> nat \<times> nat option" where
  "tables w = (sto_user_partmeta (w_storage w), length (sto_partmetas (w_storage w)), se_partmeta (w_session w))"

lemma tables_primitives [simp]:
  "tables (send_msg m w) = tables w" "tables (send_res r w) = tables w" "tables (reply s c t w) = tables w"
  "tables (err c t w) = tables w" "tables (okay t w) = tables w" "tables (send_flag a b f w) = tables w"
  "tables (closing w) = tables w" "tables (set_state x w) = tables w" "tables (set_transfer y w) = tables w"
  "tables (set_transfer_id i w) = tables w" "tables (set_disk d w) = tables w" "tables (queue_resumes es w) = tables w"
  "tables (set_username u w) = tables w" "tables (unlock w) = tables w" "tables (err_unlock c t w) = tables w"
  "tables (put_pm pm w) = tables w"
  by (simp_all add: tables_def primitive_defs unlock_def err_unlock_def release_user_lock_def put_pm_def split: option.splits)

lemma tables_session [simp]:
  "tables (w\<lparr>w_session := (w_session w)\<lparr>se_resuming := b\<rparr>\<rparr>) = tables w"
  "tables (w\<lparr>w_session := (w_session w)\<lparr>se_exiting := b\<rparr>\<rparr>) = tables w"
  "tables (w\<lparr>w_session := (w_session w)\<lparr>se_pending_tier := n\<rparr>\<rparr>) = tables w"
  "tables (w\<lparr>w_session := (w_session w)\<lparr>se_resume_queue := q\<rparr>\<rparr>) = tables w"
  "tables (w\<lparr>w_session := (w_session w)\<lparr>se_current_dir := c\<rparr>\<rparr>) = tables w"
  by (simp_all add: tables_def)

lemma tables_storage:
  "sto_user_partmeta st = sto_user_partmeta (w_storage w) \<Longrightarrow> length (sto_partmetas st) = length (sto_partmetas (w_storage w)) \<Longrightarrow>
   tables (w\<lparr>w_storage := st\<rparr>) = tables w"
  by (simp add: tables_def)

definition keeps_tables :: "(world \<Rightarrow> world option) \<Rightarrow> bool" where
  "keeps_tables k \<longleftrightarrow> (\<forall>w w'. k w = Some w' \<longrightarrow> tables w' = tables w)"

lemma keeps_tablesD: "keeps_tables k \<Longrightarrow> k w = Some w' \<Longrightarrow> tables w' = tables w"
  by (simp add: keeps_tables_def)

lemma keeps_tablesI: "(\<And>w w'. k w = Some w' \<Longrightarrow> tables w' = tables w) \<Longrightarrow> keeps_tables k"
  by (simp add: keeps_tables_def)

text \<open>The database behind a storage is changed without touching the tables.\<close>

definition same_tables :: "Storage \<Rightarrow> Storage \<Rightarrow> bool" where
  "same_tables st st' \<longleftrightarrow> sto_user_partmeta st' = sto_user_partmeta st \<and> sto_partmetas st' = sto_partmetas st"

lemma same_tables_world: "same_tables (w_storage w) st \<Longrightarrow> tables (w\<lparr>w_storage := st\<rparr>) = tables w"
  by (simp add: same_tables_def tables_storage)

lemma sto_user_exists_tables: "sto_user_exists E st u = Some (b, st') \<Longrightarrow> same_tables st st'"
  by (auto simp: sto_user_exists_def same_tables_def)

lemma sto_validate_tables: "sto_validate_user E st u p = Some (b, st') \<Longrightarrow> same_tables st st'"
  by (auto simp: sto_validate_user_def same_tables_def)

lemma sto_add_user_tables: "sto_add_user E st u p c = Some st' \<Longrightarrow> same_tables st st'"
  by (auto simp: sto_add_user_def same_tables_def split: prod.splits bool.splits)

lemma sto_set_class_tables: "sto_set_class E st u c = Some (b, st') \<Longrightarrow> same_tables st st'"
  by (auto simp: sto_set_class_def same_tables_def split: prod.splits bool.splits)

lemma get_user_tier_tables: "get_user_tier E st u = Some (n, st') \<Longrightarrow> same_tables st st'"
  by (auto simp: get_user_tier_def Let_def same_tables_def split: if_splits option.splits list.splits
      dest!: sto_set_class_tables)

lemma get_user_root_tables: "get_user_root E st u = Some (p, st') \<Longrightarrow> same_tables st st'"
  by (auto simp: get_user_root_def split: if_splits dest: get_user_tier_tables) (simp add: same_tables_def)

lemma try_acquire_tables: "try_acquire_user_lock E st u = Some (b, st') \<Longrightarrow> same_tables st st'"
  by (auto simp: try_acquire_user_lock_def same_tables_def split: option.splits if_splits dest!: sto_user_exists_tables)

lemmas storage_tables = sto_user_exists_tables sto_validate_tables sto_add_user_tables sto_set_class_tables
  get_user_tier_tables try_acquire_tables

lemma when_ready_tables: "keeps_tables k \<Longrightarrow> keeps_tables (\<lambda>w. when_ready w k)"
  by (auto simp: keeps_tables_def elim!: when_ready_cases)

lemma check_tables: "keeps_tables k \<Longrightarrow> keeps_tables (\<lambda>w. if c then Some (err x y w) else k w)"
  by (simp add: keeps_tables_def)

lemma with_lock_tables: "keeps_tables k \<Longrightarrow> keeps_tables (\<lambda>w. with_lock E w k)"
  by (auto simp: keeps_tables_def same_tables_world elim!: with_lock_cases dest!: try_acquire_tables)

lemmas tables_guards = when_ready_tables check_tables with_lock_tables


section \<open>The handlers\<close>

lemma finish_op_tables [simp]: "tables (finish_op r a b w) = tables w"
  by (cases r) (auto simp: finish_op_def split: bool.splits)

lemma file_command_tables:
  "keeps_tables (two_path_cmd E oper a b req)" "keeps_tables (list_cmd E req)" "keeps_tables (delete_file_cmd E req)"
  "keeps_tables (mkdir_cmd E req)" "keeps_tables (rmdir_cmd E req)" "keeps_tables (sync_cmd E req)" "keeps_tables (cd_cmd req)"
  unfolding two_path_cmd_def list_cmd_def delete_file_cmd_def mkdir_cmd_def rmdir_cmd_def sync_cmd_def cd_cmd_def
  by (intro tables_guards keeps_tablesI; auto simp: Let_def split: if_splits)+

lemma pm_add_tables: "pm_add E ty tid w = Some (i, w') \<Longrightarrow> tables w' = tables w"
  by (auto simp: pm_add_def Let_def split: prod.splits Option.bind_splits)

lemma pm_tables: "keeps_tables (pm_mark E tid i)" "keeps_tables (pm_delete E tid)" "keeps_tables (pm_save E)"
  "keeps_tables (discard_upload E)" "keeps_tables (discard_download E)" "keeps_tables downloading"
  by (auto simp: keeps_tables_def pm_mark_def pm_delete_def pm_save_def discard_upload_def discard_download_def
      downloading_def Let_def split: Option.bind_splits prod.splits bool.splits option.splits if_splits)

lemmas pm_tablesD = pm_tables [THEN keeps_tablesD]

lemma resumes_tables: "keeps_tables handle_resumes" "keeps_tables end_transfer"
  by (auto simp: keeps_tables_def end_transfer_def handle_resumes_def resume_next_def Let_def
      split: if_splits list.splits Option.bind_splits)

lemmas resumes_tablesD = resumes_tables [THEN keeps_tablesD]

lemma abort_tables: "keeps_tables (upload_abort E sv nt fl)" "keeps_tables (download_abort E sv nt fl)"
  "keeps_tables (upload_abort_exit E sv nt fl)" "keeps_tables (download_abort_exit E sv nt fl)"
  "keeps_tables (upload_done E)" "keeps_tables (download_done E)"
  by (auto simp: keeps_tables_def upload_abort_def download_abort_def upload_abort_exit_def download_abort_exit_def
      upload_done_def download_done_def Let_def split: Option.bind_splits if_splits dest!: pm_tablesD resumes_tablesD)

lemmas abort_tablesD = abort_tables [THEN keeps_tablesD]

lemma exit_tables: "keeps_tables (exit_session E)"
  by (auto simp: keeps_tables_def exit_session_def finish_exit_def Let_def split: if_splits dest!: abort_tablesD)
    (simp add: tables_def unlock_def release_user_lock_def)

lemma upload_tables: "keeps_tables (upload_init E)" "keeps_tables (init_if_new E tid)"
proof -
  show init: "keeps_tables (upload_init E)" for E :: "'j env"
    by (auto simp: keeps_tables_def upload_init_def Let_def split: Option.bind_splits if_splits
        dest!: pm_add_tables abort_tablesD)
  show "keeps_tables (init_if_new E tid)"
    by (auto simp: keeps_tables_def init_if_new_def split: if_splits dest!: keeps_tablesD [OF init])
qed

lemma uploading_tables: "keeps_tables (uploading E i sz data fl)"
  by (auto simp: keeps_tables_def uploading_def Let_def split: if_splits Option.bind_splits prod.splits bool.splits
      dest!: pm_tablesD abort_tablesD)

lemma keeps_tables_if: "keeps_tables f \<Longrightarrow> keeps_tables g \<Longrightarrow> keeps_tables (\<lambda>w. if c w then f w else g w)"
  by (simp add: keeps_tables_def)

lemma keeps_tables_bind: "keeps_tables f \<Longrightarrow> keeps_tables g \<Longrightarrow> keeps_tables (\<lambda>w. f w \<bind> g)"
  by (auto simp: keeps_tables_def split: Option.bind_splits)

lemma keeps_tables_value: "(\<And>x. keeps_tables (g x)) \<Longrightarrow> keeps_tables (\<lambda>w. v w \<bind> (\<lambda>x. g x w))"
  by (auto simp: keeps_tables_def split: Option.bind_splits)

lemma keeps_tables_ends: "keeps_tables Some" "keeps_tables (\<lambda>w. None)"
  by (simp_all add: keeps_tables_def)

lemma handle_chunk_tables: "keeps_tables (handle_chunk E ch data)"
proof -
  have up: "keeps_tables (\<lambda>w. valid_chunk E w i sz d \<bind> (\<lambda>ok. if ok then init_if_new E tid w \<bind> uploading E i sz d fl
       else upload_abort E sv nt fl' w))" for i sz d tid fl fl' sv nt
    by (rule keeps_tables_value, intro keeps_tables_if keeps_tables_bind upload_tables uploading_tables abort_tables)
  have lst: "keeps_tables (\<lambda>w. init_if_new E tid w \<bind> (\<lambda>w1. valid_chunk E w1 i sz d \<bind> (\<lambda>ok. if ok then uploading E i sz d fl w1
       else upload_abort E sv nt fl' w1)))" for i sz d tid fl fl' sv nt
    by (rule keeps_tables_bind [OF upload_tables(2)], rule keeps_tables_value, intro keeps_tables_if uploading_tables abort_tables)
  have down: "keeps_tables (\<lambda>w. pm_mark E (f w) i (set_transfer (g w) w) \<bind> downloading)"
    "keeps_tables (\<lambda>w. download_done E (set_transfer (g w) w))" for f g i
    by (auto simp: keeps_tables_def split: Option.bind_splits dest!: pm_tablesD abort_tablesD)
  show ?thesis
    unfolding handle_chunk_def Let_def
    by (intro keeps_tables_if up lst down abort_tables keeps_tables_bind exit_tables keeps_tables_ends)
qed

lemma transfer_command_tables: "keeps_tables (upload_cmd E req)" "keeps_tables (download_cmd E req)"
  unfolding upload_cmd_def download_cmd_def
  by (intro tables_guards keeps_tablesI; auto simp: Let_def download_init_def split: if_splits Option.bind_splits
      dest!: pm_add_tables pm_tablesD)+

lemma tier_command_tables: "keeps_tables (tiers_cmd E req)" "keeps_tables (set_tier_cmd E req)"
proof -
  show "keeps_tables (tiers_cmd E req)" for E :: "'j env"
    unfolding tiers_cmd_def
    by (intro when_ready_tables keeps_tablesI)
      (auto simp: Let_def same_tables_world split: Option.bind_splits dest!: get_user_tier_tables)
  have ask: "keeps_tables (\<lambda>w. with_lock E w (ask_set_tier E c n))" for E :: "'j env" and c n
    by (intro with_lock_tables keeps_tablesI) (auto simp: ask_set_tier_def Let_def split: prod.splits)
  show "keeps_tables (set_tier_cmd E req)" for E :: "'j env"
    unfolding set_tier_cmd_def
    by (intro when_ready_tables keeps_tablesI)
      (auto simp: Let_def same_tables_world split: if_splits Option.bind_splits dest!: get_user_tier_tables keeps_tablesD [OF ask])
qed

lemma resume_input_tables: "keeps_tables (need_input_resume E req)"
  by (auto simp: keeps_tables_def need_input_resume_def pop_resume_def resume_transfer_def Let_def same_tables_world
      split: if_splits list.splits Option.bind_splits dest!: try_acquire_tables pm_tablesD resumes_tablesD)


section \<open>Login and tier changes\<close>

definition past_login :: "SessionState set" where
  "past_login = {READY, NEED_INPUT_RESUME_TREANSFER, NEED_INPUT_SET_TIER, UPLOADING, DOWNLOADING}"

definition has_table :: "world \<Rightarrow> bool" where
  "has_table w \<longleftrightarrow> (\<exists>p. se_partmeta (w_session w) = Some p \<and> p < length (sto_partmetas (w_storage w)))"

lemma has_table_iff: "has_table w \<longleftrightarrow> (\<exists>pm. the_pm w = Some pm)"
  by (auto simp: the_pm_def has_table_def split: option.splits)

definition typed :: "world \<Rightarrow> bool" where
  "typed w \<longleftrightarrow> tables_ok (w_storage w) \<and> (w_state w \<in> past_login \<longrightarrow> has_table w)"

definition typed_step :: "world \<Rightarrow> world \<Rightarrow> bool" where
  "typed_step w w' \<longleftrightarrow> (typed w \<longrightarrow> typed w' \<and> length (sto_partmetas (w_storage w)) \<le> length (sto_partmetas (w_storage w')))"

lemma tables_typed:
  "tables w' = tables w \<Longrightarrow> (w_state w' \<in> past_login \<Longrightarrow> w_state w \<in> past_login) \<Longrightarrow> typed_step w w'"
  by (auto simp: typed_step_def typed_def tables_def tables_ok_def has_table_def)

text \<open>Worlds in which the tables have grown, and the pointer of the session is good if it was, or has been set.\<close>

definition homed :: "world \<Rightarrow> world \<Rightarrow> bool" where
  "homed w w' \<longleftrightarrow> (tables_ok (w_storage w) \<longrightarrow> tables_ok (w_storage w') \<and> has_table w' \<and>
     length (sto_partmetas (w_storage w)) \<le> length (sto_partmetas (w_storage w')))"

lemma homed_typed: "homed w w' \<Longrightarrow> typed_step w w'"
  by (auto simp: homed_def typed_step_def typed_def)

lemma homed_tables: "homed w v \<Longrightarrow> tables w' = tables v \<Longrightarrow> homed w w'"
  by (auto simp: homed_def tables_ok_def tables_def has_table_def)

lemma tables_homed: "homed v w' \<Longrightarrow> tables v = tables w \<Longrightarrow> homed w w'"
  by (auto simp: homed_def tables_ok_def tables_def)

lemma add_partmeta_ok:
  assumes "add_partmeta E st u f = Some (p, st')" and "tables_ok st"
  shows "tables_ok st' \<and> p < length (sto_partmetas st') \<and> length (sto_partmetas st) \<le> length (sto_partmetas st')"
  using assms by (auto simp: add_partmeta_def tables_ok_def map_of_emplace less_Suc_eq split: prod.splits option.splits if_splits)

lemma same_tables_ok: "same_tables st st' \<Longrightarrow> tables_ok st' = tables_ok st"
  by (simp add: same_tables_def tables_ok_def)

lemma get_partmeta_ok:
  assumes "get_partmeta E st u = Some (p, st')" and "tables_ok st"
  shows "tables_ok st' \<and> p < length (sto_partmetas st') \<and> length (sto_partmetas st) \<le> length (sto_partmetas st')"
proof (cases "map_of (sto_user_partmeta st) u")
  case (Some q)
  then show ?thesis using assms by (auto simp: get_partmeta_def tables_ok_def)
next
  case None
  with assms(1) obtain st1 f where "same_tables st st1" and a: "add_partmeta E st1 u f = Some (p, st')"
    by (auto simp: get_partmeta_def same_tables_def split: if_splits Option.bind_splits
        dest!: sto_user_exists_tables get_user_root_tables)
  then show ?thesis using add_partmeta_ok [OF a] assms(2) by (simp add: same_tables_ok) (simp add: same_tables_def)
qed

lemma enter_home_homed: "enter_home E home w = Some (b, w') \<Longrightarrow> homed w w'"
  by (auto simp: enter_home_def Let_def homed_def has_table_def set_disk_def tables_ok_def dest!: get_partmeta_ok)

lemma setup_dir_cases:
  assumes "setup_dir E w = Some (b, w')"
  shows "homed w w' \<or> (\<not> b \<and> tables w' = tables w)"
  using assms
  by (auto simp: setup_dir_def Let_def same_tables_world split: if_splits Option.bind_splits
      dest!: get_user_root_tables enter_home_homed intro: tables_homed [OF _ same_tables_world])


lemma setup_dir_typed:
  assumes "setup_dir E w = Some (b, w')"
  shows "b \<Longrightarrow> homed w w'" and "\<not> b \<Longrightarrow> homed w w' \<or> tables w' = tables w"
  using setup_dir_cases [OF assms] by auto

definition keeps_typed :: "(world \<Rightarrow> world option) \<Rightarrow> bool" where
  "keeps_typed k \<longleftrightarrow> (\<forall>w w'. k w = Some w' \<longrightarrow> typed_step w w')"

lemma setup_then:
  assumes "setup_dir E v = Some (b, w1)" and "tables v = tables w" and "w_state v = w_state w"
    and "if b then tables w' = tables w1 else w' = w1"
  shows "typed_step w w'"
proof (cases b)
  case True
  then have "homed w w'" using assms setup_dir_typed(1) homed_tables tables_homed by metis
  then show ?thesis by (rule homed_typed)
next
  case False
  then have w': "w' = w1" using assms(4) by simp
  from False setup_dir_typed(2) [OF assms(1)] have "homed v w1 \<or> tables w1 = tables v" by simp
  then show ?thesis
  proof
    assume "homed v w1"
    from homed_typed [OF tables_homed [OF this assms(2)]] show ?thesis by (simp add: w')
  next
    assume "tables w1 = tables v"
    then show ?thesis using assms(2,3) setup_dir_frame [OF assms(1)] by (intro tables_typed) (simp_all add: w')
  qed
qed

lemma public_mode_typed: "public_mode E msg w = Some w' \<Longrightarrow> typed_step w w'"
  by (auto simp: public_mode_def split: Option.bind_splits if_splits intro: setup_then)

lemma past_login_simps [simp]:
  "READY \<in> past_login" "NEED_INPUT_RESUME_TREANSFER \<in> past_login" "NEED_INPUT_SET_TIER \<in> past_login"
  "UPLOADING \<in> past_login" "DOWNLOADING \<in> past_login"
  "LOGIN \<notin> past_login" "AUTH \<notin> past_login" "NEED_INPUT_REGISTER \<notin> past_login" "EXIT \<notin> past_login"
  by (simp_all add: past_login_def)

lemma typed_same: "tables w' = tables w \<Longrightarrow> w_state w' = w_state w \<Longrightarrow> typed_step w w'"
  by (rule tables_typed) simp_all

lemma login_typed: "keeps_typed (login_cmd E req)"
proof -
  have user: "typed_step w (set_state s (reply a c m ((set_username u w)\<lparr>w_storage := st\<rparr>)))"
    if "sto_user_exists E (w_storage w) x = Some (b, st)" "s \<notin> past_login" for w s a c m u st x b
    using that sto_user_exists_tables [OF that(1)] same_tables_world [of "set_username u w" st] by (intro tables_typed) simp_all
  show ?thesis
    by (auto simp: keeps_typed_def login_cmd_def Let_def user split: if_splits intro: public_mode_typed typed_same)
qed

lemma same_tables_trans: "same_tables a b \<Longrightarrow> same_tables b c \<Longrightarrow> same_tables a c"
  by (simp add: same_tables_def)

lemma auth_typed: "keeps_typed (auth_cmd E req)"
  unfolding keeps_typed_def
proof (intro allI impI)
  fix w w' assume a: "auth_cmd E req w = Some w'"
  have after_setup: "typed_step w w'" if "setup_dir E (w\<lparr>w_storage := st\<rparr>) = Some (b, w1)" "same_tables (w_storage w) st"
      "if b then tables w' = tables w1 else w' = w1" for b w1 st
    using setup_then [OF that(1) same_tables_world [OF that(2)] _ that(3)] by simp
  have same: "typed_step w (reply x c m (w\<lparr>w_storage := st\<rparr>))" "typed_step w (w\<lparr>w_storage := st\<rparr>)"
    if "same_tables (w_storage w) st" for st x c m
    using same_tables_world [OF that] by (simp_all add: typed_same)
  show "typed_step w w'"
  proof (cases "w_state w = AUTH \<and> req_first_argument req \<noteq> []")
    case False
    then show ?thesis using a by (auto simp: auth_cmd_def Let_def split: if_splits intro: typed_same)
  next
    case True
    with a obtain known st1 where ex: "sto_user_exists E (w_storage w) (w_user w) = Some (known, st1)"
      by (auto simp: auth_cmd_def Let_def split: Option.bind_splits)
    note t1 = sto_user_exists_tables [OF ex]
    show ?thesis
    proof (cases known)
      case known: True
      with a True ex obtain valid st2 where v: "sto_validate_user E st1 (w_user w) (req_first_argument req) = Some (valid, st2)"
        by (auto simp: auth_cmd_def Let_def split: Option.bind_splits)
      have t2: "same_tables (w_storage w) st2" using t1 sto_validate_tables [OF v] by (rule same_tables_trans)
      show ?thesis
      proof (cases valid)
        case False
        then show ?thesis using a True ex v known by (auto simp: auth_cmd_def Let_def intro: same(1) [OF t2])
      next
        case valid: True
        with a True ex v known obtain b w1 where s: "setup_dir E (w\<lparr>w_storage := st2\<rparr>) = Some (b, w1)"
          by (auto simp: auth_cmd_def Let_def split: Option.bind_splits)
        have "if b then tables w' = tables w1 else w' = w1"
          using a True ex v known valid s
          by (auto simp: auth_cmd_def Let_def split: Option.bind_splits if_splits dest!: resumes_tablesD)
        from after_setup [OF s t2 this] show ?thesis .
      qed
    next
      case unknown: False
      with a True ex obtain known2 st2 where ex2: "sto_user_exists E st1 (w_user w) = Some (known2, st2)"
        by (auto simp: auth_cmd_def Let_def split: Option.bind_splits)
      have t2: "same_tables (w_storage w) st2" using t1 sto_user_exists_tables [OF ex2] by (rule same_tables_trans)
      show ?thesis
      proof (cases known2)
        case again: True
        then show ?thesis using a True ex ex2 unknown by (auto simp: auth_cmd_def Let_def intro: same(2) [OF t2])
      next
        case new: False
        with a True ex ex2 unknown obtain st3 b w1
          where ad: "sto_add_user E st2 (w_user w) (req_first_argument req) (sto_default_tier st2) = Some st3"
            and s: "setup_dir E (w\<lparr>w_storage := st3\<rparr>) = Some (b, w1)"
          by (auto simp: auth_cmd_def Let_def split: Option.bind_splits)
        have t3: "same_tables (w_storage w) st3" using t2 sto_add_user_tables [OF ad] by (rule same_tables_trans)
        have "if b then tables w' = tables w1 else w' = w1"
          using a True ex ex2 unknown new ad s
          by (auto simp: auth_cmd_def Let_def split: Option.bind_splits if_splits dest!: resumes_tablesD)
        from after_setup [OF s t3 this] show ?thesis .
      qed
    qed
  qed
qed

text \<open>The move to another tier forgets the table of the user, so that the next lookup loads the moved one.\<close>

lemma migrate_user_tables:
  "sto_partmetas (snd (migrate_user E st u a b)) = sto_partmetas st"
  "tables_ok st \<Longrightarrow> tables_ok (snd (migrate_user E st u a b))"
proof -
  have f: "sto_partmetas (snd (migrate_user E st u a b)) = sto_partmetas st \<and>
      (sto_user_partmeta (snd (migrate_user E st u a b)) = sto_user_partmeta st \<or>
       sto_user_partmeta (snd (migrate_user E st u a b)) = AList.delete u (sto_user_partmeta st))"
    by (auto simp: migrate_user_def Let_def invalidate_partmeta_def split: prod.splits bool.splits option.splits)
  then show "sto_partmetas (snd (migrate_user E st u a b)) = sto_partmetas st" by simp
  show "tables_ok (snd (migrate_user E st u a b))" if "tables_ok st"
    using that f unfolding tables_ok_def by (auto simp: delete_conv' split: if_splits)
qed


lemma typed_step_trans: "typed_step a b \<Longrightarrow> typed_step b c \<Longrightarrow> typed_step a c"
  by (auto simp: typed_step_def)

lemma typed_step_storage:
  assumes "tables_ok (w_storage w) \<Longrightarrow> tables_ok st" and "length (sto_partmetas st) = length (sto_partmetas (w_storage w))"
  shows "typed_step w (w\<lparr>w_storage := st\<rparr>)"
  using assms by (auto simp: typed_step_def typed_def has_table_def)

lemma typed_unlock: "typed_step w (unlock w)" "typed_step w (err_unlock c m w)" "typed_step w (unlock (okay m w))"
  by (simp_all add: typed_same)

lemma finish_set_tier_typed:
  assumes "finish_set_tier E w0 = Some w'" and "w_state w0 \<in> past_login"
  shows "typed_step w0 w'"
proof -
  define w where "w = set_state READY (w0\<lparr>w_session := (w_session w0)\<lparr>se_pending_tier := []\<rparr>\<rparr>)"
  define tgt where "tgt = se_pending_tier (w_session w0)"
  note k = assms(1) [unfolded finish_set_tier_def Let_def, folded w_def tgt_def]
  have w: "typed_step w0 w" using assms(2) by (intro tables_typed) (simp_all add: w_def)
  from k obtain cur st where g: "get_user_tier E (w_storage w) (w_user w) = Some (cur, st)" by (auto split: Option.bind_splits)
  define w1 where "w1 = w\<lparr>w_storage := st\<rparr>"
  have w1: "typed_step w w1"
    using same_tables_world [OF get_user_tier_tables [OF g]] by (intro typed_same) (simp_all add: w1_def)
  show ?thesis
  proof (cases "\<exists>f t. find_tier st cur = Some f \<and> find_tier st tgt = Some t")
    case False
    then have "w' = err_unlock INTERNAL_SERVER_ERROR ''Storage tier is no longer configured on this server.'' w1"
      using k g by (auto simp: w1_def split: option.splits)
    then show ?thesis using typed_step_trans [OF w typed_step_trans [OF w1 typed_unlock(2)]] by simp
  next
    case True
    then obtain f t where ft: "find_tier st cur = Some f" "find_tier st tgt = Some t" by blast
    obtain r st2 where m: "migrate_user E st (w_user w1) f t = (r, st2)" by fastforce
    define w2 where "w2 = w1\<lparr>w_storage := st2\<rparr>"
    have w2: "typed_step w1 w2"
      unfolding w2_def using migrate_user_tables [where E = E and st = st and u = "w_user w1" and a = f and b = t] m
      by (intro typed_step_storage) (simp_all add: w1_def)
    have w02: "typed_step w0 w2" using w w1 w2 typed_step_trans by blast
    have rest: "typed_step w2 w'"
    proof (cases "mr_ok r")
      case False
      then have "w' = err_unlock INTERNAL_SERVER_ERROR (mr_error r) w2"
        using k g ft m by (simp add: w1_def w2_def)
      then show ?thesis by (simp add: typed_unlock)
    next
      case True
      with k g ft m obtain recorded st3 where c: "sto_set_class E st2 (w_user w2) tgt = Some (recorded, st3)"
        by (auto simp: w1_def w2_def split: Option.bind_splits)
      define w3 where "w3 = w2\<lparr>w_storage := st3\<rparr>"
      have t3: "tables w3 = tables w2" unfolding w3_def
        using sto_set_class_tables [OF c] by (intro same_tables_world) (simp add: w2_def)
      show ?thesis
      proof (cases recorded)
        case False
        then have "w' = err_unlock INTERNAL_SERVER_ERROR (''Data was moved to tier '' @ quoted tgt @
             '' but the change could not be recorded.'') w3"
          using k g ft m c True by (simp add: w1_def w2_def w3_def)
        then show ?thesis using t3 by (intro typed_same) (simp_all add: w3_def)
      next
        case rec: True
        with k g ft m c True obtain ok w4 where sd: "setup_dir E w3 = Some (ok, w4)"
          by (auto simp: w1_def w2_def w3_def split: Option.bind_splits)
        have "tables w' = tables w4" "w_state w' = w_state w4"
          using k g ft m c True rec sd by (auto simp: w1_def w2_def w3_def split: if_splits)
        then have "typed_step w4 w'" by (rule typed_same)
        moreover have "typed_step w2 w4" by (rule setup_then [OF sd t3]) (simp_all add: w3_def)
        ultimately show ?thesis using typed_step_trans by blast
      qed
    qed
    from typed_step_trans [OF w02 this] show ?thesis .
  qed
qed


section \<open>Every handler\<close>

text \<open>A handler that does nothing but reply unless the session is ready.\<close>

lemma ready_typed:
  assumes "keeps_tables k" and "\<And>w w'. k w = Some w' \<Longrightarrow> w_state w \<noteq> READY \<Longrightarrow> w_state w' = w_state w"
  shows "keeps_typed k"
  unfolding keeps_typed_def
proof (intro allI impI)
  fix w w' assume k: "k w = Some w'"
  then show "typed_step w w'"
    using keeps_tablesD [OF assms(1) k] assms(2) [OF k] by (cases "w_state w = READY") (auto intro!: tables_typed)
qed

lemma exit_state: "exit_session E w = Some w' \<Longrightarrow> w_state w' = w_state w \<or> w_state w' = EXIT"
  by (auto simp: exit_session_def upload_abort_exit_def download_abort_exit_def finish_exit_def Let_def
      split: if_splits Option.bind_splits dest!: pm_save_session)

lemma exit_typed: "keeps_typed (exit_session E)"
  unfolding keeps_typed_def
  by (auto intro!: tables_typed dest: keeps_tablesD [OF exit_tables] exit_state)

lemma need_input_typed: "keeps_typed (need_input_cmd E req)"
  unfolding keeps_typed_def
proof (intro allI impI)
  fix w w' assume k: "need_input_cmd E req w = Some w'"
  consider (reg) "w_state w = NEED_INPUT_REGISTER" | (res) "w_state w = NEED_INPUT_RESUME_TREANSFER"
    | (tier) "w_state w = NEED_INPUT_SET_TIER" | (other) "w' = err SERVICE_UNAVAILABLE ''No input required at this time.'' w"
    using k by (auto simp: need_input_cmd_def split: if_splits)
  then show "typed_step w w'"
  proof cases
    case reg
    then show ?thesis using k
      by (auto simp: need_input_cmd_def split: if_splits intro: public_mode_typed tables_typed)
  next
    case res
    then show ?thesis using k keeps_tablesD [OF resume_input_tables] by (auto simp: need_input_cmd_def intro!: tables_typed)
  next
    case tier
    then show ?thesis using k finish_set_tier_typed [of E w w']
      by (auto simp: need_input_cmd_def split: if_splits intro: tables_typed)
  next
    case other
    then show ?thesis by (simp add: typed_same)
  qed
qed

lemma execute_typed: "keeps_typed (execute E req)"
proof (rule execute_rule)
  show "keeps_typed (\<lambda>w. Some (err BAD_REQUEST ''Unknown request'' w))"
    by (auto simp: keeps_typed_def intro: typed_same)
  show "keeps_typed (exit_session E)" "keeps_typed (login_cmd E req)" "keeps_typed (auth_cmd E req)"
    "keeps_typed (need_input_cmd E req)"
    by (fact exit_typed login_typed auth_typed need_input_typed)+
qed (rule ready_typed,
    simp add: move_cmd_def copy_cmd_def file_command_tables transfer_command_tables tier_command_tables,
    auto simp: move_cmd_def copy_cmd_def two_path_cmd_def list_cmd_def upload_cmd_def download_cmd_def
      delete_file_cmd_def cd_cmd_def mkdir_cmd_def rmdir_cmd_def sync_cmd_def tiers_cmd_def set_tier_cmd_def when_ready_def; fail)+

lemma handle_chunk_typed: "keeps_typed (handle_chunk E ch data)"
  unfolding keeps_typed_def
proof (intro allI impI)
  fix w w' assume k: "handle_chunk E ch data w = Some w'"
  show "typed_step w w'"
  proof (cases "w_state w \<in> {UPLOADING, DOWNLOADING}")
    case True
    then show ?thesis using keeps_tablesD [OF handle_chunk_tables k] by (auto intro!: tables_typed)
  next
    case False
    then show ?thesis using k by (simp add: handle_chunk_def typed_same)
  qed
qed

lemma when_closing_typed: "keeps_typed when_closing"
  by (auto simp: keeps_typed_def when_closing_def finish_exit_def Let_def tables_def unlock_def release_user_lock_def
      split: if_splits intro!: tables_typed)


section \<open>The server\<close>

definition server_typed :: "Server \<Rightarrow> bool" where
  "server_typed s \<longleftrightarrow> tables_ok (srv_storage s) \<and>
     (\<forall>i se. map_of (srv_sessions s) i = Some se \<longrightarrow> typed (world_of s se))"

lemma in_session_typed:
  assumes "in_session i k s = Some s'" and "keeps_typed k" and "server_typed s"
  shows "server_typed s'"
proof -
  from assms(1) obtain se w where se: "map_of (srv_sessions s) i = Some se" and k: "k (world_of s se) = Some w"
    and s': "s' = put_session i w s" by (auto simp: in_session_def split: Option.bind_splits)
  have w_of: "w_storage (world_of s se) = srv_storage s" by (simp add: world_of_def)
  have w: "typed w" "length (sto_partmetas (srv_storage s)) \<le> length (sto_partmetas (w_storage w))"
    using assms(2,3) k se w_of unfolding keeps_typed_def typed_step_def server_typed_def by metis+
  have st: "srv_storage s' = w_storage w" by (simp add: s' put_session_def Let_def remove_session_def)
  have "typed (world_of s' b)" if "map_of (srv_sessions s') j = Some b" for j b
  proof (cases "j = i")
    case True
    then have "b = w_session w"
      using that by (simp add: s' put_session_def Let_def remove_session_def delete_conv' update_conv' split: if_splits)
    then show ?thesis using w(1) by (simp add: world_of_def st typed_def has_table_def)
  next
    case False
    then have "map_of (srv_sessions s) j = Some b"
      using that by (simp add: s' put_session_def Let_def remove_session_def delete_conv' update_conv' split: if_splits)
    then have "typed (world_of s b)" using assms(3) by (simp add: server_typed_def)
    then show ?thesis using w by (auto simp: world_of_def st typed_def has_table_def)
  qed
  then show ?thesis using w(1) by (auto simp: server_typed_def st typed_def)
qed

lemma exit_each_typed: "exit_each E is s = Some s' \<Longrightarrow> server_typed s \<Longrightarrow> server_typed s'"
  by (induction "is" arbitrary: s) (auto split: Option.bind_splits dest: in_session_typed [OF _ exit_typed])

lemma typed_flags: "server_typed (s\<lparr>srv_exit := a, srv_acceptor_open := b\<rparr>) = server_typed s"
  by (simp add: server_typed_def world_of_def)

lemma when_reading_typed: "keeps_typed k \<Longrightarrow> keeps_typed (when_reading x k)"
  by (auto simp: keeps_typed_def when_reading_def)

lemma handle_request_typed: "keeps_typed (handle_request E j)"
  using execute_typed by (auto simp: keeps_typed_def handle_request_def split: Option.bind_splits)

lemma on_accept_typed:
  assumes "server_typed s"
  shows "server_typed (on_accept ok s)"
  using assms
  by (auto simp: server_typed_def on_accept_def accept_def add_session_def Let_def update_conv' world_of_def typed_def
      has_table_def new_session_def split: if_splits)

lemma server_step_typed:
  assumes "server_step E ev s = Some s'" and "server_typed s"
  shows "server_typed s'"
proof (cases ev)
  case Signal
  with assms show ?thesis by (auto simp: exit_all_sessions_def Let_def typed_flags intro: exit_each_typed)
next
  case (Failed i)
  then have "in_session i (exit_session E) s = Some s'" using assms(1) by (simp add: handle_error_def [abs_def])
  from in_session_typed [OF this exit_typed assms(2)] show ?thesis .
qed (use assms in \<open>auto simp: on_accept_typed handle_error_def split: if_splits
      intro: in_session_typed [OF _ when_reading_typed [OF handle_request_typed]] in_session_typed [OF _ exit_typed]
        in_session_typed [OF _ when_reading_typed [OF handle_chunk_typed]] in_session_typed [OF _ when_closing_typed]\<close>)

lemma storage_setup_tables: "storage_setup E st = Some st' \<Longrightarrow> same_tables st st'"
  by (auto simp: storage_setup_def same_tables_def Let_def split: prod.splits option.splits)

lemma reachable_typed: "reachable p tr s \<Longrightarrow> server_typed s"
proof (induction rule: reachable.induct)
  case (started E d cfg s)
  then show ?case
    by (auto simp: server_start_def new_server_def accept_def server_typed_def tables_ok_def new_storage_def same_tables_def
        dest!: storage_setup_tables)
next
  case (step tr s E ev s')
  then show ?case using server_step_typed by blast
qed

text \<open>
  Property (C9). No handler follows a null table pointer: in every state the server can reach, by any
  events whatever, a session that is past its login has a transfer table.
\<close>

theorem session_has_table:
  assumes "reachable p tr s" and "map_of (srv_sessions s) i = Some se" and "se_state se \<in> past_login"
  shows "\<exists>pm. the_pm (world_of s se) = Some pm"
  using reachable_typed [OF assms(1)] assms(2,3)
  by (auto simp: server_typed_def typed_def has_table_iff [symmetric] world_of_def)

theorem session_has_table_witness:
  "\<exists>s se pm. reachable True demo_events s \<and> map_of (srv_sessions s) 0 = Some se \<and> se_state se = UPLOADING \<and>
     the_pm (world_of s se) = Some pm"
proof -
  obtain s a b where d: "demo_run = Some s" "srv_sessions s = [(0, a), (1, b)]" "se_state a = UPLOADING"
    by (rule demo_run_result)
  from demo_run_reachable [OF d(1)] have r: "reachable True demo_events s" .
  from session_has_table [OF r, of 0 a] d(2,3) r show ?thesis by auto
qed

end
