(* ===== verification/Receiver.thy ===== *)
theory Receiver
  imports FileOps TableFlow
begin

text \<open>
  The session as the receiver of a file: from the request that opens the upload, through every chunk,
  to the file in its place and the lock released.
\<close>

section \<open>The opening\<close>

text \<open>A session that can take the upload \<^verbatim>\<open>i\<close> of a new file \<^verbatim>\<open>dst\<close>, which the client calls \<^verbatim>\<open>r\<close>.\<close>

definition can_store :: "'j env \<Rightarrow> world \<Rightarrow> apath \<Rightarrow> apath \<Rightarrow> string \<Rightarrow> u32 \<Rightarrow> bool" where
  "can_store E w M dst r i \<longleftrightarrow>
     w_state w = READY \<and> \<not> se_resuming (w_session w) \<and> \<not> se_exiting (w_session w) \<and> at_transfer_id (se_transfer (w_session w)) = UINT32_MAX \<and>
     (\<exists>st. try_acquire_user_lock E (w_storage w) (w_user w) = Some (True, st)) \<and>
     (\<exists>pm. the_pm w = Some pm \<and> spells (cwd (w_disk w)) (pm_metadata_file pm) M \<and> map_of (pm_entries pm) i = None) \<and>
     room (w_disk w) M dst i \<and> lookup (w_disk w) (part_of M i) = None \<and> i \<noteq> UINT32_MAX \<and> resolve w r = Abs dst \<and> in_user_dir w (Abs dst)"

text \<open>
  What holds in the session from the answer to the request on; \<^verbatim>\<open>b\<close> tells whether the transfer is a
  resumed one, the last of its queue.
\<close>

definition storing :: "sodium \<Rightarrow> world \<Rightarrow> apath \<Rightarrow> bytes \<Rightarrow> bool \<Rightarrow> world \<Rightarrow> bool" where
  "storing S w0 dst x b w \<longleftrightarrow> w_state w = UPLOADING \<and> se_resuming (w_session w) = b \<and> (b \<longrightarrow> se_resume_queue (w_session w) = []) \<and> \<not> se_exiting (w_session w) \<and> w_user w = w_user w0 \<and>
     fm_absolute_path (at_fmeta (se_transfer (w_session w))) = Abs dst \<and> fm_hash (at_fmeta (se_transfer (w_session w))) = hash_chunk S x \<and>
     at_chunks (se_transfer (w_session w)) = plan S x \<and> length (at_chunk_state (se_transfer (w_session w))) = chunks_of x \<and>
     locked (w_storage w) = insert (w_user w0) (locked (w_storage w0))"

definition opened :: "world \<Rightarrow> world \<Rightarrow> bool" where
  "opened w0 w \<longleftrightarrow> at_transfer_id (se_transfer (w_session w)) = UINT32_MAX \<and> the_pm w = the_pm w0 \<and> w_disk w = w_disk w0"

lemma the_pm_frame [simp]: "the_pm (set_disk d w) = the_pm w" "the_pm (set_transfer t w) = the_pm w"
  "the_pm (send_msg m w) = the_pm w" "the_pm (set_state s w) = the_pm w" "the_pm (unlock w) = the_pm w"
  by (simp_all add: the_pm_def set_disk_def set_transfer_def send_msg_def set_state_def unlock_def split: option.splits)

lemma transfer_frame [simp]: "w_session (set_disk d w) = w_session w" "w_session (set_transfer t w) = (w_session w)\<lparr>se_transfer := t\<rparr>"
  "w_storage (set_transfer t w) = w_storage w" "locked (w_storage (set_disk d w)) = locked (w_storage w)"
  "w_storage (set_state st w) = w_storage w" "w_session (set_state st w) = (w_session w)\<lparr>se_state := st\<rparr>"
  "w_storage (send_msg m w) = w_storage w" "w_session (send_msg m w) = (w_session w)\<lparr>se_outbox := se_outbox (w_session w) @ [m]\<rparr>"
  by (simp_all add: set_disk_def set_transfer_def locked_def set_state_def send_msg_def)

lemma open_upload:
  assumes c: "can_store E w0 M dst r i" and J: "json_laws (env_json E)" and S: "hash_width (env_sodium E)" "hex_laws (env_sodium E)"
  shows "\<exists>w msg. handle_request E (request_to_json (env_json E) (upload_request (env_sodium E) x r)) w0 = Some w \<and>
    storing (env_sodium E) w0 dst x False w \<and> opened w0 w \<and> se_outbox (w_session w) = se_outbox (w_session w0) @ [Json (response ''OK'' code_OK msg [])]"
proof -
  obtain st where l: "try_acquire_user_lock E (w_storage w0) (w_user w0) = Some (True, st)" using c by (auto simp: can_store_def)
  note fr = try_acquire_spec [OF l]
  define w1 where "w1 = w0\<lparr>w_storage := st\<rparr>"
  have d1: "w_disk w1 = w_disk w0" "w_session w1 = w_session w0" "the_pm w1 = the_pm w0"
    using fr by (simp_all add: w1_def the_pm_def split: option.splits)
  have d2: "locked (w_storage w1) = insert (w_user w0) (locked (w_storage w0))" using fr(2) by (simp add: w1_def)
  have rs: "resolve w1 r = Abs dst" "in_user_dir w1 (Abs dst)"
    using c d1 by (simp_all add: can_store_def resolve_def in_user_dir_def)
  have ab: "\<not> is_file (sto_disk st) (Abs dst)" "\<not> is_directory (sto_disk st) (Abs dst)" "w_disk w1 = sto_disk st"
    using c free_place_absent [of "w_disk w0" dst] fr(3) by (simp_all add: can_store_def room_def w1_def)
  have sz: "\<not> req_size (upload_request (env_sodium E) x r) > UINT32_MAX" by (rule u32_le_max)
  define w2 where "w2 = set_transfer ((se_transfer (w_session w1))\<lparr>at_fmeta := \<lparr>fm_absolute_path = Abs dst, fm_size = of_nat (length x),
      fm_last_modified = 0, fm_hash = hash_chunk (env_sodium E) x\<rparr>, at_chunks := plan (env_sodium E) x,
      at_chunk_state := replicate (chunks_of x) False\<rparr>) w1"
  define w where "w = set_state UPLOADING (okay (''Starting upload to file: '' @ rel_name w2 (se_user_dir (w_session w2)) (Abs dst)) w2)"
  have rdy: "w_state w0 = READY" using c by (simp add: can_store_def)
  have "upload_cmd E (upload_request (env_sodium E) x r) w0 = Some w"
    using rdy l rs ab sz digest_hex [OF S, of x]
    by (simp add: upload_cmd_def when_ready_def with_lock_def upload_request_def Let_def flip: w1_def) (simp add: w_def w2_def)
  then have "handle_request E (request_to_json (env_json E) (upload_request (env_sodium E) x r)) w0 = Some w"
    by (simp add: handle_request_def request_roundtrip [OF J] execute_def upload_request_def Let_def)
  moreover have "storing (env_sodium E) w0 dst x False w" "opened w0 w"
    using c d1 d2 by (simp_all add: storing_def opened_def w_def w2_def okay_def reply_def send_res_def marks_def can_store_def)
  moreover have "se_outbox (w_session w) = se_outbox (w_session w0) @ [Json (response ''OK'' code_OK (''Starting upload to file: '' @ rel_name w2 (se_user_dir (w_session w2)) (Abs dst)) [])]"
    using d1 by (simp add: w_def w2_def okay_def reply_def send_res_def response_def)
  ultimately show ?thesis by blast
qed

section \<open>The first chunk\<close>

text \<open>The partial file exists and holds the first \<^verbatim>\<open>k\<close> chunks; nothing else on the disk has changed.\<close>

definition filled :: "world \<Rightarrow> apath \<Rightarrow> bytes \<Rightarrow> u32 \<Rightarrow> nat \<Rightarrow> world \<Rightarrow> bool" where
  "filled w0 M x i k w \<longleftrightarrow> at_transfer_id (se_transfer (w_session w)) = i \<and> at_partial_path (se_transfer (w_session w)) = Abs (part_of M i) \<and>
     (\<exists>pm e. the_pm w = Some pm \<and> spells (cwd (w_disk w0)) (pm_metadata_file pm) M \<and>
        map_of (pm_entries pm) i = Some e \<and> length (pe_chunk_state e) = chunks_of x) \<and>
     part_filled (w_disk w0) M x i k (w_disk w)"

lemma put_pm_the_pm: "the_pm w = Some pm \<Longrightarrow> the_pm (put_pm pm' w) = Some pm'"
  by (auto simp: the_pm_def put_pm_def split: option.splits if_splits)

lemma put_pm_session [simp]: "w_session (put_pm pm w) = w_session w" "w_disk (put_pm pm w) = w_disk w"
  "locked (w_storage (put_pm pm w)) = locked (w_storage w)"
  by (simp_all add: put_pm_def locked_def split: option.splits)

lemma first_init:
  assumes c: "can_store E w0 M dst r i" and s: "storing S w0 dst x False w" and o: "opened w0 w"
  shows "\<exists>w1. init_if_new E i w = Some w1 \<and> storing S w0 dst x False w1 \<and> filled w0 M x i 0 w1 \<and> se_outbox (w_session w1) = se_outbox (w_session w)"
proof -
  obtain pm where pm: "the_pm w0 = Some pm" "spells (cwd (w_disk w0)) (pm_metadata_file pm) M" "map_of (pm_entries pm) i = None"
    using c by (auto simp: can_store_def)
  have rm: "room (w_disk w0) M dst i" "i \<noteq> UINT32_MAX" "lookup (w_disk w0) (part_of M i) = None" "wf_disk (w_disk w0)" "list_all plain_name (cwd (w_disk w0))"
    using c by (simp_all add: can_store_def room_def)
  define v where "v = set_transfer_id i w"
  have v: "the_pm v = Some pm" "w_disk v = w_disk w0" "at_chunks (se_transfer (w_session v)) = plan S x" "storing S w0 dst x False v"
    "at_transfer_id (se_transfer (w_session v)) = i" "se_outbox (w_session v) = se_outbox (w_session w)"
    using s o pm(1) by (simp_all add: v_def set_transfer_id_def opened_def storing_def)
  obtain pm' e where ad: "add_partial_metadata (env_now E) pm UPLOAD (at_fmeta (se_transfer (w_session v))) (plan S x) i = (i, pm')"
    "pm_metadata_file pm' = pm_metadata_file pm" "map_of (pm_entries pm') i = Some e" "length (pe_chunk_state e) = chunks_of x"
    using added_entry [OF pm(3), of i "env_now E" UPLOAD "at_fmeta (se_transfer (w_session v))" "plan S x"] rm(2) by auto
  define v1 where "v1 = put_pm pm' v"
  have v1: "the_pm v1 = Some pm'" "w_session v1 = w_session v" "w_disk v1 = w_disk w0" "locked (w_storage v1) = locked (w_storage v)"
    using put_pm_the_pm [OF v(1)] v(2) by (simp_all add: v1_def)
  have add: "pm_add E UPLOAD i v = Some (i, v1)" using v(1,3) ad(1) by (simp add: pm_add_def v1_def)
  have pp: "get_partial_path (w_disk w0) pm' i = Abs (part_of M i)"
    using partial_path_is [OF rm(4,5), of pm' M i] pm(2) ad(2,3) by simp
  obtain d where d: "create_empty_file (w_disk w0) (Abs (part_of M i)) = (True, d)" "part_filled (w_disk w0) M x i 0 d"
    using part_created(1) [OF rm(1,3), of x] by blast
  define v2 where "v2 = set_transfer ((se_transfer (w_session v1))\<lparr>at_partial_path := Abs (part_of M i)\<rparr>) v1"
  define w1 where "w1 = set_disk d v2"
  have "upload_init E v = Some w1"
    using v(5) v1 add pp d(1) part_created(2) [OF rm(1,3)]
    by (simp add: upload_init_def Let_def path_empty_def w1_def v2_def)
  then have "init_if_new E i w = Some w1" using o by (simp add: init_if_new_def opened_def v_def)
  moreover have "storing S w0 dst x False w1" "se_outbox (w_session w1) = se_outbox (w_session w)"
    using v(4,6) v1 by (simp_all add: storing_def w1_def v2_def)
  moreover have "filled w0 M x i 0 w1"
    using v(5) v1 ad pm(2) d(2) by (simp add: filled_def w1_def v2_def)
  ultimately show ?thesis by blast
qed

section \<open>Every chunk\<close>

lemma chunk_valid:
  assumes "storing (env_sodium E) w0 dst x b w" and k: "k < chunks_of x" and lt: "length x < 4294967296"
    and S: "hash_width (env_sodium E)" "hex_laws (env_sodium E)" and ne: "\<forall>s\<in>set (slices x). \<not> is_hash_error (hash_chunk (env_sodium E) s)"
  shows "valid_chunk E w (of_nat k) (of_nat (length (slice x k))) (slice x k) = Some True"
proof -
  have "slice x k \<in> set (slices x)" using k by (auto simp: slices_nth chunks_of_def)
  then show ?thesis
    using assms(1) k ne unat_index [OF k lt] digest_hex [OF S]
    by (simp add: valid_chunk_def Let_def storing_def plan_at plan_entry_def)
qed

lemma chunk_step:
  assumes "storing (env_sodium E) w0 dst x b w" and "init_if_new E i w = Some w1" and "storing (env_sodium E) w0 dst x b w1"
    and "k < chunks_of x" "length x < 4294967296" "hash_width (env_sodium E)" "hex_laws (env_sodium E)"
    "\<forall>s\<in>set (slices x). \<not> is_hash_error (hash_chunk (env_sodium E) s)"
  shows "handle_chunk E (data_header i x k) (slice x k) w =
    uploading E (of_nat k) (of_nat (length (slice x k))) (slice x k) (if Suc k = chunks_of x then flag_DONE else flag_OK) w1"
  using assms(1,2) chunk_valid [OF assms(1,4-)] chunk_valid [OF assms(3,4-)]
  by (simp add: handle_chunk_def data_header_def storing_def)

text \<open>A chunk is marked, written and acknowledged; the last one is followed by the end of the upload.\<close>

lemma chunk_written:
  assumes s: "storing (env_sodium E) w0 dst x b w" and f: "filled w0 M x i k w" and k: "k < chunks_of x" and lt: "length x < 4294967296"
    and fl: "fl = flag_DONE \<longrightarrow> Suc k = chunks_of x \<and> hash_multipart (env_sodium E) \<and> \<not> is_hash_error (hash_chunk (env_sodium E) x)"
  shows "\<exists>w1. uploading E (of_nat k) sz (slice x k) fl w = (if fl = flag_DONE then upload_done E w1 else Some w1) \<and>
    storing (env_sodium E) w0 dst x b w1 \<and> filled w0 M x i (Suc k) w1 \<and> se_outbox (w_session w1) = se_outbox (w_session w) @
      [Chunk \<lparr>ch_transfer_id = i, ch_index = of_nat k, ch_size = 0, ch_flags = fl\<rparr> []]"
proof -
  have ix: "unat (of_nat k :: u32) = k" by (rule unat_index [OF k lt])
  obtain pm e where pm: "the_pm w = Some pm" "spells (cwd (w_disk w0)) (pm_metadata_file pm) M" "map_of (pm_entries pm) i = Some e"
      "length (pe_chunk_state e) = chunks_of x"
    using f by (auto simp: filled_def)
  obtain pm' e' where mk: "mark_chunk_received (env_now E) pm i (of_nat k) = Some pm'" "pm_metadata_file pm' = pm_metadata_file pm"
      "map_of (pm_entries pm') i = Some e'" "length (pe_chunk_state e') = chunks_of x"
    using mark_received_entry [OF pm(3), of "of_nat k" "env_now E"] ix k pm(4) by auto
  define t where "t = (se_transfer (w_session w))\<lparr>at_chunk_state := (at_chunk_state (se_transfer (w_session w)))[k := True]\<rparr>"
  define v where "v = put_pm pm' (set_transfer t w)"
  have v: "the_pm v = Some pm'" "w_session v = (w_session w)\<lparr>se_transfer := t\<rparr>" "w_disk v = w_disk w" "locked (w_storage v) = locked (w_storage w)"
    using put_pm_the_pm [of "set_transfer t w" pm pm'] pm(1) by (simp_all add: v_def)
  have mv: "pm_mark E i (of_nat k) (set_transfer t w) = Some v" using pm(1) mk(1) by (simp add: pm_mark_def v_def)
  have pf: "part_filled (w_disk w0) M x i k (w_disk w)" using f by (simp add: filled_def)
  obtain d' where wr: "write_chunk (w_disk w) (Abs (part_of M i)) (CHUNK_SIZE * of_nat k) (slice x k) = (True, d')"
    and pf': "part_filled (w_disk w0) M x i (Suc k) d'"
    using part_written [OF pf k lt] by blast
  define v2 where "v2 = set_disk d' v"
  have ok: "valid_file E v2 (Abs (part_of M i)) (hash_chunk (env_sodium E) x)" if "fl = flag_DONE"
  proof -
    have "length x \<le> Suc k * 262144" using that fl chunk_in [of "Suc k" x] by auto
    then show ?thesis using that fl part_hash [OF pf'] by (simp add: valid_file_def v2_def Let_def)
  qed
  define w1 where "w1 = send_flag i (of_nat k) fl v2"
  have "uploading E (of_nat k) sz (slice x k) fl w = (if fl = flag_DONE then upload_done E w1 else Some w1)"
    using s f k ok wr mv v(3)
    by (simp add: uploading_def Let_def storing_def filled_def ix flip: t_def) (simp add: w1_def v2_def t_def)
  moreover have "storing (env_sodium E) w0 dst x b w1" using s v by (simp add: storing_def w1_def v2_def send_flag_def t_def)
  moreover have "filled w0 M x i (Suc k) w1"
    using f v mk pm(2) pf' by (simp add: filled_def w1_def v2_def send_flag_def t_def)
  moreover have "se_outbox (w_session w1) = se_outbox (w_session w) @ [Chunk \<lparr>ch_transfer_id = i, ch_index = of_nat k, ch_size = 0, ch_flags = fl\<rparr> []]"
    using v by (simp add: w1_def v2_def send_flag_def)
  ultimately show ?thesis by blast
qed

section \<open>The end\<close>

text \<open>
  The new file is in its place, the table is written, the partial file is gone, and nothing else on the
  disk has changed.
\<close>

definition stored :: "world \<Rightarrow> apath \<Rightarrow> apath \<Rightarrow> bytes \<Rightarrow> u32 \<Rightarrow> world \<Rightarrow> bool" where
  "stored w0 M dst x i w \<longleftrightarrow> w_state w = READY \<and> \<not> se_resuming (w_session w) \<and> locked (w_storage w) = locked (w_storage w0) \<and>
     lookup (w_disk w) dst = Some (File x) \<and> lookup (w_disk w) (part_of M i) = None \<and>
     (\<forall>p. p \<notin> {dst, M, tmp_of M, part_of M i} \<longrightarrow> lookup (w_disk w) p = lookup (w_disk w0) p)"

definition may_store :: "world \<Rightarrow> apath \<Rightarrow> apath \<Rightarrow> u32 \<Rightarrow> bool" where
  "may_store w0 M dst i \<longleftrightarrow> room (w_disk w0) M dst i \<and> i \<noteq> UINT32_MAX \<and> w_user w0 \<notin> locked (w_storage w0)"

text \<open>What the session says after the last chunk of a resumed transfer.\<close>

definition all_resumed :: "bool \<Rightarrow> message list" where
  "all_resumed b = (if b then [Json (response ''OK'' code_OK ''Ready.'' [])] else [])"

lemma finish_upload:
  assumes c: "may_store w0 M dst i" and s: "storing S w0 dst x b w" and f: "filled w0 M x i k w"
    and all: "length x \<le> k * 262144"
  shows "\<exists>w1. upload_done E w = Some w1 \<and> stored w0 M dst x i w1 \<and> se_outbox (w_session w1) = se_outbox (w_session w) @ all_resumed b"
proof -
  have c': "room (w_disk w0) M dst i" "w_user w0 \<notin> locked (w_storage w0)"
    using c by (simp_all add: may_store_def)
  obtain pm where pm: "the_pm w = Some pm" "spells (cwd (w_disk w0)) (pm_metadata_file pm) M"
    and pf: "part_filled (w_disk w0) M x i k (w_disk w)"
    using f by (auto simp: filled_def)
  obtain d1 d2 pm' where d: "move_path (w_disk w) (Abs (part_of M i)) (Abs dst) True = (True, d1)"
      "delete_partial_metadata (env_sodium E) (env_json E) d1 pm i = (True, d2, pm')" "lookup d2 dst = Some (File x)"
      "lookup d2 (part_of M i) = None" "\<forall>p. p \<notin> {dst, M, tmp_of M, part_of M i} \<longrightarrow> lookup d2 p = lookup (w_disk w0) p"
    using part_kept [OF c'(1) pf all pm(2), of "env_sodium E" "env_json E"] by blast
  define v where "v = unlock (set_transfer no_transfer (put_pm pm' (set_disk d2 (set_disk d1 w))))"
  have up: "upload_done E w = (if b then resume_next v else Some (set_state READY v))"
    using s f d(1,2) pm(1)
    by (simp add: upload_done_def Let_def storing_def filled_def pm_delete_def end_transfer_def handle_resumes_def v_def unlock_def)
  have v: "locked (w_storage v) = locked (w_storage w0)" "w_disk v = d2" "se_resuming (w_session v) = b"
      "b \<longrightarrow> se_resume_queue (w_session v) = []" "se_outbox (w_session v) = se_outbox (w_session w)"
    using s c'(2) by (simp_all add: storing_def v_def unlock_def)
  have "stored w0 M dst x i (set_state READY v)" if "\<not> b" using that v d(3-5) by (simp add: stored_def)
  moreover have "\<exists>w1. resume_next v = Some w1 \<and> stored w0 M dst x i w1 \<and> se_outbox (w_session w1) = se_outbox (w_session w) @ all_resumed b" if b
    using that v d(3-5) by (simp add: stored_def resume_next_def okay_def reply_def send_res_def all_resumed_def response_def)
  ultimately show ?thesis using up v(5) by (cases b) (simp_all add: all_resumed_def)
qed

text \<open>The session takes chunk \<^verbatim>\<open>k\<close> next: the transfer has its partial file, or gets it with this chunk.\<close>

definition ready_for :: "'j env \<Rightarrow> world \<Rightarrow> apath \<Rightarrow> apath \<Rightarrow> bytes \<Rightarrow> u32 \<Rightarrow> bool \<Rightarrow> nat \<Rightarrow> world \<Rightarrow> bool" where
  "ready_for E w0 M dst x i b k w \<longleftrightarrow> storing (env_sodium E) w0 dst x b w \<and>
     (\<exists>w1. init_if_new E i w = Some w1 \<and> storing (env_sodium E) w0 dst x b w1 \<and> filled w0 M x i k w1 \<and>
        se_outbox (w_session w1) = se_outbox (w_session w))"

lemma ready_filled:
  assumes "may_store w0 M dst i" and "storing (env_sodium E) w0 dst x b w" and "filled w0 M x i k w"
  shows "ready_for E w0 M dst x i b k w"
  using assms by (simp add: ready_for_def init_if_new_def filled_def may_store_def)

lemma ready_first:
  assumes "can_store E w0 M dst r i" and "storing (env_sodium E) w0 dst x False w" and "opened w0 w"
  shows "ready_for E w0 M dst x i False 0 w"
  using first_init [OF assms] assms(2) by (auto simp: ready_for_def)

text \<open>What the receiver does with one chunk of the sequence.\<close>

lemma receive_next:
  assumes c: "may_store w0 M dst i" and r: "ready_for E w0 M dst x i b k w"
    and k: "k < chunks_of x" and lt: "length x < 4294967296"
    and S: "hash_width (env_sodium E)" "hex_laws (env_sodium E)" "hash_multipart (env_sodium E)" "\<not> is_hash_error (hash_chunk (env_sodium E) x)"
      "\<forall>s\<in>set (slices x). \<not> is_hash_error (hash_chunk (env_sodium E) s)"
  shows "\<exists>w'. handle_chunk E (data_header i x k) (slice x k) w = Some w' \<and>
    (if Suc k = chunks_of x then stored w0 M dst x i w' else ready_for E w0 M dst x i b (Suc k) w') \<and>
    se_outbox (w_session w') = se_outbox (w_session w) @ Chunk (ack_header i x k) [] # (if Suc k = chunks_of x then all_resumed b else [])"
proof -
  obtain w1 where s: "storing (env_sodium E) w0 dst x b w" and w1: "init_if_new E i w = Some w1"
      "storing (env_sodium E) w0 dst x b w1" "filled w0 M x i k w1" "se_outbox (w_session w1) = se_outbox (w_session w)"
    using r by (auto simp: ready_for_def)
  define fl where "fl = (if Suc k = chunks_of x then flag_DONE else flag_OK)"
  have ack: "\<lparr>ch_transfer_id = i, ch_index = of_nat k, ch_size = 0, ch_flags = fl\<rparr> = ack_header i x k"
    by (simp add: ack_header_def fl_def)
  have fl: "fl = flag_DONE \<longleftrightarrow> Suc k = chunks_of x" by (simp add: fl_def)
  then have "fl = flag_DONE \<longrightarrow> Suc k = chunks_of x \<and> hash_multipart (env_sodium E) \<and> \<not> is_hash_error (hash_chunk (env_sodium E) x)"
    using S by simp
  from chunk_written [OF w1(2,3) k lt this, of "of_nat (length (slice x k))"]
  obtain w2 where w2: "uploading E (of_nat k) (of_nat (length (slice x k))) (slice x k) fl w1 = (if fl = flag_DONE then upload_done E w2 else Some w2)"
      "storing (env_sodium E) w0 dst x b w2" "filled w0 M x i (Suc k) w2"
      "se_outbox (w_session w2) = se_outbox (w_session w) @ [Chunk (ack_header i x k) []]"
    unfolding ack w1(4) by blast
  have st: "handle_chunk E (data_header i x k) (slice x k) w = (if Suc k = chunks_of x then upload_done E w2 else Some w2)"
    using chunk_step [OF s w1(1,2) k lt S(1,2,5)] w2(1) unfolding fl_def [symmetric] fl by (rule trans)
  show ?thesis
  proof (cases "Suc k = chunks_of x")
    case True
    then have "length x \<le> Suc k * 262144" using chunk_in [of "Suc k" x] by auto
    from finish_upload [OF c w2(2,3) this] obtain w3 where "upload_done E w2 = Some w3" "stored w0 M dst x i w3"
      "se_outbox (w_session w3) = se_outbox (w_session w2) @ all_resumed b" by blast
    then show ?thesis using st w2(4) True by simp
  qed (use st w2 ready_filled [OF c w2(2,3)] in simp)
qed

section \<open>A stale partial file\<close>

text \<open>
  The client picks the id of an upload from its own table. When the server's table still has an unfinished
  transfer under that id, which happens in public mode, where nothing is resumed, the entry and the
  partial file of the old transfer are taken for the new one. If its content shows behind the new
  content the upload is refused at its end.
\<close>

lemma stale_part_spoils_upload:
  assumes s: "storing (env_sodium E) w0 dst x False w" and n: "chunks_of x = 1"
    and t: "at_transfer_id (se_transfer (w_session w)) = i" "at_partial_path (se_transfer (w_session w)) = Abs p"
    and pm: "the_pm w = Some pm" "map_of (pm_entries pm) i = Some e" "pe_chunk_state e \<noteq> []"
    and d: "wf_disk (w_disk w)" "faults (w_disk w) = []" "lookup (w_disk w) p = Some (File y)"
    and h: "hash_multipart (env_sodium E)" "hash_chunk (env_sodium E) (splice 0 x y) \<noteq> hash_chunk (env_sodium E) x"
  shows "\<exists>w1. uploading E 0 sz x flag_DONE w = upload_abort E False True flag_ERROR w1 \<and>
    lookup (w_disk w1) p = Some (File (splice 0 x y))"
proof -
  obtain pm' where mk: "mark_chunk_received (env_now E) pm i 0 = Some pm'"
    using pm(2,3) by (auto simp: mark_chunk_received_def)
  define t1 where "t1 = (se_transfer (w_session w))\<lparr>at_chunk_state := (at_chunk_state (se_transfer (w_session w)))[0 := True]\<rparr>"
  have st: "at_chunk_state (se_transfer (w_session w)) \<noteq> []" using s n by (auto simp: storing_def)
  define v where "v = put_pm pm' (set_transfer t1 w)"
  have mv: "pm_mark E i 0 (set_transfer t1 w) = Some v" using pm(1) mk by (simp add: pm_mark_def v_def)
  define d' where "d' = put (w_disk w) p (File (splice 0 x y))"
  have wr: "write_chunk (w_disk w) (Abs p) 0 x = (True, d')" using write_chunk_ok [OF d, of 0 x] by (simp add: d'_def)
  have "wf_disk d'" unfolding d'_def by (rule wf_put_file [OF d(1,3)])
  then have "status d' (Abs p) = Some (File (splice 0 x y))" by (simp add: status_def locate_plain_Abs d'_def)
  then have "\<not> valid_file E (set_disk d' v) (Abs p) (hash_chunk (env_sodium E) x)"
    using hash_file_content [OF h(1)] h(2) by (simp add: valid_file_def Let_def hash_chunk_def)
  then have "uploading E 0 sz x flag_DONE w = upload_abort E False True flag_ERROR (set_disk d' v)"
    using s n t mv wr st
    by (simp add: uploading_def Let_def storing_def flip: t1_def) (simp add: v_def t1_def)
  then show ?thesis by (auto simp: d'_def)
qed

end
