(* ===== verification/Serving.thy ===== *)
theory Serving
  imports Receiver
begin

text \<open>
  The session as the sender of a file: the request that opens a download, the chunks it sends on each
  acknowledgement, and its return to the ready state.
\<close>

definition download_response :: "sodium \<Rightarrow> bytes \<Rightarrow> Response" where
  "download_response S x = (response ''OK'' code_OK ''Starting download.'' (hash_to_hex S (hash_chunk S x)))\<lparr>res_chunks := plan S x\<rparr>"

text \<open>A session that can serve the file \<^verbatim>\<open>q\<close>, which the client calls \<^verbatim>\<open>r\<close>, as the transfer \<^verbatim>\<open>i\<close>.\<close>

definition can_serve :: "'j env \<Rightarrow> world \<Rightarrow> apath \<Rightarrow> apath \<Rightarrow> string \<Rightarrow> bytes \<Rightarrow> u32 \<Rightarrow> bool" where
  "can_serve E w M q r x i \<longleftrightarrow>
     w_state w = READY \<and> \<not> se_resuming (w_session w) \<and> \<not> se_exiting (w_session w) \<and>
     (\<exists>st. try_acquire_user_lock E (w_storage w) (w_user w) = Some (True, st)) \<and>
     (\<exists>pm. the_pm w = Some pm \<and> spells (cwd (w_disk w)) (pm_metadata_file pm) M \<and>
        fst (generate_id pm) = i \<and> map_of (pm_entries pm) i = None) \<and>
     sendable (env_sodium E) (w_disk w) q x \<and> faults (w_disk w) = [] \<and> file_slot (w_disk w) M \<and>
     resolve w r = Abs q \<and> in_user_dir w (Abs q)"

text \<open>
  The session while it sends, \<^verbatim>\<open>k\<close> chunks being acknowledged; \<^verbatim>\<open>b\<close> tells whether the transfer is a resumed
  one, the last of its queue.
\<close>

definition serving :: "sodium \<Rightarrow> world \<Rightarrow> apath \<Rightarrow> apath \<Rightarrow> bytes \<Rightarrow> u32 \<Rightarrow> bool \<Rightarrow> nat \<Rightarrow> world \<Rightarrow> bool" where
  "serving S w0 M q x i b k w \<longleftrightarrow> w_state w = DOWNLOADING \<and> se_resuming (w_session w) = b \<and> (b \<longrightarrow> se_resume_queue (w_session w) = []) \<and> \<not> se_exiting (w_session w) \<and>
     w_user w = w_user w0 \<and> locked (w_storage w) = insert (w_user w0) (locked (w_storage w0)) \<and> w_disk w = w_disk w0 \<and>
     at_transfer_id (se_transfer (w_session w)) = i \<and> fm_absolute_path (at_fmeta (se_transfer (w_session w))) = Abs q \<and>
     at_chunks (se_transfer (w_session w)) = plan S x \<and> at_chunk_state (se_transfer (w_session w)) = marks (chunks_of x) k \<and>
     (\<exists>pm e. the_pm w = Some pm \<and> spells (cwd (w_disk w0)) (pm_metadata_file pm) M \<and>
        map_of (pm_entries pm) i = Some e \<and> length (pe_chunk_state e) = chunks_of x)"

lemma serve_next:
  assumes "sendable S (w_disk w0) q x" and "serving S w0 M q x i b k w" and "k < chunks_of x"
  shows "downloading w = Some (send_msg (Chunk (data_header i x k) (slice x k)) w)"
proof -
  have ix: "unat (of_nat k :: u32) = k" using unat_index [OF assms(3) sendable_length [OF assms(1)]] .
  have rd: "read_chunk (w_disk w) (Abs q) (of_nat k * CHUNK_SIZE) (of_nat (length (slice x k))) = slice x k"
    using read_chunk_slice [OF sendable_status [OF assms(1)] sendable_length [OF assms(1)]] assms(2,3)
    by (simp add: serving_def chunk_in)
  have "slice x k \<noteq> []" using assms(3) by (intro slice_nonempty) (simp add: chunk_in)
  moreover have "k = chunks_of x - Suc 0 \<longleftrightarrow> Suc k = chunks_of x" using assms(3) by auto
  ultimately show ?thesis
    using assms(2,3) ix rd
    by (simp add: downloading_def Let_def serving_def first_pending_marks plan_at plan_entry_def data_header_def mult.commute)
qed

lemma serving_send [simp]: "serving S w0 M q x i b k (send_msg m w) = serving S w0 M q x i b k w"
  by (simp add: serving_def)

lemma open_download:
  assumes c: "can_serve E w0 M q r x i" and J: "json_laws (env_json E)" and S: "hash_multipart (env_sodium E)"
  shows "\<exists>w. handle_request E (request_to_json (env_json E) (download_request r)) w0 = Some w \<and>
    serving (env_sodium E) w0 M q x i False 0 w \<and> se_outbox (w_session w) = se_outbox (w_session w0) @
      [Json (download_response (env_sodium E) x), Chunk (data_header i x 0) (slice x 0)]"
proof -
  obtain st where l: "try_acquire_user_lock E (w_storage w0) (w_user w0) = Some (True, st)" using c by (auto simp: can_serve_def)
  note fr = try_acquire_spec [OF l]
  define sd where "sd = env_sodium E"
  have s: "sendable sd (w_disk w0) q x" using c by (simp add: can_serve_def sd_def)
  define w1 where "w1 = w0\<lparr>w_storage := st\<rparr>"
  have d1: "w_disk w1 = w_disk w0" "w_session w1 = w_session w0" "the_pm w1 = the_pm w0" "sto_disk st = w_disk w0"
    "locked (w_storage w1) = insert (w_user w0) (locked (w_storage w0))"
    using fr by (simp_all add: w1_def the_pm_def split: option.splits)
  have rs: "resolve w1 r = Abs q" "in_user_dir w1 (Abs q)"
    using c d1 by (simp_all add: can_serve_def resolve_def in_user_dir_def)
  have st: "is_file (w_disk w0) (Abs q)" "\<not> is_directory (w_disk w0) (Abs q)"
    using sendable_status [OF s] by (simp_all add: is_file_def fs_is_regular_file_def is_directory_def fs_is_directory_def)
  define fm where "fm = scan_file sd (w_disk w0) (Abs q)"
  have f: "fm_absolute_path fm = Abs q" "fm_size fm = of_nat (length x)" "fm_hash fm = hash_chunk sd x"
    unfolding fm_def scan_sendable [OF s S [folded sd_def] sendable_status [OF s] sendable_absolute [OF s]] by simp_all
  note ok = sent_metadata [OF s f(1,2)]
  have sz: "\<not> fm_size fm > UINT32_MAX" by (rule u32_le_max)
  define w2 where "w2 = set_transfer ((se_transfer (w_session w1))\<lparr>at_fmeta := fm, at_chunks := plan sd x,
      at_chunk_state := replicate (chunks_of x) False\<rparr>) w1"
  define w3 where "w3 = set_state DOWNLOADING (send_msg (Json (download_response sd x)) w2)"
  have rdy: "w_state w0 = READY" using c by (simp add: can_serve_def)
  have h: "handle_request E (request_to_json (env_json E) (download_request r)) w0 = download_init E w3"
    using rdy l rs st d1(1,4) ok sz f(3)
    by (simp add: handle_request_def request_roundtrip [OF J] execute_def download_request_def download_cmd_def when_ready_def with_lock_def Let_def
        flip: w1_def sd_def) (simp add: w3_def w2_def download_response_def flip: fm_def sd_def)
  obtain pm where pm: "the_pm w0 = Some pm" "spells (cwd (w_disk w0)) (pm_metadata_file pm) M" "fst (generate_id pm) = i" "map_of (pm_entries pm) i = None"
    using c by (auto simp: can_serve_def)
  obtain pm' e where ad: "add_partial_metadata (env_now E) pm DOWNLOAD fm (plan sd x) UINT32_MAX = (i, pm')"
    "pm_metadata_file pm' = pm_metadata_file pm" "map_of (pm_entries pm') i = Some e" "length (pe_chunk_state e) = chunks_of x"
    using added_entry [OF pm(4), of UINT32_MAX "env_now E" DOWNLOAD fm "plan sd x"] pm(3) by auto
  have pm3: "the_pm w3 = Some pm" using d1(3) pm(1) by (simp add: w3_def w2_def)
  define w4 where "w4 = set_transfer ((se_transfer (w_session w3))\<lparr>at_transfer_id := i\<rparr>) (put_pm pm' w3)"
  have "pm_add E DOWNLOAD UINT32_MAX w3 = Some (i, put_pm pm' w3)"
    using pm3 ad(1) by (simp add: pm_add_def) (simp add: w3_def w2_def)
  then have i4: "download_init E w3 = downloading w4" by (simp add: download_init_def w4_def)
  have s4: "serving sd w0 M q x i False 0 w4"
    using c d1 pm(2) ad f(1) put_pm_the_pm [OF pm3, of pm']
    by (simp add: serving_def w4_def w3_def w2_def can_serve_def marks_def)
  have "0 < chunks_of x" using s by (simp add: sendable_def chunk_in)
  then have "downloading w4 = Some (send_msg (Chunk (data_header i x 0) (slice x 0)) w4)" by (rule serve_next [OF s s4])
  moreover have "se_outbox (w_session w4) = se_outbox (w_session w0) @ [Json (download_response sd x)]"
    using d1(2) by (simp add: w4_def w3_def w2_def)
  ultimately show ?thesis using h i4 s4 by (simp add: sd_def)
qed

text \<open>An acknowledgement, and the last one.\<close>

lemma served_next:
  assumes s: "sendable S (w_disk w0) q x" and w: "serving S w0 M q x i b k w" and k: "Suc k < chunks_of x"
  shows "\<exists>w'. handle_chunk E (ack_header i x k) [] w = Some w' \<and> serving S w0 M q x i b (Suc k) w' \<and>
    se_outbox (w_session w') = se_outbox (w_session w) @ [Chunk (data_header i x (Suc k)) (slice x (Suc k))]"
proof -
  have k': "k < chunks_of x" using k by simp
  have ix: "unat (of_nat k :: u32) = k" using unat_index [OF k' sendable_length [OF s]] .
  obtain pm e where pm: "the_pm w = Some pm" "spells (cwd (w_disk w0)) (pm_metadata_file pm) M" "map_of (pm_entries pm) i = Some e"
      "length (pe_chunk_state e) = chunks_of x"
    using w by (auto simp: serving_def)
  obtain pm' e' where mk: "mark_chunk_received (env_now E) pm i (of_nat k) = Some pm'" "pm_metadata_file pm' = pm_metadata_file pm"
      "map_of (pm_entries pm') i = Some e'" "length (pe_chunk_state e') = chunks_of x"
    using mark_received_entry [OF pm(3), of "of_nat k" "env_now E"] ix k' pm(4) by auto
  define t where "t = (se_transfer (w_session w))\<lparr>at_chunk_state := marks (chunks_of x) (Suc k)\<rparr>"
  define v where "v = put_pm pm' (set_transfer t w)"
  have mv: "pm_mark E i (of_nat k) (set_transfer t w) = Some v" using pm(1) mk(1) by (simp add: pm_mark_def v_def)
  have sv: "serving S w0 M q x i b (Suc k) v"
    using w mk pm(2) put_pm_the_pm [of "set_transfer t w" pm pm'] pm(1) by (simp add: serving_def v_def t_def)
  have "handle_chunk E (ack_header i x k) [] w = downloading v"
    using w k k' mv by (simp add: handle_chunk_def Let_def ack_header_def serving_def ix marks_next flip: t_def)
  then show ?thesis using serve_next [OF s sv k] sv by (simp add: v_def)
qed

text \<open>What the session needs for the chunks alone, and how it ends.\<close>

definition may_serve :: "'j env \<Rightarrow> world \<Rightarrow> apath \<Rightarrow> apath \<Rightarrow> bytes \<Rightarrow> bool" where
  "may_serve E w M q x \<longleftrightarrow> sendable (env_sodium E) (w_disk w) q x \<and> faults (w_disk w) = [] \<and> file_slot (w_disk w) M \<and>
     w_user w \<notin> locked (w_storage w)"

definition served :: "world \<Rightarrow> apath \<Rightarrow> world \<Rightarrow> bool" where
  "served w0 M w \<longleftrightarrow> w_state w = READY \<and> \<not> se_resuming (w_session w) \<and> locked (w_storage w) = locked (w_storage w0) \<and>
     (\<forall>p. p \<notin> {M, tmp_of M} \<longrightarrow> lookup (w_disk w) p = lookup (w_disk w0) p)"

lemma served_done:
  assumes c: "may_serve E w0 M q x" and w: "serving S w0 M q x i b k w" and k: "Suc k = chunks_of x"
  shows "\<exists>w'. handle_chunk E (ack_header i x k) [] w = Some w' \<and> served w0 M w' \<and>
    se_outbox (w_session w') = se_outbox (w_session w) @ all_resumed b"
proof -
  have c': "w_user w0 \<notin> locked (w_storage w0)" "wf_disk (w_disk w0)" "faults (w_disk w0) = []" "file_slot (w_disk w0) M" "length x < 4294967296"
    using c by (auto simp: may_serve_def sendable_def)
  have ix: "unat (of_nat k :: u32) = k" using unat_index [of k x] c'(5) k by simp
  obtain pm where pm: "the_pm w = Some pm" "spells (cwd (w_disk w0)) (pm_metadata_file pm) M" using w by (auto simp: serving_def)
  obtain d pm' where d: "delete_partial_metadata (env_sodium E) (env_json E) (w_disk w0) pm i = (True, d, pm')"
      "\<forall>p. p \<notin> {M, tmp_of M} \<longrightarrow> lookup d p = lookup (w_disk w0) p"
    using table_cleared [OF c'(2-4) pm(2)] by blast
  define t where "t = (se_transfer (w_session w))\<lparr>at_chunk_state := marks (chunks_of x) (Suc k)\<rparr>"
  define v where "v = set_transfer t w"
  have h: "handle_chunk E (ack_header i x k) [] w = download_done E v"
    using w k by (simp add: handle_chunk_def Let_def ack_header_def serving_def ix v_def) (simp add: marks_next t_def)
  have v: "the_pm v = Some pm" "w_disk v = w_disk w0" "at_transfer_id (se_transfer (w_session v)) = i" "se_resuming (w_session v) = b"
      "b \<longrightarrow> se_resume_queue (w_session v) = []" "w_user v = w_user w0" "locked (w_storage v) = insert (w_user w0) (locked (w_storage w0))"
      "se_outbox (w_session v) = se_outbox (w_session w)"
    using w pm(1) by (simp_all add: v_def t_def serving_def)
  define u where "u = unlock (set_transfer no_transfer (put_pm pm' (set_disk d v)))"
  have "download_done E v = (if b then resume_next u else Some (set_state READY u))"
    using v d(1) by (simp add: download_done_def discard_download_def pm_delete_def end_transfer_def handle_resumes_def Let_def u_def unlock_def)
  moreover have u: "locked (w_storage u) = locked (w_storage w0)" "w_disk u = d" "se_resuming (w_session u) = b"
      "b \<longrightarrow> se_resume_queue (w_session u) = []" "se_outbox (w_session u) = se_outbox (w_session w)"
    using v c'(1) by (simp_all add: u_def unlock_def)
  moreover have "served w0 M (set_state READY u)" if "\<not> b" using that u d(2) by (simp add: served_def)
  moreover have "\<exists>w'. resume_next u = Some w' \<and> served w0 M w' \<and> se_outbox (w_session w') = se_outbox (w_session w) @ all_resumed b" if b
    using that u d(2) by (simp add: served_def resume_next_def okay_def reply_def send_res_def all_resumed_def response_def)
  ultimately show ?thesis using h by (cases b) (simp_all add: all_resumed_def)
qed

end
