(* ===== verification/OrdMap.thy ===== *)
theory OrdMap
  imports Prelude
begin

text \<open>
  \<^verbatim>\<open>std::map\<close> as the list of its entries in key order: assignment through \<^verbatim>\<open>operator[]\<close>, \<^verbatim>\<open>emplace\<close>
  (which keeps an entry that is there), \<^verbatim>\<open>erase\<close> and \<^verbatim>\<open>lower_bound\<close>; lookup is \<^verbatim>\<open>map_of\<close>.
\<close>

type_synonym ('k, 'v) omap = "('k \<times> 'v) list"

definition omap_wf :: "('k::linorder, 'v) omap \<Rightarrow> bool" where
  "omap_wf m \<longleftrightarrow> sorted_wrt (<) (map fst m)"

fun omap_put :: "'k::linorder \<Rightarrow> 'v \<Rightarrow> ('k, 'v) omap \<Rightarrow> ('k, 'v) omap" where
  "omap_put k v [] = [(k, v)]"
| "omap_put k v ((j, u) # m) =
     (if k < j then (k, v) # (j, u) # m else if k = j then (k, v) # m else (j, u) # omap_put k v m)"

definition omap_emplace :: "'k::linorder \<Rightarrow> 'v \<Rightarrow> ('k, 'v) omap \<Rightarrow> ('k, 'v) omap" where
  "omap_emplace k v m = (if map_of m k = None then omap_put k v m else m)"

definition omap_erase :: "'k \<Rightarrow> ('k, 'v) omap \<Rightarrow> ('k, 'v) omap" where
  "omap_erase k m = filter (\<lambda>(j, v). j \<noteq> k) m"

definition lower_bound :: "'k::linorder \<Rightarrow> ('k, 'v) omap \<Rightarrow> ('k, 'v) omap" where
  "lower_bound k m = dropWhile (\<lambda>(j, v). j < k) m"

section \<open>Laws\<close>

lemma omap_wf_simps [simp]:
  "omap_wf []" "omap_wf ((k, v) # m) \<longleftrightarrow> (\<forall>j\<in>fst ` set m. k < j) \<and> omap_wf m"
  by (auto simp: omap_wf_def)

lemma omap_put_keys [simp]: "fst ` set (omap_put k v m) = insert k (fst ` set m)"
  by (induction k v m rule: omap_put.induct) auto

lemma omap_put_wf [simp]: "omap_wf m \<Longrightarrow> omap_wf (omap_put k v m)"
proof (induction k v m rule: omap_put.induct)
  case (2 k v j u m)
  then show ?case by (auto simp del: image_iff ball_simps simp: ball_simps(9))
qed simp

lemma omap_put_lookup [simp]: "omap_wf m \<Longrightarrow> map_of (omap_put k v m) = (map_of m)(k \<mapsto> v)"
proof (induction k v m rule: omap_put.induct)
  case (2 k v j u m)
  then show ?case by (auto simp: fun_eq_iff)
qed simp

lemma omap_emplace_wf [simp]: "omap_wf m \<Longrightarrow> omap_wf (omap_emplace k v m)"
  by (simp add: omap_emplace_def)

lemma omap_emplace_lookup [simp]:
  "omap_wf m \<Longrightarrow> map_of (omap_emplace k v m) = (if map_of m k = None then (map_of m)(k \<mapsto> v) else map_of m)"
  by (simp add: omap_emplace_def)

lemma omap_erase_keys: "fst ` set (omap_erase k m) = fst ` set m - {k}"
  by (auto simp: omap_erase_def)

lemma omap_erase_wf [simp]: "omap_wf m \<Longrightarrow> omap_wf (omap_erase k m)"
  by (induction m) (auto simp: omap_erase_def)

lemma omap_erase_lookup [simp]: "map_of (omap_erase k m) = (map_of m)(k := None)"
  by (induction m) (auto simp: omap_erase_def fun_eq_iff)

lemma omap_wf_distinct: "omap_wf m \<Longrightarrow> distinct (map fst m)"
  by (simp add: omap_wf_def strict_sorted_iff)

lemma omap_wf_in_set: "omap_wf m \<Longrightarrow> (k, v) \<in> set m \<longleftrightarrow> map_of m k = Some v"
  by (simp add: omap_wf_distinct)

lemma omap_keys_list: "omap_wf m \<Longrightarrow> map fst m = sorted_list_of_set (dom (map_of m))"
  by (metis dom_map_of_conv_image_fst list.set_map omap_wf_def sorted_list_of_set.idem_if_sorted_distinct
      strict_sorted_iff)

lemma omap_from_keys: "omap_wf m \<Longrightarrow> m = map (\<lambda>k. (k, the (map_of m k))) (map fst m)"
  by (auto simp: omap_wf_distinct intro!: map_idI [symmetric])

lemma omap_ext:
  assumes "omap_wf m" and "omap_wf n" and "map_of m = map_of n"
  shows "m = n"
  using assms omap_from_keys omap_keys_list by metis

end
