(* ===== verification/SyncManifest.thy ===== *)
theory SyncManifest
  imports OrdMap FsUtils_Laws
begin

text \<open>
  \<^verbatim>\<open>SyncManifest\<close> (\<^verbatim>\<open>client/src/sync_manifest.cpp\<close>): what a pair of folders looked like after its
  last synchronisation, kept in a JSON file inside the local folder. Every problem with the file
  is read as an empty baseline.
\<close>

section \<open>Data\<close>

record SyncManifestEntry =
  sm_hash :: string
  sm_mtime :: u64
  sm_size :: u32
  sm_is_directory :: bool

record SyncManifest =
  mf_manifest_file :: fpath
  mf_remote_dir :: string
  mf_entries :: "(string, SyncManifestEntry) omap"

section \<open>The file name\<close>

definition escape_char :: "char \<Rightarrow> char" where
  "escape_char c = (if c \<in> {CHR ''/'', CHR 0x5C, CHR '':'', CHR ''.'', CHR '' ''} then CHR ''_'' else c)"

definition escape_remote_dir :: "string \<Rightarrow> string" where
  "escape_remote_dir rd =
     (let front = dropWhile (\<lambda>c. c = CHR ''_'') (map escape_char rd);
          trimmed = rev (dropWhile (\<lambda>c. c = CHR ''_'') (rev front))
      in if trimmed = [] then ''root'' else trimmed)"

definition manifest_path :: "fpath \<Rightarrow> string \<Rightarrow> fpath" where
  "manifest_path local_dir rd =
     path_append (path_append local_dir (path_of_string ''.minidrive-sync''))
       (path_of_string (escape_remote_dir rd @ ''.json''))"

section \<open>Loading and saving\<close>

definition item_from_json :: "'j json_lib \<Rightarrow> 'j \<Rightarrow> (string \<times> SyncManifestEntry) option" where
  "item_from_json J j = do {
     h \<leftarrow> jvalue J (get_str J) [] j ''hash'';
     m \<leftarrow> jvalue J (get_word J) 0 j ''mtime'';
     s \<leftarrow> jvalue J (get_word J) 0 j ''size'';
     d \<leftarrow> jvalue J (get_bool J) False j ''is_directory'';
     k \<leftarrow> jat J j ''relative_path'' \<bind> get_str J;
     Some (k, \<lparr>sm_hash = h, sm_mtime = m, sm_size = s, sm_is_directory = d\<rparr>) }"

definition manifest_of_text :: "'j json_lib \<Rightarrow> string \<Rightarrow> bytes \<Rightarrow> (string, SyncManifestEntry) omap option" where
  "manifest_of_text J rd c = do {
     j \<leftarrow> jparse J c;
     dir \<leftarrow> jvalue J (get_str J) [] j ''remote_dir'';
     if dir \<noteq> rd then Some []
     else do {
       es \<leftarrow> jat J j ''entries'';
       items \<leftarrow> those (map (item_from_json J) (jiter J es));
       Some (fold (\<lambda>(k, e). omap_put k e) items []) } }"

definition manifest_load :: "'j json_lib \<Rightarrow> disk \<Rightarrow> SyncManifest \<Rightarrow> SyncManifest" where
  "manifest_load J d mf =
     (case status d (mf_manifest_file mf) of
        None \<Rightarrow> mf
      | Some (File c) \<Rightarrow>
          mf\<lparr>mf_entries := (case manifest_of_text J (mf_remote_dir mf) c of None \<Rightarrow> [] | Some m \<Rightarrow> m)\<rparr>
      | Some Dir \<Rightarrow> mf\<lparr>mf_entries := []\<rparr>)"

definition new_manifest :: "'j json_lib \<Rightarrow> disk \<Rightarrow> fpath \<Rightarrow> string \<Rightarrow> SyncManifest \<times> disk" where
  "new_manifest J d local_dir rd =
     (case fs_create_directories d (path_append local_dir (path_of_string ''.minidrive-sync'')) of (_, _, d1) \<Rightarrow>
        (manifest_load J d1 \<lparr>mf_manifest_file = manifest_path local_dir rd, mf_remote_dir = rd, mf_entries = []\<rparr>, d1))"

definition manifest_get :: "SyncManifest \<Rightarrow> string \<Rightarrow> SyncManifestEntry option" where
  "manifest_get mf k = map_of (mf_entries mf) k"

definition manifest_put :: "string \<Rightarrow> SyncManifestEntry \<Rightarrow> SyncManifest \<Rightarrow> SyncManifest" where
  "manifest_put k e mf = mf\<lparr>mf_entries := omap_put k e (mf_entries mf)\<rparr>"

definition manifest_remove :: "string \<Rightarrow> SyncManifest \<Rightarrow> SyncManifest" where
  "manifest_remove k mf = mf\<lparr>mf_entries := omap_erase k (mf_entries mf)\<rparr>"

definition item_to_json :: "'j json_lib \<Rightarrow> string \<times> SyncManifestEntry \<Rightarrow> 'j" where
  "item_to_json J ke = (case ke of (k, e) \<Rightarrow>
     jobj J [(''relative_path'', jstr J k), (''hash'', jstr J (sm_hash e)), (''mtime'', juint J (unat (sm_mtime e))),
       (''size'', juint J (unat (sm_size e))), (''is_directory'', jbool J (sm_is_directory e))])"

definition manifest_text :: "'j json_lib \<Rightarrow> string \<Rightarrow> (string, SyncManifestEntry) omap \<Rightarrow> bytes" where
  "manifest_text J rd m = jpretty J 4
     (jobj J [(''remote_dir'', jstr J rd), (''entries'', jarr J (map (item_to_json J) m))])"

text \<open>
  \<^verbatim>\<open>save\<close> looks at the stream after the text went in. The stream hands texts of 1024 bytes and more
  to the kernel at once; a shorter one stays in its buffer and a refusal comes after the check.
\<close>

definition STREAM_LIMIT :: nat where "STREAM_LIMIT = 1024"

definition manifest_save :: "'j json_lib \<Rightarrow> disk \<Rightarrow> SyncManifest \<Rightarrow> bool \<times> disk" where
  "manifest_save J d mf =
     (let tmp = path_concat (mf_manifest_file mf) ''.tmp'';
          bs = manifest_text J (mf_remote_dir mf) (mf_entries mf)
      in case open_new d tmp of
           (False, d1) \<Rightarrow> (False, d1)
         | (True, d1) \<Rightarrow>
             (case stream_write d1 tmp bs of (ok, d2) \<Rightarrow>
                if \<not> ok \<and> length bs \<ge> STREAM_LIMIT then (False, d2)
                else fs_rename d2 tmp (mf_manifest_file mf)))"

section \<open>Laws\<close>

lemma escape_char_plain: "CHR ''/'' \<notin> set (map escape_char s)"
  by (auto simp: escape_char_def)

lemma escape_remote_dir_name: "proper_name (escape_remote_dir rd @ ''.json'')"
proof -
  have "CHR ''/'' \<notin> set (escape_remote_dir rd)"
    using escape_char_plain [of rd] by (auto simp del: set_map simp: escape_remote_dir_def Let_def dest!: set_dropWhileD)
  moreover have "length (escape_remote_dir rd @ ''.json'') > 2" by simp
  ultimately show ?thesis unfolding proper_name_def by auto
qed

lemma item_roundtrip: "json_laws J \<Longrightarrow> item_from_json J (item_to_json J ke) = Some ke"
  by (cases ke) (simp add: item_from_json_def item_to_json_def jvalue_jobj json_at json_str json_bool get_word_juint)

lemma fold_put_lookup:
  "omap_wf m \<Longrightarrow> distinct (map fst xs) \<Longrightarrow> omap_wf (fold (\<lambda>(k, e). omap_put k e) xs m) \<and>
   map_of (fold (\<lambda>(k, e). omap_put k e) xs m) = map_of m ++ map_of xs"
proof (induction xs arbitrary: m)
  case (Cons x xs)
  then show ?case by (cases x) (auto simp: fun_eq_iff map_add_def map_of_eq_None_iff [symmetric] split: option.splits)
qed simp

lemma fold_put_same: "omap_wf m \<Longrightarrow> fold (\<lambda>(k, e). omap_put k e) m [] = m"
  using fold_put_lookup [of "[]" m] by (auto intro: omap_ext simp: omap_wf_distinct)

lemma manifest_text_roundtrip:
  assumes "json_laws J" and "json_text J" and "omap_wf m"
  shows "manifest_of_text J rd (manifest_text J rd' m) = Some (if rd' = rd then m else [])"
proof -
  have "those (map (item_from_json J) (map (item_to_json J) m)) = Some m"
    using item_roundtrip [OF assms(1)] by (intro those_map_Some)
  then show ?thesis
    using assms
    by (simp add: manifest_of_text_def manifest_text_def json_text_def jvalue_jobj json_at json_str json_iter fold_put_same)
qed


interpretation manifest_file: text_codec "\<lambda>(rd, m). manifest_text J rd m" "manifest_of_text J rd'"
  "\<lambda>(rd, m). json_laws J \<and> json_text J \<and> omap_wf m" "\<lambda>(rd, m). if rd = rd' then m else []"
  for J :: "'j json_lib" and rd' :: string
proof
  fix x :: "string \<times> (string, SyncManifestEntry) omap"
  assume "case x of (rd, m) \<Rightarrow> json_laws J \<and> json_text J \<and> omap_wf m"
  then show "manifest_of_text J rd' (case x of (rd, m) \<Rightarrow> manifest_text J rd m) = Some (case x of (rd, m) \<Rightarrow> if rd = rd' then m else [])"
    "(case x of (rd, m) \<Rightarrow> manifest_text J rd m) \<noteq> []"
    by (auto simp: manifest_text_roundtrip split_beta) (simp add: manifest_text_def json_text_def)
qed

lemma manifest_save_ok:
  assumes "wf_disk d" and "file_slot d q" and "faults d = []" and "mf_manifest_file mf = Abs q"
  shows "manifest_save J d mf = save_text d (Abs q) (manifest_text J (mf_remote_dir mf) (mf_entries mf))"
  using tmp_write_ok [OF assms(1-3)] slot_target(2) [OF assms(1,2)] assms(4)
  by (simp add: manifest_save_def save_text_def)

text \<open>
  Property (C29). A saved baseline is read back by the next synchronisation of the same pair exactly as
  it was, and by a synchronisation with another remote directory, even one that shares the file
  name, as empty: the baseline of one pair is never taken for that of another.
\<close>

theorem manifest_roundtrip:
  assumes "json_laws J" and "json_text J" and "wf_disk d" and "faults d = []"
    and "mf_manifest_file mf = Abs q" and "file_slot d q" and "omap_wf (mf_entries mf)"
  shows "\<exists>d'. manifest_save J d mf = (True, d') \<and>
    (\<forall>rd. mf_entries (manifest_load J d' \<lparr>mf_manifest_file = Abs q, mf_remote_dir = rd, mf_entries = []\<rparr>) =
       (if rd = mf_remote_dir mf then mf_entries mf else []))"
proof -
  let ?bs = "manifest_text J (mf_remote_dir mf) (mf_entries mf)"
  obtain d' where d': "save_text d (Abs q) ?bs = (True, d')" "wf_disk d'"
    "\<And>k. lookup d' k = (if k = q then Some (File ?bs) else if k = tmp_of q then None else lookup d k)"
    using save_text_ok [OF assms(3,6,4)] by blast
  have "status d' (Abs q) = Some (File ?bs)" using d'(2,3) by (simp add: status_def locate_plain_Abs)
  with d'(1) manifest_save_ok [OF assms(3,6,4,5), of J] show ?thesis
    by (intro exI [of _ d']) (auto simp: manifest_load_def manifest_text_roundtrip [OF assms(1,2,7)])
qed

text \<open>
  Property (C30). A save that reports failure has not touched the baseline: whatever the disk refused,
  everything except the temporary file is as before.
\<close>

theorem failed_manifest_save_keeps_file:
  assumes "wf_disk d" and "mf_manifest_file mf = Abs q" and "file_slot d q" and "manifest_save J d mf = (False, d')"
    and "k \<noteq> tmp_of q"
  shows "lookup d' k = lookup d k"
proof -
  let ?t = "tmp_of q" and ?bs = "manifest_text J (mf_remote_dir mf) (mf_entries mf)"
  note t = slot_target [OF assms(1,3)]
  obtain b1 d1 where w: "sys_write d ?t [] = (b1, d1)" by fastforce
  then have op: "open_new d (Abs ?t) = (b1, d1)" using t by (simp add: open_new_def)
  obtain b2 d2 where st: "stream_write d1 (Abs ?t) ?bs = (b2, d2)" by fastforce
  have l1: "lookup d1 k = lookup d k" using agree_lookup [OF sys_write_agree [OF w]] assms(5) by simp
  show ?thesis
  proof (cases b1)
    case False
    then show ?thesis using assms(2,4) op t(2) l1 by (simp add: manifest_save_def)
  next
    case True
    have "wf_disk d1" using sys_write_wf [OF w assms(1)] t(5) by simp
    then have "locate d1 (Abs ?t) = Some ?t" using sys_write_True w True by (simp add: locate_plain_Abs)
    then have "sys_write d1 ?t ?bs = (b2, d2)" using st by (simp add: stream_write_def)
    then have l2: "lookup d2 k = lookup d k" using agree_lookup [OF sys_write_agree] assms(5) l1 by metis
    have "lookup d' = lookup d2"
      using assms(2,4) op st t(2) True fs_rename_False [of d2] by (auto simp: manifest_save_def split: if_splits)
    with l2 show ?thesis by simp
  qed
qed


definition demo_manifest :: SyncManifest where
  "demo_manifest = \<lparr>mf_manifest_file = Abs [''m.json''], mf_remote_dir = ''docs'',
     mf_entries = [(''a'', \<lparr>sm_hash = ''1'', sm_mtime = 5, sm_size = 6, sm_is_directory = False\<rparr>)]\<rparr>"

lemma demo_manifest_place:
  "mf_manifest_file demo_manifest = Abs [''m.json'']" "omap_wf (mf_entries demo_manifest)"
  "wf_disk (disk_of [([], Dir)])" "file_slot (disk_of [([], Dir)]) [''m.json'']"
  by (simp_all add: demo_manifest_def file_slot_def plain_name_def isdir_def wf_disk_of)

theorem manifest_roundtrip_witness:
  "\<exists>d'. manifest_save json_ref (disk_of [([], Dir)]) demo_manifest = (True, d') \<and>
    mf_entries (manifest_load json_ref d' \<lparr>mf_manifest_file = Abs [''m.json''], mf_remote_dir = ''docs'', mf_entries = []\<rparr>) =
      mf_entries demo_manifest \<and>
    mf_entries (manifest_load json_ref d' \<lparr>mf_manifest_file = Abs [''m.json''], mf_remote_dir = ''other'', mf_entries = []\<rparr>) = []"
proof -
  from manifest_roundtrip [OF json_ref_laws demo_manifest_place(3) _ demo_manifest_place(1,4,2)] obtain d' where
    "manifest_save json_ref (disk_of [([], Dir)]) demo_manifest = (True, d')"
    "\<forall>rd. mf_entries (manifest_load json_ref d' \<lparr>mf_manifest_file = Abs [''m.json''], mf_remote_dir = rd, mf_entries = []\<rparr>) =
       (if rd = mf_remote_dir demo_manifest then mf_entries demo_manifest else [])" by auto
  moreover have "mf_remote_dir demo_manifest = ''docs''" by (simp add: demo_manifest_def)
  ultimately show ?thesis by (intro exI [of _ d']) simp
qed

text \<open>A disk that refuses the first write.\<close>

theorem failed_manifest_save_keeps_file_witness:
  "\<exists>d'. manifest_save json_ref ((disk_of [([], Dir), ([''m.json''], File [7])])\<lparr>faults := [True]\<rparr>) demo_manifest = (False, d') \<and>
    lookup d' [''m.json''] = Some (File [7])"
proof -
  let ?d = "(disk_of [([], Dir), ([''m.json''], File [7])])\<lparr>faults := [True]\<rparr>"
  have wf0: "wf_disk (disk_of [([], Dir), ([''m.json''], File [7])])"
    by (rule wf_disk_of) (simp_all add: plain_name_def)
  then have wf: "wf_disk ?d" by (simp add: wf_disk_def lookup_def isdir_def)
  have l: "lookup ?d = map_of [([], Dir), ([''m.json''], File [7])]" by (simp add: lookup_def fun_eq_iff disk_of_def)
  have slot: "file_slot ?d [''m.json'']" by (simp add: file_slot_def plain_name_def isdir_def l tmp_of_def)
  have "sys_write ?d (tmp_of [''m.json'']) [] = (False, ?d\<lparr>faults := []\<rparr>)" by (simp add: sys_write_def tick_def)
  then have s: "manifest_save json_ref ?d demo_manifest = (False, ?d\<lparr>faults := []\<rparr>)"
    using slot_target [OF wf slot] by (simp add: manifest_save_def demo_manifest_place open_new_def)
  from failed_manifest_save_keeps_file [OF wf demo_manifest_place(1) slot s, of "[''m.json'']"] s l show ?thesis
    by (simp add: tmp_of_def)
qed

end
