(* ===== verification/SyncDiff.thy ===== *)
theory SyncDiff
  imports OrdMap Paths
begin

text \<open>
  \<^verbatim>\<open>client/src/sync_diff.cpp\<close> and its header: the pure three-way merge of the local tree, the
  listing of the server and the baseline of the last synchronisation into an ordered list of
  operations.
\<close>

section \<open>Data\<close>

datatype SyncOpType =
  MKDIR_REMOTE | RMDIR_REMOTE | DELETE_REMOTE | MOVE_REMOTE | COPY_REMOTE | UPLOAD | DOWNLOAD | CONFLICT_DOWNLOAD

record SyncEntry =
  sy_hash :: string
  sy_mtime :: u64
  sy_size :: u32
  sy_is_directory :: bool

definition no_entry :: SyncEntry where
  "no_entry = \<lparr>sy_hash = [], sy_mtime = 0, sy_size = 0, sy_is_directory = False\<rparr>"

record SyncOp =
  so_type :: SyncOpType
  so_local_path :: fpath
  so_remote_path :: string
  so_remote_path_from :: string
  so_relative_path :: string
  so_relative_path_from :: string
  so_entry :: SyncEntry

definition sync_op :: "SyncOpType \<Rightarrow> string \<Rightarrow> SyncOp" where
  "sync_op t p = \<lparr>so_type = t, so_local_path = Rel [], so_remote_path = p, so_remote_path_from = [],
     so_relative_path = [], so_relative_path_from = [], so_entry = no_entry\<rparr>"

type_synonym tree = "(string, SyncEntry) omap"

record SyncPlan =
  sp_ops :: "SyncOp list"
  sp_local_mkdirs :: "fpath list"
  sp_local_deletes :: "fpath list"
  sp_baseline_set :: tree
  sp_baseline_drop :: "string list"
  sp_conflicts :: "string list"
  sp_skipped :: nat

text \<open>The plan under construction with the buckets of \<^verbatim>\<open>compute_sync_plan\<close>.\<close>

record planner = SyncPlan +
  pl_conflict_downloads :: "SyncOp list"
  pl_pre_deletes :: "SyncOp list"
  pl_mkdirs :: "SyncOp list"
  pl_deletes :: "SyncOp list"
  pl_rmdirs :: "SyncOp list"
  pl_transfers :: "SyncOp list"
  pl_new_local_files :: "(string \<times> SyncEntry) list"
  pl_removed_remote_files :: "(string \<times> SyncEntry) list"

definition empty_planner :: planner where
  "empty_planner = \<lparr>sp_ops = [], sp_local_mkdirs = [], sp_local_deletes = [], sp_baseline_set = [],
     sp_baseline_drop = [], sp_conflicts = [], sp_skipped = 0, pl_conflict_downloads = [],
     pl_pre_deletes = [], pl_mkdirs = [], pl_deletes = [], pl_rmdirs = [], pl_transfers = [],
     pl_new_local_files = [], pl_removed_remote_files = []\<rparr>"

section \<open>Helpers\<close>

definition path_depth :: "string \<Rightarrow> nat" where
  "path_depth s = count_list s (CHR ''/'')"

definition has_local_children :: "tree \<Rightarrow> string \<Rightarrow> bool" where
  "has_local_children local dir =
     (case lower_bound (dir @ ''/'') local of [] \<Rightarrow> False
      | (k, _) # _ \<Rightarrow> take (length dir + 1) k = dir @ ''/'')"

definition strip_slashes :: "string \<Rightarrow> string" where
  "strip_slashes s = rev (dropWhile (\<lambda>c. c = CHR ''/'') (rev s))"

definition join_remote :: "string \<Rightarrow> string \<Rightarrow> string" where
  "join_remote remote_dir rel =
     (let base0 = strip_slashes remote_dir; base = (if base0 = ''.'' then [] else base0)
      in if base = [] then rel else if rel = [] then base else base @ ''/'' @ rel)"

text \<open>
  The broken-down local time that \<^verbatim>\<open>localtime_r\<close> fills in, and \<^verbatim>\<open>strftime\<close> with the format
  \<^verbatim>\<open>%Y-%m-%d %H%M%S\<close>.
\<close>

record tm =
  tm_year :: nat
  tm_mon :: nat
  tm_mday :: nat
  tm_hour :: nat
  tm_min :: nat
  tm_sec :: nat

definition two_digits :: "nat \<Rightarrow> string" where
  "two_digits n = (if n < 10 then ''0'' @ dec n else dec n)"

definition stamp :: "tm \<Rightarrow> string" where
  "stamp t = dec (tm_year t + 1900) @ ''-'' @ two_digits (tm_mon t + 1) @ ''-'' @ two_digits (tm_mday t) @ '' ''
     @ two_digits (tm_hour t) @ two_digits (tm_min t) @ two_digits (tm_sec t)"

text \<open>\<^verbatim>\<open>path::extension\<close> and \<^verbatim>\<open>path::stem\<close>: the last dot splits the name unless it is its first character.\<close>

definition dot_tail :: "fname \<Rightarrow> string" where
  "dot_tail f = rev (takeWhile (\<lambda>c. c \<noteq> CHR ''.'') (rev f))"

definition extension :: "fpath \<Rightarrow> string" where
  "extension p =
     (let f = filename p; e = dot_tail f
      in if CHR ''.'' \<notin> set f \<or> f = ''.'' \<or> f = ''..'' \<or> length e + 1 = length f then [] else ''.'' @ e)"

definition stem :: "fpath \<Rightarrow> string" where
  "stem p = (let f = filename p in take (length f - length (extension p)) f)"

definition conflict_copy_path :: "tm \<Rightarrow> fpath \<Rightarrow> fpath" where
  "conflict_copy_path now p =
     path_append (parent_path p)
       (path_of_string (stem p @ '' (conflict copy from server, '' @ stamp now @ '')'' @ extension p))"

text \<open>Paths in the order of \<^verbatim>\<open>operator<\<close>: relative before absolute, then element by element.\<close>

instantiation fpath :: linorder
begin

definition less_eq_fpath :: "fpath \<Rightarrow> fpath \<Rightarrow> bool" where
  "less_eq_fpath p q =
     (case p of Rel a \<Rightarrow> (case q of Rel b \<Rightarrow> a \<le> b | Abs b \<Rightarrow> True)
      | Abs a \<Rightarrow> (case q of Rel b \<Rightarrow> False | Abs b \<Rightarrow> a \<le> b))"

definition less_fpath :: "fpath \<Rightarrow> fpath \<Rightarrow> bool" where
  "less_fpath p q \<longleftrightarrow> p \<le> q \<and> \<not> q \<le> p"

instance
  by standard (auto simp: less_eq_fpath_def less_fpath_def split: fpath.splits)

end

section \<open>Queueing\<close>

text \<open>The two roots and the clock, read once for each conflict: the context of the lambdas.\<close>

record sync_env =
  sn_local_dir :: fpath
  sn_remote_dir :: string
  sn_clock :: "nat \<Rightarrow> tm"

definition remote_of :: "sync_env \<Rightarrow> string \<Rightarrow> string" where
  "remote_of V key = join_remote (sn_remote_dir V) key"

definition local_of :: "sync_env \<Rightarrow> string \<Rightarrow> fpath" where
  "local_of V key = path_append (sn_local_dir V) (path_of_string key)"

definition delete_op :: "sync_env \<Rightarrow> string \<Rightarrow> SyncOp" where
  "delete_op V key = sync_op DELETE_REMOTE (remote_of V key)"

definition file_op :: "SyncOpType \<Rightarrow> sync_env \<Rightarrow> string \<Rightarrow> SyncEntry \<Rightarrow> SyncOp" where
  "file_op t V key entry = (sync_op t (remote_of V key))
     \<lparr>so_local_path := local_of V key, so_relative_path := key, so_entry := entry\<rparr>"

definition emit_upload :: "sync_env \<Rightarrow> string \<Rightarrow> SyncEntry \<Rightarrow> bool \<Rightarrow> planner \<Rightarrow> planner" where
  "emit_upload V key entry remote_exists st =
     st\<lparr>pl_deletes := pl_deletes st @ (if remote_exists then [delete_op V key] else []),
        pl_transfers := pl_transfers st @ [file_op UPLOAD V key entry]\<rparr>"

definition emit_download :: "sync_env \<Rightarrow> string \<Rightarrow> SyncEntry \<Rightarrow> planner \<Rightarrow> planner" where
  "emit_download V key entry st = st\<lparr>pl_transfers := pl_transfers st @ [file_op DOWNLOAD V key entry]\<rparr>"

definition conflict_copy :: "sync_env \<Rightarrow> string \<Rightarrow> planner \<Rightarrow> fpath" where
  "conflict_copy V key st = conflict_copy_path (sn_clock V (length (pl_conflict_downloads st))) (local_of V key)"

definition quote :: string where
  "quote = [CHR 0x22]"

definition emit_conflict :: "sync_env \<Rightarrow> string \<Rightarrow> SyncEntry \<Rightarrow> bool \<Rightarrow> planner \<Rightarrow> planner" where
  "emit_conflict V key entry remote_exists st =
     emit_upload V key entry remote_exists
       (st\<lparr>pl_conflict_downloads := pl_conflict_downloads st @
            [(sync_op CONFLICT_DOWNLOAD (remote_of V key))\<lparr>so_local_path := conflict_copy V key st\<rparr>],
           sp_conflicts := sp_conflicts st @
            [key @ '' -> server version saved as '' @ quote @ filename (conflict_copy V key st) @ quote]\<rparr>)"

definition note_conflict :: "string \<Rightarrow> planner \<Rightarrow> planner" where
  "note_conflict msg st = st\<lparr>sp_conflicts := sp_conflicts st @ [msg]\<rparr>"

definition mkdir_remote :: "sync_env \<Rightarrow> string \<Rightarrow> SyncEntry \<Rightarrow> planner \<Rightarrow> planner" where
  "mkdir_remote V key entry st =
     st\<lparr>pl_mkdirs := pl_mkdirs st @
          [(sync_op MKDIR_REMOTE (remote_of V key))\<lparr>so_relative_path := key, so_entry := entry\<rparr>]\<rparr>"

definition keep :: "string \<Rightarrow> SyncEntry \<Rightarrow> planner \<Rightarrow> planner" where
  "keep key entry st = st\<lparr>sp_baseline_set := omap_put key entry (sp_baseline_set st)\<rparr>"

definition skip :: "string \<Rightarrow> SyncEntry \<Rightarrow> planner \<Rightarrow> planner" where
  "skip key entry st = keep key entry (st\<lparr>sp_skipped := sp_skipped st + 1\<rparr>)"

definition drop_key :: "string \<Rightarrow> planner \<Rightarrow> planner" where
  "drop_key key st = st\<lparr>sp_baseline_drop := sp_baseline_drop st @ [key]\<rparr>"

section \<open>Classification of one path\<close>

definition is_dir_entry :: "SyncEntry option \<Rightarrow> bool" where
  "is_dir_entry e = (case e of None \<Rightarrow> False | Some x \<Rightarrow> sy_is_directory x)"

definition classify_dir :: "sync_env \<Rightarrow> tree \<Rightarrow> string \<Rightarrow> SyncEntry option \<Rightarrow> SyncEntry option \<Rightarrow> SyncEntry option \<Rightarrow>
    planner \<Rightarrow> planner" where
  "classify_dir V local key l r b st =
     (case l of
        Some le \<Rightarrow>
          if sy_is_directory le then
            if is_dir_entry r then keep key le st
            else if r \<noteq> None then
              note_conflict (key @ '' -> is a directory locally but a file on the server'')
                (mkdir_remote V key le (st\<lparr>pl_pre_deletes := pl_pre_deletes st @ [delete_op V key]\<rparr>))
            else mkdir_remote V key le st
          else
            emit_upload V key le False
              (if is_dir_entry r then
                 note_conflict (key @ '' -> is a file locally but a directory on the server'')
                   (st\<lparr>pl_rmdirs := pl_rmdirs st @ [sync_op RMDIR_REMOTE (remote_of V key)]\<rparr>)
               else st)
      | None \<Rightarrow>
          (case r of
             Some re \<Rightarrow>
               if sy_is_directory re then
                 if is_dir_entry b \<and> \<not> has_local_children local key then
                   st\<lparr>pl_rmdirs := pl_rmdirs st @
                        [(sync_op RMDIR_REMOTE (remote_of V key))\<lparr>so_relative_path_from := key\<rparr>]\<rparr>
                 else if b = None then
                   keep key re (st\<lparr>sp_local_mkdirs := sp_local_mkdirs st @ [local_of V key]\<rparr>)
                 else st
               else if b \<noteq> None then drop_key key st else st
           | None \<Rightarrow> if b \<noteq> None then drop_key key st else st))"

definition classify_file :: "sync_env \<Rightarrow> string \<Rightarrow> SyncEntry option \<Rightarrow> SyncEntry option \<Rightarrow> SyncEntry option \<Rightarrow>
    planner \<Rightarrow> planner" where
  "classify_file V key l r b st =
     (case (l, r, b) of
        (Some le, Some re, Some be) \<Rightarrow>
          let local_changed = (sy_hash le \<noteq> sy_hash be); remote_changed = (sy_hash re \<noteq> sy_hash be)
          in if \<not> local_changed \<and> \<not> remote_changed then skip key le st
             else if local_changed \<and> \<not> remote_changed then emit_upload V key le True st
             else if \<not> local_changed \<and> remote_changed then emit_download V key re st
             else if sy_hash le = sy_hash re then skip key le st
             else emit_conflict V key le True st
      | (Some le, Some re, None) \<Rightarrow>
          if sy_hash le = sy_hash re then skip key le st else emit_conflict V key le True st
      | (Some le, None, Some be) \<Rightarrow>
          if sy_hash le = sy_hash be
          then drop_key key (st\<lparr>sp_local_deletes := sp_local_deletes st @ [local_of V key]\<rparr>)
          else note_conflict (key @ '' -> changed locally but deleted on the server, re-uploaded'')
                 (emit_upload V key le False st)
      | (Some le, None, None) \<Rightarrow> st\<lparr>pl_new_local_files := pl_new_local_files st @ [(key, le)]\<rparr>
      | (None, Some re, Some be) \<Rightarrow>
          if sy_hash re = sy_hash be
          then st\<lparr>pl_removed_remote_files := pl_removed_remote_files st @ [(key, re)]\<rparr>
          else note_conflict (key @ '' -> deleted locally but changed on the server, re-downloaded'')
                 (emit_download V key re st)
      | (None, Some re, None) \<Rightarrow> emit_download V key re st
      | (None, None, Some be) \<Rightarrow> drop_key key st
      | (None, None, None) \<Rightarrow> st)"

definition classify :: "sync_env \<Rightarrow> tree \<Rightarrow> tree \<Rightarrow> tree \<Rightarrow> string \<Rightarrow> planner \<Rightarrow> planner" where
  "classify V local remote baseline key st =
     (let l = map_of local key; r = map_of remote key; b = map_of baseline key
      in if is_dir_entry l \<or> is_dir_entry r \<or> is_dir_entry b then classify_dir V local key l r b st
         else classify_file V key l r b st)"

definition all_keys :: "tree \<Rightarrow> tree \<Rightarrow> tree \<Rightarrow> string list" where
  "all_keys local remote baseline =
     map fst (fold (\<lambda>(k, _). omap_put k ()) (local @ remote @ baseline) [])"

definition classify_all :: "sync_env \<Rightarrow> tree \<Rightarrow> tree \<Rightarrow> tree \<Rightarrow> planner" where
  "classify_all V local remote baseline =
     fold (classify V local remote baseline) (all_keys local remote baseline) empty_planner"

section \<open>Move detection\<close>

definition removed_by_hash :: "(string \<times> SyncEntry) list \<Rightarrow> (string, nat list) omap" where
  "removed_by_hash removed =
     fold (\<lambda>i m. let h = sy_hash (snd (removed ! i)) in
         omap_put h ((case map_of m h of None \<Rightarrow> [] | Some is \<Rightarrow> is) @ [i]) m)
       [0..<length removed] []"

definition move_op :: "sync_env \<Rightarrow> string \<times> SyncEntry \<Rightarrow> string \<Rightarrow> SyncOp" where
  "move_op V new source =
     (file_op MOVE_REMOTE V (fst new) (snd new))
       \<lparr>so_remote_path_from := remote_of V source, so_relative_path_from := source\<rparr>"

record detection =
  dt_removed_consumed :: "bool list"
  dt_new_consumed :: "bool list"
  dt_moves :: "SyncOp list"

definition detect_move :: "sync_env \<Rightarrow> (string \<times> SyncEntry) list \<Rightarrow> (string \<times> SyncEntry) list \<Rightarrow> nat \<Rightarrow>
    detection \<Rightarrow> detection" where
  "detect_move V removed new i dt =
     (case map_of (removed_by_hash removed) (sy_hash (snd (new ! i))) of None \<Rightarrow> dt
      | Some candidates \<Rightarrow>
         (case find (\<lambda>c. \<not> dt_removed_consumed dt ! c) candidates of None \<Rightarrow> dt
          | Some source \<Rightarrow>
             dt\<lparr>dt_removed_consumed := (dt_removed_consumed dt)[source := True],
                dt_new_consumed := (dt_new_consumed dt)[i := True],
                dt_moves := dt_moves dt @ [move_op V (new ! i) (fst (removed ! source))]\<rparr>))"

definition detect_moves :: "sync_env \<Rightarrow> (string \<times> SyncEntry) list \<Rightarrow> (string \<times> SyncEntry) list \<Rightarrow> detection" where
  "detect_moves V removed new =
     fold (detect_move V removed new) [0..<length new]
       \<lparr>dt_removed_consumed = replicate (length removed) False,
        dt_new_consumed = replicate (length new) False, dt_moves = []\<rparr>"

text \<open>The deletes of the files that were not moved.\<close>

definition leftover_deletes :: "sync_env \<Rightarrow> (string \<times> SyncEntry) list \<Rightarrow> bool list \<Rightarrow> SyncOp list" where
  "leftover_deletes V removed consumed =
     map (\<lambda>i. (delete_op V (fst (removed ! i)))\<lparr>so_relative_path_from := fst (removed ! i)\<rparr>)
       (filter (\<lambda>i. \<not> consumed ! i) [0..<length removed])"

section \<open>Ordering of the moves\<close>

definition by_source :: "SyncOp list \<Rightarrow> (string, nat) omap" where
  "by_source moves = fold (\<lambda>i m. omap_put (so_remote_path_from (moves ! i)) i m) [0..<length moves] []"

text \<open>The occupant of the path a move wants, another move that has to run first.\<close>

definition occupant :: "SyncOp list \<Rightarrow> nat \<Rightarrow> nat option" where
  "occupant moves i =
     (case map_of (by_source moves) (so_remote_path (moves ! i)) of None \<Rightarrow> None
      | Some j \<Rightarrow> if j \<noteq> i then Some j else None)"

definition kahn_init :: "SyncOp list \<Rightarrow> nat list list \<times> nat list" where
  "kahn_init moves =
     fold (\<lambda>i (succs, indeg). case occupant moves i of None \<Rightarrow> (succs, indeg)
         | Some j \<Rightarrow> (succs[j := succs ! j @ [i]], indeg[i := indeg ! i + 1]))
       [0..<length moves] (replicate (length moves) [], replicate (length moves) 0)"

definition release :: "nat \<Rightarrow> nat list \<times> nat list \<Rightarrow> nat list \<times> nat list" where
  "release j s = (case s of (ready, indeg) \<Rightarrow>
     (if indeg ! j - 1 = 0 then ready @ [j] else ready, indeg[j := indeg ! j - 1]))"

text \<open>
  The loop over the stack \<^verbatim>\<open>ready\<close>, whose top is the end of the list; \<^verbatim>\<open>ordered\<close> holds the indices
  emitted so far. The fuel bounds the iterations; the first component of the result is the stack
  when the fuel ran out, and it is shown below to be empty for the fuel the caller gives.
\<close>

fun kahn_loop :: "nat \<Rightarrow> nat list list \<Rightarrow> nat list \<Rightarrow> nat list \<Rightarrow> nat list \<Rightarrow> nat list \<times> nat list" where
  "kahn_loop 0 succs ready indeg ordered = (ready, ordered)"
| "kahn_loop (Suc n) succs ready indeg ordered =
     (if ready = [] then ([], ordered)
      else let node = last ready
           in case fold release (succs ! node) (butlast ready, indeg) of (ready', indeg') \<Rightarrow>
                kahn_loop n succs ready' indeg' (ordered @ [node]))"

definition kahn_run :: "SyncOp list \<Rightarrow> nat list \<times> nat list" where
  "kahn_run moves =
     (case kahn_init moves of (succs, indeg) \<Rightarrow>
        kahn_loop (length moves) succs (filter (\<lambda>i. indeg ! i = 0) [0..<length moves]) indeg [])"

definition kahn :: "SyncOp list \<Rightarrow> nat list" where
  "kahn moves = snd (kahn_run moves)"

text \<open>A move on a cycle becomes a delete and an upload.\<close>

definition downgrade :: "sync_env \<Rightarrow> SyncOp \<Rightarrow> planner \<Rightarrow> planner" where
  "downgrade V m st =
     emit_upload V (so_relative_path m) (so_entry m) False
       (st\<lparr>pl_deletes := pl_deletes st @
            [(sync_op DELETE_REMOTE (so_remote_path_from m))\<lparr>so_relative_path_from := so_relative_path_from m\<rparr>]\<rparr>)"

definition order_moves :: "sync_env \<Rightarrow> SyncOp list \<Rightarrow> planner \<Rightarrow> SyncOp list \<times> planner" where
  "order_moves V moves st =
     (let ordered = kahn moves
      in (map ((!) moves) ordered,
          fold (\<lambda>i. downgrade V (moves ! i)) (filter (\<lambda>i. i \<notin> set ordered) [0..<length moves]) st))"

section \<open>Copy optimisation\<close>

definition stays_remote :: "tree \<Rightarrow> tree \<Rightarrow> string \<Rightarrow> SyncEntry \<Rightarrow> bool" where
  "stays_remote local baseline key entry =
     (\<not> sy_is_directory entry \<and>
      (case map_of local key of Some l \<Rightarrow> \<not> sy_is_directory l \<and> sy_hash l = sy_hash entry
       | None \<Rightarrow> map_of baseline key = None))"

definition copy_sources :: "sync_env \<Rightarrow> tree \<Rightarrow> tree \<Rightarrow> tree \<Rightarrow> SyncOp list \<Rightarrow> SyncOp list \<Rightarrow> (string, string) omap" where
  "copy_sources V local remote baseline moves transfers =
     fold (\<lambda>op m. if so_type op = UPLOAD then omap_emplace (sy_hash (so_entry op)) (so_remote_path op) m else m) transfers
       (fold (\<lambda>op. omap_put (sy_hash (so_entry op)) (so_remote_path op)) moves
         (fold (\<lambda>(key, entry) m.
             if stays_remote local baseline key entry then omap_emplace (sy_hash entry) (remote_of V key) m else m)
           remote []))"

record copying =
  cp_planner :: planner
  cp_copies :: "SyncOp list"
  cp_sources :: "(string, string) omap"

definition place_new :: "sync_env \<Rightarrow> string \<times> SyncEntry \<Rightarrow> copying \<Rightarrow> copying" where
  "place_new V new c =
     (case map_of (cp_sources c) (sy_hash (snd new)) of
        Some src \<Rightarrow> c\<lparr>cp_copies := cp_copies c @
           [(file_op COPY_REMOTE V (fst new) (snd new))\<lparr>so_remote_path_from := src\<rparr>]\<rparr>
      | None \<Rightarrow> c\<lparr>cp_planner := emit_upload V (fst new) (snd new) False (cp_planner c),
                 cp_sources := omap_emplace (sy_hash (snd new)) (remote_of V (fst new)) (cp_sources c)\<rparr>)"

section \<open>The plan\<close>

definition phases :: "planner \<Rightarrow> SyncOp list \<Rightarrow> SyncOp list \<Rightarrow> SyncOp list" where
  "phases st moves copies =
     pl_conflict_downloads st @ pl_pre_deletes st
     @ sort_key (\<lambda>op. path_depth (so_remote_path op)) (pl_mkdirs st)
     @ moves @ pl_deletes st
     @ sort_key (\<lambda>op. - int (path_depth (so_remote_path op))) (pl_rmdirs st)
     @ pl_transfers st @ copies"

definition finish_plan :: "planner \<Rightarrow> SyncOp list \<Rightarrow> SyncOp list \<Rightarrow> SyncPlan" where
  "finish_plan st moves copies =
     \<lparr>sp_ops = phases st moves copies, sp_local_mkdirs = sort (sp_local_mkdirs st),
      sp_local_deletes = sp_local_deletes st, sp_baseline_set = sp_baseline_set st,
      sp_baseline_drop = sp_baseline_drop st, sp_conflicts = sp_conflicts st, sp_skipped = sp_skipped st\<rparr>"

definition compute_sync_plan :: "sync_env \<Rightarrow> tree \<Rightarrow> tree \<Rightarrow> tree \<Rightarrow> SyncPlan" where
  "compute_sync_plan V local remote baseline =
     (let st0 = classify_all V local remote baseline;
          new = pl_new_local_files st0; removed = pl_removed_remote_files st0;
          dt = detect_moves V removed new;
          st1 = st0\<lparr>pl_deletes := pl_deletes st0 @ leftover_deletes V removed (dt_removed_consumed dt)\<rparr>;
          (moves, st2) = order_moves V (dt_moves dt) st1;
          c = fold (\<lambda>i. place_new V (new ! i)) (filter (\<lambda>i. \<not> dt_new_consumed dt ! i) [0..<length new])
                \<lparr>cp_planner = st2, cp_copies = [],
                 cp_sources = copy_sources V local remote baseline moves (pl_transfers st2)\<rparr>
      in finish_plan (cp_planner c) moves (cp_copies c))"

end
