(* ===== verification/Startup.thy ===== *)
theory Startup
  imports Migration
begin

text \<open>
  Program start: the command lines of the server (\<^verbatim>\<open>server/src/main.cpp\<close>) and the client
  (\<^verbatim>\<open>client/src/main.cpp\<close>) and the log level (\<^verbatim>\<open>shared/src/minidrive/logging.cpp\<close>). Arguments come
  without the program name.
\<close>

section \<open>Numbers in arguments\<close>

definition read_sign :: "string \<Rightarrow> bool \<times> string" where
  "read_sign s = (case s of c # cs \<Rightarrow> if c = CHR ''-'' then (True, cs) else if c = CHR ''+'' then (False, cs) else (False, s)
                  | [] \<Rightarrow> (False, []))"

text \<open>\<^verbatim>\<open>strtol\<close> in base 10: the number and the rest, \<^verbatim>\<open>None\<close> when there is no number; \<^verbatim>\<open>long\<close> saturates.\<close>

definition strtol :: "string \<Rightarrow> (int \<times> string) option" where
  "strtol s =
     (case read_sign (dropWhile is_space s) of (neg, u) \<Rightarrow>
        (let ds = takeWhile is_digit u; n = int (undec ds); v = (if neg then - n else n)
         in if ds = [] then None else Some (max (- (2 ^ 63)) (min (2 ^ 63 - 1) v), dropWhile is_digit u)))"

text \<open>\<^verbatim>\<open>std::stoi\<close>; \<^verbatim>\<open>None\<close> stands for its two exceptions.\<close>

definition stoi :: "string \<Rightarrow> int option" where
  "stoi s = (case strtol s of None \<Rightarrow> None
     | Some (v, _) \<Rightarrow> if - (2 ^ 31) \<le> v \<and> v < 2 ^ 31 then Some v else None)"

section \<open>Log level\<close>

datatype Level = trace | debug | info | warn | err_level | critical | off

definition level_from_string :: "string \<Rightarrow> Level \<Rightarrow> Level" where
  "level_from_string s fallback =
     (if s = ''trace'' then trace else if s = ''debug'' then debug else if s = ''info'' then info
      else if s = ''warn'' \<or> s = ''warning'' then warn else if s = ''error'' \<or> s = ''err'' then err_level
      else if s = ''critical'' \<or> s = ''crit'' then critical else if s = ''off'' then off else fallback)"

section \<open>Server\<close>

definition split_pair :: "string \<Rightarrow> (string \<times> string) option" where
  "split_pair arg =
     (case dropWhile (\<lambda>c. c \<noteq> CHR ''='') arg of
        [] \<Rightarrow> None
      | _ # value \<Rightarrow>
          let name = takeWhile (\<lambda>c. c \<noteq> CHR ''='') arg
          in if name = [] \<or> value = [] then None else Some (name, value))"

definition tier_char :: "char \<Rightarrow> bool" where
  "tier_char c \<longleftrightarrow> (CHR ''a'' \<le> c \<and> c \<le> CHR ''z'') \<or> (CHR ''A'' \<le> c \<and> c \<le> CHR ''Z'') \<or>
     (CHR ''0'' \<le> c \<and> c \<le> CHR ''9'') \<or> c = CHR ''_'' \<or> c = CHR ''-''"

definition valid_tier_name :: "string \<Rightarrow> bool" where
  "valid_tier_name name \<longleftrightarrow> name \<noteq> [] \<and> length name \<le> 32 \<and> list_all tier_char name"

text \<open>Why the program ends with an error instead of serving; \<^verbatim>\<open>Uncaught\<close> is an exception nobody catches.\<close>

datatype arg_error = Requires_Value string | Root_Missing string | Bad_Pair string | Bad_Tier_Name string
  | Duplicate_Tier string | Not_A_Directory string | Unknown_Argument string | Usage
  | Undeclared_Tier string | Unknown_Default string | Overlap string string | Uncaught string | Bad_Endpoint string

record server_args =
  sa_port :: u16
  sa_root :: "fpath option"
  sa_tiers :: "StorageTier list"
  sa_tier_descriptions :: "(string \<times> string) list"
  sa_default_tier :: string
  sa_log_file :: string
  sa_log_level :: string

definition no_args :: server_args where
  "no_args = \<lparr>sa_port = 9000, sa_root = None, sa_tiers = [], sa_tier_descriptions = [], sa_default_tier = [],
     sa_log_file = [], sa_log_level = ''info''\<rparr>"

definition add_tier :: "disk \<Rightarrow> string \<Rightarrow> server_args \<Rightarrow> arg_error + server_args" where
  "add_tier d v a =
     (case split_pair v of None \<Rightarrow> Inl (Bad_Pair v)
      | Some (name, path) \<Rightarrow>
          if \<not> valid_tier_name name then Inl (Bad_Tier_Name name)
          else if list_ex (\<lambda>t. st_name t = name) (sa_tiers a) then Inl (Duplicate_Tier name)
          else if \<not> is_directory d (path_of_string path) then Inl (Not_A_Directory path)
          else Inr (a\<lparr>sa_tiers := sa_tiers a @ [\<lparr>st_name = name, st_path = path_of_string path, st_description = []\<rparr>]\<rparr>))"

definition take_option :: "disk \<Rightarrow> string \<Rightarrow> string \<Rightarrow> server_args \<Rightarrow> arg_error + server_args" where
  "take_option d opt v a =
     (if opt = ''--port'' then
        (case stoi v of None \<Rightarrow> Inl (Uncaught v) | Some p \<Rightarrow> Inr (a\<lparr>sa_port := of_int p\<rparr>))
      else if opt = ''--root'' then
        (if exists d (path_of_string v) then Inr (a\<lparr>sa_root := Some (path_of_string v)\<rparr>) else Inl (Root_Missing v))
      else if opt = ''--tier'' then add_tier d v a
      else if opt = ''--tier-desc'' then
        (case split_pair v of None \<Rightarrow> Inl (Bad_Pair v)
         | Some p \<Rightarrow> Inr (a\<lparr>sa_tier_descriptions := sa_tier_descriptions a @ [p]\<rparr>))
      else if opt = ''--default-tier'' then Inr (a\<lparr>sa_default_tier := v\<rparr>)
      else if opt = ''--log-file'' then Inr (a\<lparr>sa_log_file := v\<rparr>)
      else Inr (a\<lparr>sa_log_level := v\<rparr>))"

definition server_options :: "string list" where
  "server_options = [''--port'', ''--root'', ''--tier'', ''--tier-desc'', ''--default-tier'', ''--log-file'', ''--log-level'']"

fun parse_args :: "disk \<Rightarrow> string list \<Rightarrow> server_args \<Rightarrow> arg_error + server_args" where
  "parse_args d [] a = Inr a"
| "parse_args d [opt] a = (if opt \<in> set server_options then Inl (Requires_Value opt) else Inl (Unknown_Argument opt))"
| "parse_args d (opt # v # args) a =
     (if opt \<notin> set server_options then Inl (Unknown_Argument opt)
      else case take_option d opt v a of Inl e \<Rightarrow> Inl e | Inr a' \<Rightarrow> parse_args d args a')"

fun describe_tiers :: "(string \<times> string) list \<Rightarrow> StorageTier list \<Rightarrow> arg_error + StorageTier list" where
  "describe_tiers [] tiers = Inr tiers"
| "describe_tiers ((name, desc) # ds) tiers =
     (if list_ex (\<lambda>t. st_name t = name) tiers
      then describe_tiers ds (map (\<lambda>t. if st_name t = name then t\<lparr>st_description := desc\<rparr> else t) tiers)
      else Inl (Undeclared_Tier name))"

definition overlaps :: "disk \<Rightarrow> StorageTier \<Rightarrow> StorageTier \<Rightarrow> bool" where
  "overlaps d t t' \<longleftrightarrow> is_subpath d (st_path t) (st_path t') \<or> is_subpath d (st_path t') (st_path t)"

fun find_overlap :: "disk \<Rightarrow> StorageTier list \<Rightarrow> (StorageTier \<times> StorageTier) option" where
  "find_overlap d [] = None"
| "find_overlap d (t # ts) =
     (case find (overlaps d t) ts of Some t' \<Rightarrow> Some (t, t') | None \<Rightarrow> find_overlap d ts)"

definition implicit_tier :: "fpath \<Rightarrow> StorageTier" where
  "implicit_tier root = \<lparr>st_name = ''hot'', st_path = root, st_description = ''default storage''\<rparr>"

definition check_args :: "disk \<Rightarrow> server_args \<Rightarrow> arg_error + (u16 \<times> StorageConfig)" where
  "check_args d a =
     (case sa_root a of None \<Rightarrow> Inl Usage
      | Some root \<Rightarrow>
        (case describe_tiers (sa_tier_descriptions a) (if sa_tiers a = [] then [implicit_tier root] else sa_tiers a) of
           Inl e \<Rightarrow> Inl e
         | Inr tiers \<Rightarrow>
             let dt = (if sa_default_tier a = [] then ''hot'' else sa_default_tier a)
             in if \<not> list_ex (\<lambda>t. st_name t = dt) tiers then Inl (Unknown_Default dt)
                else case find_overlap d tiers of
                       Some (t, t') \<Rightarrow> Inl (Overlap (st_name t) (st_name t'))
                     | None \<Rightarrow> Inr (sa_port a, \<lparr>sc_root = root, sc_tiers = tiers, sc_default_tier = dt\<rparr>)))"

definition server_main :: "disk \<Rightarrow> string list \<Rightarrow> arg_error + (u16 \<times> StorageConfig)" where
  "server_main d args = (case parse_args d args no_args of Inl e \<Rightarrow> Inl e | Inr a \<Rightarrow> check_args d a)"

section \<open>Client\<close>

record UserHostPort =
  hp_username :: string
  hp_host :: string
  hp_port :: u16

definition rfind :: "char \<Rightarrow> string \<Rightarrow> nat option" where
  "rfind c s = (if c \<in> set s then Some (length s - 1 - length (takeWhile (\<lambda>x. x \<noteq> c) (rev s))) else None)"

text \<open>\<^verbatim>\<open>substr(pos, stop - pos)\<close>: with \<^verbatim>\<open>stop\<close> before \<^verbatim>\<open>pos\<close> the unsigned count wraps and takes the whole rest.\<close>

definition substr :: "string \<Rightarrow> nat \<Rightarrow> nat \<Rightarrow> string" where
  "substr s pos stop = (if pos \<le> stop then take (stop - pos) (drop pos s) else drop pos s)"

definition parse_host_port :: "string \<Rightarrow> UserHostPort option" where
  "parse_host_port input =
     (case rfind (CHR '':'') input of None \<Rightarrow> None
      | Some colon \<Rightarrow>
         (let (username, host) = (case rfind (CHR ''@'') input of
                Some i \<Rightarrow> (take i input, substr input (i + 1) colon)
              | None \<Rightarrow> ([], take colon input));
              port_str = drop (colon + 1) input
          in if host = [] \<or> port_str = [] then None
             else case strtol port_str of None \<Rightarrow> None
                  | Some (p, rest) \<Rightarrow>
                      if rest \<noteq> [] \<or> p < 0 \<or> p > 65535 then None
                      else Some \<lparr>hp_username = username, hp_host = host, hp_port = of_int p\<rparr>))"

fun parse_log_args :: "string list \<Rightarrow> string \<times> string \<Rightarrow> arg_error + (string \<times> string)" where
  "parse_log_args [] f = Inr f"
| "parse_log_args [opt] f = (if opt \<in> {''--log'', ''--log-level''} then Inl (Requires_Value opt) else Inl (Unknown_Argument opt))"
| "parse_log_args (opt # v # args) (file, level) =
     (if opt = ''--log'' then parse_log_args args (v, level)
      else if opt = ''--log-level'' then parse_log_args args (file, v)
      else Inl (Unknown_Argument opt))"

definition client_main :: "string list \<Rightarrow> arg_error + (UserHostPort \<times> string \<times> Level)" where
  "client_main args =
     (case args of [] \<Rightarrow> Inl Usage
      | endpoint # opts \<Rightarrow>
         (case parse_host_port endpoint of None \<Rightarrow> Inl (Bad_Endpoint endpoint)
          | Some hp \<Rightarrow>
             (case parse_log_args opts ([], ''info'') of Inl e \<Rightarrow> Inl e
              | Inr (file, level) \<Rightarrow> Inr (hp, file, level_from_string level info))))"

section \<open>What an accepted command line guarantees\<close>

definition args_ok :: "disk \<Rightarrow> server_args \<Rightarrow> bool" where
  "args_ok d a \<longleftrightarrow> distinct (map st_name (sa_tiers a)) \<and>
     (\<forall>t\<in>set (sa_tiers a). valid_tier_name (st_name t) \<and> is_directory d (st_path t)) \<and>
     (\<forall>root. sa_root a = Some root \<longrightarrow> exists d root)"

lemma args_ok_simps [simp]:
  "args_ok d (a\<lparr>sa_port := p\<rparr>) = args_ok d a" "args_ok d (a\<lparr>sa_tier_descriptions := ds\<rparr>) = args_ok d a"
  "args_ok d (a\<lparr>sa_default_tier := v\<rparr>) = args_ok d a" "args_ok d (a\<lparr>sa_log_file := v\<rparr>) = args_ok d a"
  "args_ok d (a\<lparr>sa_log_level := v\<rparr>) = args_ok d a"
  "exists d root \<Longrightarrow> args_ok d a \<Longrightarrow> args_ok d (a\<lparr>sa_root := Some root\<rparr>)"
  by (simp_all add: args_ok_def)

lemma add_tier_ok: "add_tier d v a = Inr a' \<Longrightarrow> args_ok d a \<Longrightarrow> args_ok d a'"
  unfolding add_tier_def args_ok_def by (fastforce simp: list_ex_iff split: option.splits if_splits)

lemma take_option_ok: "take_option d opt v a = Inr a' \<Longrightarrow> args_ok d a \<Longrightarrow> args_ok d a'"
  by (auto simp: take_option_def elim: add_tier_ok split: option.splits if_splits)

lemma parse_args_ok: "parse_args d args a = Inr a' \<Longrightarrow> args_ok d a \<Longrightarrow> args_ok d a'"
  by (induction d args a rule: parse_args.induct) (auto split: if_splits sum.splits dest: take_option_ok)

lemma describe_tiers_keeps:
  "describe_tiers ds ts = Inr ts' \<Longrightarrow> map st_name ts' = map st_name ts \<and> map st_path ts' = map st_path ts"
  by (induction ds ts rule: describe_tiers.induct) (auto split: if_splits simp: comp_def)

lemma find_overlap_None: "find_overlap d ts = None \<Longrightarrow> sorted_wrt (\<lambda>t t'. \<not> overlaps d t t') ts"
  by (induction ts) (auto simp: find_None_iff split: option.splits)

lemma accepted_config:
  assumes "server_main d args = Inr (port, cfg)"
  shows "(\<forall>t\<in>set (sc_tiers cfg). exists d (st_path t)) \<and> exists d (sc_root cfg) \<and> distinct (map st_name (sc_tiers cfg)) \<and>
    list_all valid_tier_name (map st_name (sc_tiers cfg)) \<and> sc_default_tier cfg \<in> st_name ` set (sc_tiers cfg) \<and>
    sorted_wrt (\<lambda>t t'. \<not> is_subpath d (st_path t) (st_path t') \<and> \<not> is_subpath d (st_path t') (st_path t)) (sc_tiers cfg)"
proof -
  obtain a where p: "parse_args d args no_args = Inr a" and c: "check_args d a = Inr (port, cfg)"
    using assms by (auto simp: server_main_def split: sum.splits)
  have "args_ok d no_args" by (simp add: args_ok_def no_args_def)
  with parse_args_ok [OF p] have ok: "args_ok d a" by blast
  obtain root tiers where r: "sa_root a = Some root" and
    t: "describe_tiers (sa_tier_descriptions a) (if sa_tiers a = [] then [implicit_tier root] else sa_tiers a) = Inr tiers"
    and cfg: "sc_root cfg = root" "sc_tiers cfg = tiers" "sc_default_tier cfg \<in> st_name ` set tiers" "find_overlap d tiers = None"
    using c by (force simp: check_args_def Let_def list_ex_iff split: option.splits sum.splits if_splits prod.splits)
  have "valid_tier_name ''hot''" by (simp add: valid_tier_name_def tier_char_def less_eq_char_def)
  with ok have "distinct (map st_name (if sa_tiers a = [] then [implicit_tier root] else sa_tiers a))"
    "list_all valid_tier_name (map st_name (if sa_tiers a = [] then [implicit_tier root] else sa_tiers a))"
    by (auto simp: args_ok_def implicit_tier_def list_all_iff)
  then have "distinct (map st_name tiers)" "list_all valid_tier_name (map st_name tiers)"
    using describe_tiers_keeps [OF t] by (simp_all only:)
  moreover have root: "exists d root" using ok r by (simp add: args_ok_def)
  moreover have "\<forall>p\<in>set (map st_path (if sa_tiers a = [] then [implicit_tier root] else sa_tiers a)). exists d p"
    using ok root by (auto simp: args_ok_def implicit_tier_def is_directory_def fs_is_directory_def exists_def fs_exists_def)
  then have "\<forall>p\<in>set (map st_path tiers). exists d p" using describe_tiers_keeps [OF t] by (simp only:)
  moreover note find_overlap_None [OF cfg(4)]
  ultimately show ?thesis using cfg by (simp add: overlaps_def)
qed

text \<open>
  Property (C31). A server that starts has a usable configuration: the root exists, the tiers have
  different valid names, none of them lies inside another on the disk, and the default tier is one
  of them. Every other command line ends the program with an error.
\<close>

theorem accepted_config_is_sound:
  assumes "server_main d args = Inr (port, cfg)"
  shows "exists d (sc_root cfg) \<and> distinct (map st_name (sc_tiers cfg)) \<and>
    list_all valid_tier_name (map st_name (sc_tiers cfg)) \<and> sc_default_tier cfg \<in> st_name ` set (sc_tiers cfg) \<and>
    sorted_wrt (\<lambda>t t'. \<not> is_subpath d (st_path t) (st_path t') \<and> \<not> is_subpath d (st_path t') (st_path t)) (sc_tiers cfg)"
  using accepted_config [OF assms] by blast

definition demo_args :: "string list" where
  "demo_args = [''--root'', ''/r'', ''--tier'', ''hot=/a'', ''--tier'', ''cold=/b'', ''--tier-desc'', ''cold=slow disk'', ''--port'', ''8080'']"

definition demo_config :: StorageConfig where
  "demo_config = \<lparr>sc_root = Abs [''r''],
     sc_tiers = [\<lparr>st_name = ''hot'', st_path = Abs [''a''], st_description = []\<rparr>,
       \<lparr>st_name = ''cold'', st_path = Abs [''b''], st_description = ''slow disk''\<rparr>], sc_default_tier = ''hot''\<rparr>"

lemma demo_accepted: "server_main (disk_of [([], Dir), ([''r''], Dir), ([''a''], Dir), ([''b''], Dir)]) demo_args = Inr (8080, demo_config)"
  by code_simp

theorem accepted_config_is_sound_witness:
  "distinct (map st_name (sc_tiers demo_config)) \<and> sc_default_tier demo_config \<in> st_name ` set (sc_tiers demo_config)"
  using accepted_config_is_sound [OF demo_accepted] by blast

section \<open>Configured tiers and migration\<close>

lemma sorted_wrt_distinct_pair:
  assumes "sorted_wrt P xs" and "x \<in> set xs" and "y \<in> set xs" and "x \<noteq> y"
  shows "P x y \<or> P y x"
  using assms by (induction xs) auto

lemma exists_plain: "list_all plain_name p \<Longrightarrow> exists d (Abs p) \<Longrightarrow> lookup d p \<noteq> None"
  using walk_norm [of d "[]" p] by (auto simp: exists_def fs_exists_def status_def locate_Abs norm_stack_id bind_eq_Some_conv)

lemma configured_apart:
  assumes "server_main d args = Inr (port, cfg)" and "wf_disk d"
    and "t \<in> set (sc_tiers cfg)" and "t' \<in> set (sc_tiers cfg)" and "st_name t \<noteq> st_name t'"
    and "st_path t = Abs p" and "st_path t' = Abs p'" and "list_all plain_name p" and "list_all plain_name p'"
  shows "apart p p'"
proof -
  note cfg = accepted_config [OF assms(1)]
  have "lookup d p \<noteq> None" "lookup d p' \<noteq> None" using cfg assms(3,4,6-9) exists_plain by metis+
  then have "weakly_canonical d (Abs p) = Abs p" "weakly_canonical d (Abs p') = Abs p'"
    using assms(2) by (simp_all add: weakly_canonical_def locate_plain_Abs)
  moreover have "t \<noteq> t'" using assms(5) by auto
  ultimately show ?thesis
    using cfg assms(3,4,6,7) sorted_wrt_distinct_pair [of _ "sc_tiers cfg" t t'] by (fastforce simp: apart_def is_subpath_Abs)
qed

lemma path_of_name: "proper_name u \<Longrightarrow> path_of_string u = Rel [u]"
  by (cases u) (auto simp: path_of_string_def elements_def split_slash_noslash proper_name_def simp del: split_slash.simps)

lemma user_home_Abs:
  assumes "list_all plain_name p" and "proper_name u"
  shows "user_home (Abs p) u = Abs (p @ [''private'', u])"
proof -
  have "proper_name ''private''" by (simp add: proper_name_def)
  moreover have "p = [] \<or> last p \<noteq> []" using assms(1) by (cases p rule: rev_cases) (auto simp: plain_name_def)
  ultimately show ?thesis using assms(2)
    by (auto simp: user_home_def sub_def path_of_name path_append_def append_names_def)
qed

text \<open>
  Property (C32). On every server that started with absolute tier paths, moving a user between two of
  its tiers cannot lose data: the check of the command line is what keeps the copy from running
  into its own source. A failed move leaves everything as it was; a successful one leaves an exact
  copy of the user's tree on the new tier and everything outside the old one untouched.
\<close>

theorem configured_migration_is_safe:
  assumes "server_main d args = Inr (port, cfg)" and "wf_disk d"
    and "from \<in> set (sc_tiers cfg)" and "to \<in> set (sc_tiers cfg)" and "st_name from \<noteq> st_name to"
    and "st_path from = Abs p" and "st_path to = Abs p'" and "list_all plain_name p" and "list_all plain_name p'"
    and "proper_name u" and "wf_disk (sto_disk st)" and "migrate_user E st u from to = (res, st')"
  shows "if mr_ok res
     then (isdir (sto_disk st) (p @ [''private'', u]) \<longrightarrow>
         copied (sto_disk st) (p @ [''private'', u]) (sto_disk st') (p' @ [''private'', u])) \<and>
       (\<forall>q. \<not> prefix (p @ [''private'', u]) q \<longrightarrow> lookup (sto_disk st) q \<noteq> None \<longrightarrow> lookup (sto_disk st') q = lookup (sto_disk st) q)
     else (\<forall>q. lookup (sto_disk st) q \<noteq> None \<longrightarrow> lookup (sto_disk st') q = lookup (sto_disk st) q)"
proof -
  have "apart p p'" by (rule configured_apart [OF assms(1-9)])
  then have "apart ((p @ [''private'']) @ [u]) ((p' @ [''private'']) @ [u])" by (intro apart_snoc)
  moreover have "plain_name u" "plain_name ''private''" using assms(10) by (simp_all add: proper_plain) (simp add: plain_name_def)
  ultimately show ?thesis
    using migrate_user_safe [OF assms(11) _ _ _ _ _ assms(12)] user_home_Abs [OF assms(8,10)] user_home_Abs [OF assms(9,10)] assms(6-9)
    by simp
qed

theorem configured_migration_is_safe_witness:
  "let ns = [([], Dir), ([''r''], Dir), ([''a''], Dir), ([''b''], Dir), ([''a'', ''private''], Dir), ([''a'', ''private'', ''bob''], Dir),
       ([''a'', ''private'', ''bob'', ''x''], File [1, 2])];
     r = migrate_user demo_env (demo_storage ns) ''bob'' (sc_tiers demo_config ! 0) (sc_tiers demo_config ! 1)
   in mr_ok (fst r) \<and> copied (disk_of ns) [''a'', ''private'', ''bob''] (sto_disk (snd r)) [''b'', ''private'', ''bob'']"
proof -
  let ?ns = "[([], Dir), ([''r''], Dir), ([''a''], Dir), ([''b''], Dir), ([''a'', ''private''], Dir), ([''a'', ''private'', ''bob''], Dir),
       ([''a'', ''private'', ''bob'', ''x''], File [1, 2])]"
  let ?from = "sc_tiers demo_config ! 0" and ?to = "sc_tiers demo_config ! 1"
  have wf0: "wf_disk (disk_of [([], Dir), ([''r''], Dir), ([''a''], Dir), ([''b''], Dir)])"
    by (rule wf_disk_of) (simp_all add: plain_name_def)
  obtain res st' where m: "migrate_user demo_env (demo_storage ?ns) ''bob'' ?from ?to = (res, st')" by force
  have "mr_ok (fst (migrate_user demo_env (demo_storage ?ns) ''bob'' ?from ?to))" by code_simp
  then have ok: "mr_ok res" unfolding m by simp
  have d: "sto_disk (demo_storage ?ns) = disk_of ?ns" by (simp add: demo_storage_def)
  have wf: "wf_disk (sto_disk (demo_storage ?ns))" unfolding d by (rule wf_disk_of) (simp_all add: plain_name_def)
  have t: "?from \<in> set (sc_tiers demo_config)" "?to \<in> set (sc_tiers demo_config)" "st_name ?from \<noteq> st_name ?to"
    "st_path ?from = Abs [''a'']" "st_path ?to = Abs [''b'']" "list_all plain_name [''a'']" "list_all plain_name [''b'']"
    "proper_name ''bob''" by (simp_all add: demo_config_def plain_name_def proper_name_def)
  have "isdir (disk_of ?ns) [''a'', ''private'', ''bob'']" by (simp add: isdir_def)
  then have "copied (disk_of ?ns) [''a'', ''private'', ''bob''] (sto_disk st') [''b'', ''private'', ''bob'']"
    using configured_migration_is_safe [OF demo_accepted wf0 t wf m] ok unfolding d by simp
  with ok show ?thesis by (simp only: Let_def m fst_conv snd_conv simp_thms)
qed

section \<open>Endpoints\<close>

lemma rfind_append: "c \<notin> set t \<Longrightarrow> rfind c (s @ c # t) = Some (length s)"
proof -
  assume "c \<notin> set t"
  then have "takeWhile (\<lambda>x. x \<noteq> c) (rev t @ c # rev s) = rev t" by (subst takeWhile_append2) auto
  then show ?thesis by (simp add: rfind_def)
qed

lemma rfind_absent: "c \<notin> set s \<Longrightarrow> rfind c s = None"
  by (simp add: rfind_def)

lemma strtol_dec: "n < 65536 \<Longrightarrow> strtol (dec n) = Some (int n, [])"
proof -
  assume n: "n < 65536"
  obtain c cs where c: "dec n = c # cs" "is_digit c" using dec_digits [of n] by (cases "dec n") auto
  then have "\<not> is_space c" "c \<noteq> CHR ''-''" "c \<noteq> CHR ''+''"
    by (auto simp: is_digit_def is_space_def less_eq_char_def)
  then have sign: "read_sign (dropWhile is_space (dec n)) = (False, dec n)" using c by (simp add: read_sign_def)
  have span: "takeWhile is_digit (dec n) = dec n" "dropWhile is_digit (dec n) = []"
    using dec_digits [of n] by (simp_all add: takeWhile_eq_all_conv)
  have "dec n \<noteq> []" "min (2 ^ 63 - 1) (int n) = int n" using c(1) n by auto
  then show ?thesis unfolding strtol_def sign span prod.case Let_def by simp
qed

text \<open>
  Every endpoint can be written on the command line: a user name, a host and a port
  written as \<^verbatim>\<open>user@host:port\<close> are parsed back as they are, also when the user name holds an at
  sign or a colon and the host holds colons.
\<close>

lemma endpoint_roundtrip:
  assumes "hp_host e \<noteq> []" and "CHR ''@'' \<notin> set (hp_host e)"
  shows "parse_host_port (hp_username e @ ''@'' @ hp_host e @ '':'' @ dec (unat (hp_port e))) = Some e"
proof -
  let ?n = "unat (hp_port e)" and ?u = "hp_username e" and ?h = "hp_host e"
  have p: "?n < 65536" using unsigned_less [of "hp_port e"] by simp
  moreover have "uint (hp_port e) = int ?n" by simp
  ultimately have p': "\<not> 65535 < uint (hp_port e)" by linarith
  let ?s = "?u @ ''@'' @ ?h @ '':'' @ dec ?n"
  have d: "CHR '':'' \<notin> set (dec ?n)" "CHR ''@'' \<notin> set (dec ?n)"
    by (simp_all add: dec_no_char is_digit_def less_eq_char_def)
  have "?s = (?u @ ''@'' @ ?h) @ CHR '':'' # dec ?n" by simp
  then have c: "rfind (CHR '':'') ?s = Some (length ?u + 1 + length ?h)"
    using rfind_append [OF d(1), of "?u @ ''@'' @ ?h"] by simp
  have "?s = ?u @ CHR ''@'' # (?h @ '':'' @ dec ?n)" by simp
  then have a: "rfind (CHR ''@'') ?s = Some (length ?u)"
    using rfind_append [of "CHR ''@''" "?h @ '':'' @ dec ?n" ?u] d assms(2) by simp
  have "strtol (dec ?n) = Some (int ?n, [])" using p by (rule strtol_dec)
  moreover have "dec ?n \<noteq> []" using dec_digits by blast
  ultimately show ?thesis
    using c a assms(1) p' by (cases e) (simp add: parse_host_port_def substr_def)
qed

end
