(* ===== verification/Terminal.thy ===== *)
theory Terminal
  imports Prelude
begin

text \<open>
  The terminal side of \<^verbatim>\<open>Client\<close> (\<^verbatim>\<open>client/src/client.cpp\<close>): printing, the request for the next
  line and the interactive line editor. The state is a record that the client extends, so that
  these operations act on the client as its methods do. Standard output is the string
  \<^verbatim>\<open>te_stdout\<close>; the echo of a line that is not read in raw mode is switched off by \<^verbatim>\<open>te_noecho\<close>,
  which stands for the object \<^verbatim>\<open>password_guard_\<close>.
\<close>

section \<open>State\<close>

datatype EscState = NONE | ESC | CSI

record Terminal =
  te_exiting :: bool
  te_reading_line :: bool
  te_is_tty :: bool
  te_noecho :: bool
  te_masked :: bool
  te_current_prompt :: string
  te_line_buffer :: string
  te_cursor :: nat
  te_history :: "string list"
  te_history_pos :: nat
  te_history_saved :: string
  te_esc_state :: EscState
  te_csi_params :: string
  te_stdout :: string

definition PROMPT :: string where "PROMPT = ''> ''"

abbreviation endl :: string where "endl \<equiv> [CHR 0x0A]"
abbreviation crlf :: string where "crlf \<equiv> [CHR 0x0D, CHR 0x0A]"

definition put_out :: "string \<Rightarrow> 'a Terminal_scheme \<Rightarrow> 'a Terminal_scheme" where
  "put_out s t = t\<lparr>te_stdout := te_stdout t @ s\<rparr>"

definition print :: "u16 \<Rightarrow> string \<Rightarrow> bool \<Rightarrow> 'a Terminal_scheme \<Rightarrow> 'a Terminal_scheme" where
  "print code msg prompt t =
     put_out ((if code = 200 then ''OK: '' @ msg @ endl
               else ''ERROR: <'' @ dec (unat code) @ ''> '' @ msg @ endl) @
              (if prompt then te_current_prompt t else [])) t"

text \<open>The line, or the first of its characters, is requested once at a time.\<close>

definition read_line :: "'a Terminal_scheme \<Rightarrow> 'a Terminal_scheme" where
  "read_line t = (if te_exiting t \<or> te_reading_line t then t else t\<lparr>te_reading_line := True\<rparr>)"

section \<open>Line editor\<close>

definition clear_row :: string where
  "clear_row = [CHR 0x0D, CHR 0x1B] @ ''[K''"

definition refresh_line :: "'a Terminal_scheme \<Rightarrow> 'a Terminal_scheme" where
  "refresh_line t =
     (let back = length (te_line_buffer t) - te_cursor t
      in put_out (clear_row @ te_current_prompt t @
           (if te_masked t then []
            else te_line_buffer t @ (if back > 0 then CHR 0x1B # ''['' @ dec back @ ''D'' else []))) t)"

definition history_prev :: "'a Terminal_scheme \<Rightarrow> 'a Terminal_scheme" where
  "history_prev t =
     (if te_masked t \<or> te_history t = [] then t
      else let t1 = (if te_history_pos t = length (te_history t)
                     then t\<lparr>te_history_saved := te_line_buffer t\<rparr> else t)
           in if te_history_pos t1 > 0 then
                let l = te_history t1 ! (te_history_pos t1 - 1)
                in refresh_line (t1\<lparr>te_history_pos := te_history_pos t1 - 1, te_line_buffer := l, te_cursor := length l\<rparr>)
              else t1)"

definition history_next :: "'a Terminal_scheme \<Rightarrow> 'a Terminal_scheme" where
  "history_next t =
     (if te_masked t \<or> te_history_pos t \<ge> length (te_history t) then t
      else let pos = te_history_pos t + 1;
               l = (if pos = length (te_history t) then te_history_saved t else te_history t ! pos)
           in refresh_line (t\<lparr>te_history_pos := pos, te_line_buffer := l, te_cursor := length l\<rparr>))"

definition move_cursor :: "nat \<Rightarrow> 'a Terminal_scheme \<Rightarrow> 'a Terminal_scheme" where
  "move_cursor i t = refresh_line (t\<lparr>te_cursor := i\<rparr>)"

definition erase_at :: "nat \<Rightarrow> string \<Rightarrow> string" where
  "erase_at i s = take i s @ drop (i + 1) s"

definition insert_at :: "nat \<Rightarrow> char \<Rightarrow> string \<Rightarrow> string" where
  "insert_at i c s = take i s @ c # drop i s"

definition handle_csi_final :: "string \<Rightarrow> char \<Rightarrow> 'a Terminal_scheme \<Rightarrow> 'a Terminal_scheme" where
  "handle_csi_final params final t =
     (let size = length (te_line_buffer t); cur = te_cursor t
      in if params \<noteq> [] \<and> hd params = CHR ''O'' then
           if final = CHR ''H'' then move_cursor 0 t
           else if final = CHR ''F'' then move_cursor size t else t
         else if final = CHR ''A'' then history_prev t
         else if final = CHR ''B'' then history_next t
         else if final = CHR ''C'' then (if cur < size then move_cursor (cur + 1) t else t)
         else if final = CHR ''D'' then (if cur > 0 then move_cursor (cur - 1) t else t)
         else if final = CHR ''H'' then move_cursor 0 t
         else if final = CHR ''F'' then move_cursor size t
         else if final = CHR ''~'' then
           (if params = ''3'' \<and> cur < size
            then refresh_line (t\<lparr>te_line_buffer := erase_at cur (te_line_buffer t)\<rparr>)
            else if params = ''1'' then move_cursor 0 t
            else if params = ''4'' then move_cursor size t else t)
         else t)"

text \<open>
  What becomes of a character: the next one is read, a line is posted to \<^verbatim>\<open>handle_request\<close>, or the
  client exits.
\<close>

datatype key_action = More | Submit string | Quit

definition printable :: "char \<Rightarrow> bool" where
  "printable c \<longleftrightarrow> CHR '' '' \<le> c \<and> c < CHR 0x7F"

definition end_line :: "'a Terminal_scheme \<Rightarrow> 'a Terminal_scheme" where
  "end_line t =
     (let line = te_line_buffer t;
          h = (if \<not> te_masked t \<and> line \<noteq> [] \<and> (te_history t = [] \<or> last (te_history t) \<noteq> line)
               then te_history t @ [line] else te_history t)
      in (put_out crlf t)\<lparr>te_history := h, te_history_pos := length h, te_history_saved := [],
           te_line_buffer := [], te_cursor := 0, te_reading_line := False\<rparr>)"

definition process_char :: "char \<Rightarrow> 'a Terminal_scheme \<Rightarrow> key_action \<times> 'a Terminal_scheme" where
  "process_char c t =
     (if te_esc_state t = ESC then
        (More, if c = CHR ''['' then t\<lparr>te_esc_state := CSI, te_csi_params := []\<rparr>
               else if c = CHR ''O'' then t\<lparr>te_esc_state := CSI, te_csi_params := ''O''\<rparr>
               else t\<lparr>te_esc_state := NONE\<rparr>)
      else if te_esc_state t = CSI then
        (More, if (CHR ''0'' \<le> c \<and> c \<le> CHR ''9'' \<or> c = CHR '';'') \<and> length (te_csi_params t) < 8
               then t\<lparr>te_csi_params := te_csi_params t @ [c]\<rparr>
               else (handle_csi_final (te_csi_params t) c t)\<lparr>te_esc_state := NONE, te_csi_params := []\<rparr>)
      else if c = CHR 0x1B then (More, t\<lparr>te_esc_state := ESC\<rparr>)
      else if c = CHR 0x0D \<or> c = CHR 0x0A then (Submit (te_line_buffer t), end_line t)
      else if c = CHR 0x7F \<or> c = CHR 0x08 then
        (More, if te_cursor t > 0
               then refresh_line (t\<lparr>te_line_buffer := erase_at (te_cursor t - 1) (te_line_buffer t),
                      te_cursor := te_cursor t - 1\<rparr>)
               else t)
      else if c = CHR 0x04 then
        (if te_line_buffer t = [] then (Quit, (put_out crlf t)\<lparr>te_reading_line := False\<rparr>) else (More, t))
      else if printable c then
        (More, refresh_line (t\<lparr>te_line_buffer := insert_at (te_cursor t) c (te_line_buffer t), te_cursor := te_cursor t + 1\<rparr>))
      else (More, t))"

text \<open>The characters of one line, as the read loop feeds them to the editor.\<close>

fun type_keys :: "string \<Rightarrow> 'a Terminal_scheme \<Rightarrow> key_action \<times> 'a Terminal_scheme" where
  "type_keys [] t = (More, t)"
| "type_keys (c # cs) t = (case process_char c t of (More, t') \<Rightarrow> type_keys cs t' | r \<Rightarrow> r)"

lemmas editor_defs = put_out_def refresh_line_def history_prev_def history_next_def move_cursor_def
  handle_csi_final_def end_line_def process_char_def

section \<open>Invariant of the editor\<close>

definition text_line :: "string \<Rightarrow> bool" where
  "text_line s \<longleftrightarrow> list_all printable s"

definition editor_ok :: "'a Terminal_scheme \<Rightarrow> bool" where
  "editor_ok t \<longleftrightarrow> te_cursor t \<le> length (te_line_buffer t) \<and> te_history_pos t \<le> length (te_history t) \<and>
     text_line (te_line_buffer t) \<and> text_line (te_history_saved t) \<and> list_all text_line (te_history t)"

lemma text_line_edit [simp]:
  "text_line []" "text_line s \<Longrightarrow> text_line (erase_at i s)"
  "text_line s \<Longrightarrow> printable c \<Longrightarrow> text_line (insert_at i c s)"
  by (auto simp: text_line_def erase_at_def insert_at_def list_all_iff dest: in_set_takeD in_set_dropD)

lemma edit_length [simp]:
  "i < length s \<Longrightarrow> length (erase_at i s) = length s - 1"
  "i \<le> length s \<Longrightarrow> length (insert_at i c s) = length s + 1"
  by (auto simp: erase_at_def insert_at_def)

lemma refresh_fields [simp]:
  "te_cursor (refresh_line t) = te_cursor t" "te_line_buffer (refresh_line t) = te_line_buffer t"
  "te_history (refresh_line t) = te_history t" "te_history_pos (refresh_line t) = te_history_pos t"
  "te_history_saved (refresh_line t) = te_history_saved t" "te_masked (refresh_line t) = te_masked t"
  "te_current_prompt (refresh_line t) = te_current_prompt t" "te_esc_state (refresh_line t) = te_esc_state t"
  "te_csi_params (refresh_line t) = te_csi_params t" "te_reading_line (refresh_line t) = te_reading_line t"
  by (simp_all add: refresh_line_def put_out_def Let_def)

text \<open>The cases of the two dispatchers, as rules for properties of the state they leave.\<close>

lemma csi_rule:
  assumes "P t" and "P (history_prev t)" and "P (history_next t)"
    and "\<And>i. i \<le> length (te_line_buffer t) \<Longrightarrow> P (move_cursor i t)"
    and "te_cursor t < length (te_line_buffer t) \<Longrightarrow>
      P (refresh_line (t\<lparr>te_line_buffer := erase_at (te_cursor t) (te_line_buffer t)\<rparr>))"
    and "te_cursor t \<le> length (te_line_buffer t)"
  shows "P (handle_csi_final ps c t)"
proof -
  have "P (move_cursor 0 t)" "P (move_cursor (length (te_line_buffer t)) t)"
    "te_cursor t < length (te_line_buffer t) \<Longrightarrow> P (move_cursor (te_cursor t + 1) t)" "P (move_cursor (te_cursor t - 1) t)"
    using assms(6) by (auto intro!: assms(4))
  moreover define t' where "t' = refresh_line (t\<lparr>te_line_buffer := erase_at (te_cursor t) (te_line_buffer t)\<rparr>)"
  ultimately show ?thesis using assms(1,2,3) assms(5) [folded t'_def]
    unfolding handle_csi_final_def Let_def t'_def [symmetric] by auto
qed

lemma key_rule:
  assumes "\<And>e p. P More (t\<lparr>te_esc_state := e, te_csi_params := p\<rparr>)"
    and "P More ((handle_csi_final (te_csi_params t) c t)\<lparr>te_esc_state := NONE, te_csi_params := []\<rparr>)"
    and "P (Submit (te_line_buffer t)) (end_line t)"
    and "te_cursor t > 0 \<Longrightarrow> P More (refresh_line (t\<lparr>te_line_buffer := erase_at (te_cursor t - 1) (te_line_buffer t),
                      te_cursor := te_cursor t - 1\<rparr>))"
    and "te_line_buffer t = [] \<Longrightarrow> P Quit ((put_out crlf t)\<lparr>te_reading_line := False\<rparr>)"
    and "printable c \<Longrightarrow> P More (refresh_line (t\<lparr>te_line_buffer := insert_at (te_cursor t) c (te_line_buffer t), te_cursor := te_cursor t + 1\<rparr>))"
  shows "case process_char c t of (a, t') \<Rightarrow> P a t'"
proof -
  have "P More (t\<lparr>te_esc_state := e\<rparr>)" "P More (t\<lparr>te_csi_params := p\<rparr>)" "P More t" for e p
    using assms(1) [of "te_csi_params t" e] assms(1) [of p "te_esc_state t"] assms(1) [of "te_csi_params t" "te_esc_state t"]
    by simp_all
  moreover define t1 t2 t3 where
    "t1 = refresh_line (t\<lparr>te_line_buffer := erase_at (te_cursor t - 1) (te_line_buffer t), te_cursor := te_cursor t - 1\<rparr>)" and
    "t2 = (put_out crlf t)\<lparr>te_reading_line := False\<rparr>" and
    "t3 = refresh_line (t\<lparr>te_line_buffer := insert_at (te_cursor t) c (te_line_buffer t), te_cursor := te_cursor t + 1\<rparr>)"
  ultimately show ?thesis using assms(1-3) assms(4-6) [folded t1_def t2_def t3_def]
    unfolding process_char_def t1_def [symmetric] t2_def [symmetric] t3_def [symmetric]
    by (cases "te_esc_state t") auto
qed

lemma editor_ok_refresh [simp]: "editor_ok (refresh_line t) = editor_ok t"
  by (simp add: editor_ok_def)

lemma editor_ok_history:
  assumes "editor_ok t" shows "editor_ok (history_prev t)" "editor_ok (history_next t)"
  using assms by (auto simp: editor_ok_def history_prev_def history_next_def Let_def list_all_length)

lemma editor_ok_csi: "editor_ok t \<Longrightarrow> editor_ok (handle_csi_final ps c t)"
  by (rule csi_rule) (auto simp: editor_ok_history move_cursor_def, auto simp: editor_ok_def)

lemma editor_ok_end_line: "editor_ok t \<Longrightarrow> editor_ok (end_line t)"
  by (simp add: editor_ok_def end_line_def Let_def put_out_def)

lemma editor_ok_esc [simp]:
  "editor_ok (t\<lparr>te_esc_state := e\<rparr>) = editor_ok t" "editor_ok (t\<lparr>te_csi_params := p\<rparr>) = editor_ok t"
  by (simp_all add: editor_ok_def)

lemma editor_ok_step:
  assumes "editor_ok t" shows "editor_ok (snd (process_char c t))"
proof -
  have "case process_char c t of (a, t') \<Rightarrow> editor_ok t'"
    by (rule key_rule) (use assms in \<open>auto simp: editor_ok_csi editor_ok_end_line\<close>, auto simp: editor_ok_def put_out_def)
  then show ?thesis by (simp add: case_prod_unfold)
qed

lemma type_keys_induct:
  assumes "P t" and "\<And>c t. P t \<Longrightarrow> case process_char c t of (a, t') \<Rightarrow> P t'"
  shows "P (snd (type_keys cs t))"
  using assms(1)
proof (induction cs arbitrary: t)
  case (Cons c cs)
  then show ?case using assms(2) [OF Cons.prems, of c] by (auto split: prod.splits key_action.splits)
qed simp

section \<open>What the screen shows\<close>

text \<open>
  The row of an ANSI terminal on which the output ends: carriage return, new line, \<^verbatim>\<open>ESC [ K\<close>
  (erase to the end of the row) and \<^verbatim>\<open>ESC [ n D\<close> (n columns to the left); every other character is
  written at the cursor. The row is as wide as the text.
\<close>

datatype escape = Plain | Escape | Params string

record screen =
  sc_row :: string
  sc_col :: nat
  sc_escape :: escape

definition csi_done :: "string \<Rightarrow> char \<Rightarrow> screen \<Rightarrow> screen" where
  "csi_done ps c s =
     (if c = CHR ''K'' then s\<lparr>sc_row := take (sc_col s) (sc_row s), sc_escape := Plain\<rparr>
      else if c = CHR ''D'' then s\<lparr>sc_col := sc_col s - undec ps, sc_escape := Plain\<rparr>
      else s\<lparr>sc_escape := Plain\<rparr>)"

definition show_char :: "char \<Rightarrow> screen \<Rightarrow> screen" where
  "show_char c s =
     (case sc_escape s of
        Escape \<Rightarrow> s\<lparr>sc_escape := (if c = CHR ''['' then Params [] else Plain)\<rparr>
      | Params ps \<Rightarrow> if CHR ''0'' \<le> c \<and> c \<le> CHR ''9'' then s\<lparr>sc_escape := Params (ps @ [c])\<rparr> else csi_done ps c s
      | Plain \<Rightarrow>
          if c = CHR 0x1B then s\<lparr>sc_escape := Escape\<rparr>
          else if c = CHR 0x0D then s\<lparr>sc_col := 0\<rparr>
          else if c = CHR 0x0A then s\<lparr>sc_row := [], sc_col := 0\<rparr>
          else s\<lparr>sc_row := take (sc_col s) (sc_row s) @ c # drop (sc_col s + 1) (sc_row s), sc_col := sc_col s + 1\<rparr>)"

definition screen_of :: "string \<Rightarrow> screen" where
  "screen_of out = fold show_char out \<lparr>sc_row = [], sc_col = 0, sc_escape = Plain\<rparr>"

definition shows_line :: "'a Terminal_scheme \<Rightarrow> bool" where
  "shows_line t \<longleftrightarrow> screen_of (te_stdout t) =
     \<lparr>sc_row = te_current_prompt t @ (if te_masked t then [] else te_line_buffer t),
      sc_col = length (te_current_prompt t) + (if te_masked t then 0 else te_cursor t), sc_escape = Plain\<rparr>"

lemma printable_not_control: "printable c \<Longrightarrow> c \<noteq> CHR 0x1B \<and> c \<noteq> CHR 0x0D \<and> c \<noteq> CHR 0x0A"
  by (auto simp: printable_def less_eq_char_def)

lemma show_text:
  assumes "text_line u" and "sc_escape s = Plain" and "sc_col s = length (sc_row s)"
  shows "fold show_char u s = s\<lparr>sc_row := sc_row s @ u, sc_col := sc_col s + length u\<rparr>"
  using assms
proof (induction u arbitrary: s)
  case (Cons c u)
  have "printable c" "text_line u" using Cons.prems by (simp_all add: text_line_def)
  then have "show_char c s = s\<lparr>sc_row := sc_row s @ [c], sc_col := sc_col s + 1\<rparr>"
    using Cons.prems by (simp add: show_char_def printable_not_control)
  then show ?case using Cons.IH [of "show_char c s"] Cons.prems \<open>text_line u\<close> by simp
qed simp

lemma show_digits:
  assumes "\<forall>c\<in>set ds. CHR ''0'' \<le> c \<and> c \<le> CHR ''9''" and "sc_escape s = Params ps"
  shows "fold show_char ds s = s\<lparr>sc_escape := Params (ps @ ds)\<rparr>"
  using assms
proof (induction ds arbitrary: s ps)
  case (Cons d ds)
  then have "show_char d s = s\<lparr>sc_escape := Params (ps @ [d])\<rparr>" by (simp add: show_char_def)
  then show ?case using Cons by simp
qed simp

lemma show_clear: "sc_escape s = Plain \<Longrightarrow> fold show_char clear_row s = \<lparr>sc_row = [], sc_col = 0, sc_escape = Plain\<rparr>"
  by (cases s) (simp add: clear_row_def show_char_def csi_done_def)

lemma screen_append: "screen_of (a @ b) = fold show_char b (screen_of a)"
  by (simp add: screen_of_def)

lemma show_back: 
  assumes "sc_escape s = Plain"
  shows "fold show_char (CHR 0x1B # ''['' @ dec n @ ''D'') s = s\<lparr>sc_col := sc_col s - n\<rparr>"
proof -
  have "fold show_char (CHR 0x1B # ''['') s = s\<lparr>sc_escape := Params []\<rparr>" using assms by (simp add: show_char_def)
  moreover have "fold show_char (dec n) (s\<lparr>sc_escape := Params []\<rparr>) = s\<lparr>sc_escape := Params (dec n)\<rparr>"
    using show_digits [of "dec n" "s\<lparr>sc_escape := Params []\<rparr>" "[]"] dec_digits [of n] by (simp add: is_digit_def)
  moreover have "show_char (CHR ''D'') (s\<lparr>sc_escape := Params (dec n)\<rparr>) = s\<lparr>sc_col := sc_col s - n\<rparr>"
    using assms by (simp add: show_char_def csi_done_def less_eq_char_def)
  ultimately show ?thesis by simp
qed

lemma refresh_shows:
  assumes "sc_escape (screen_of (te_stdout t)) = Plain" and "text_line (te_current_prompt t)" and "editor_ok t"
  shows "shows_line (refresh_line t)"
proof -
  let ?p = "te_current_prompt t" and ?l = "te_line_buffer t" and ?n = "length (te_line_buffer t) - te_cursor t"
  let ?s = "fold show_char (clear_row @ ?p) (screen_of (te_stdout t))"
  have s: "?s = \<lparr>sc_row = ?p, sc_col = length ?p, sc_escape = Plain\<rparr>"
    using assms(1,2) by (simp add: show_clear show_text)
  have l: "fold show_char ?l ?s = \<lparr>sc_row = ?p @ ?l, sc_col = length ?p + length ?l, sc_escape = Plain\<rparr>"
    unfolding s using assms(3) by (subst show_text) (simp_all add: editor_ok_def)
  have out: "te_stdout (refresh_line t) = te_stdout t @ (clear_row @ ?p) @
      (if te_masked t then [] else ?l @ (if ?n > 0 then CHR 0x1B # ''['' @ dec ?n @ ''D'' else []))"
    by (simp add: refresh_line_def put_out_def Let_def)
  have cur: "te_cursor t \<le> length ?l" using assms(3) by (simp add: editor_ok_def)
  show ?thesis
  proof (cases "te_masked t \<or> ?n = 0")
    case True
    then show ?thesis using s l cur unfolding shows_line_def out screen_append fold_append o_apply by auto
  next
    case False
    have "fold show_char (CHR 0x1B # ''['' @ dec ?n @ ''D'') (fold show_char ?l ?s) =
        \<lparr>sc_row = ?p @ ?l, sc_col = length ?p + te_cursor t, sc_escape = Plain\<rparr>"
      unfolding l using cur by (subst show_back) simp_all
    then show ?thesis using False unfolding shows_line_def out screen_append fold_append o_apply by simp
  qed
qed

definition tidy :: "'a Terminal_scheme \<Rightarrow> bool" where
  "tidy t \<longleftrightarrow> editor_ok t \<and> text_line (te_current_prompt t) \<and> shows_line t"

lemma tidy_refresh:
  assumes "tidy t" and "te_stdout t' = te_stdout t" and "te_current_prompt t' = te_current_prompt t" and "editor_ok t'"
  shows "tidy (refresh_line t')"
  using assms refresh_shows [of t'] by (simp add: tidy_def shows_line_def)

lemma tidy_history:
  assumes "tidy t" shows "tidy (history_prev t)" "tidy (history_next t)"
proof -
  have "editor_ok t" "editor_ok (history_prev t)" "editor_ok (history_next t)"
    using assms editor_ok_history by (auto simp: tidy_def)
  then show "tidy (history_prev t)" "tidy (history_next t)" using assms
    by (auto simp: history_prev_def history_next_def Let_def intro!: tidy_refresh [OF assms])
qed

lemma tidy_csi: assumes "tidy t" shows "tidy (handle_csi_final ps c t)"
proof -
  have ok: "editor_ok t" using assms by (simp add: tidy_def)
  show ?thesis
    by (rule csi_rule)
      (use ok in \<open>auto simp: move_cursor_def editor_ok_def intro!: assms tidy_history tidy_refresh [OF assms]\<close>)
qed

lemma tidy_esc [simp]:
  "tidy (t\<lparr>te_esc_state := e\<rparr>) = tidy t" "tidy (t\<lparr>te_csi_params := p\<rparr>) = tidy t"
  by (simp_all add: tidy_def shows_line_def)

lemma tidy_step:
  assumes "tidy t" shows "case process_char c t of (a, t') \<Rightarrow> a = More \<longrightarrow> tidy t'"
proof -
  have ok: "editor_ok t" using assms by (simp add: tidy_def)
  show ?thesis
    by (rule key_rule)
      (use ok in \<open>auto simp: tidy_csi assms editor_ok_def intro!: tidy_refresh [OF assms]\<close>)
qed

text \<open>
  Property (C40). The editor never leaves its buffers and the screen never lies: from a tidy state,
  after any characters that do not end the line, the cursor is within the line and the row of the
  terminal reads prompt and line with the cursor at its place, or the prompt alone while the line
  is masked.
\<close>

theorem editor_shows_line:
  assumes "tidy t" and "type_keys cs t = (More, t')"
  shows "te_cursor t' \<le> length (te_line_buffer t') \<and> te_history_pos t' \<le> length (te_history t') \<and>
    screen_of (te_stdout t') =
     \<lparr>sc_row = te_current_prompt t' @ (if te_masked t' then [] else te_line_buffer t'),
      sc_col = length (te_current_prompt t') + (if te_masked t' then 0 else te_cursor t'), sc_escape = Plain\<rparr>"
proof -
  have "type_keys cs t = (More, t') \<Longrightarrow> tidy t \<Longrightarrow> tidy t'"
  proof (induction cs arbitrary: t)
    case (Cons c cs)
    then show ?case using tidy_step [of t c] by (auto split: prod.splits key_action.splits)
  qed simp
  with assms show ?thesis by (simp add: tidy_def editor_ok_def shows_line_def)
qed

definition demo_terminal :: Terminal where
  "demo_terminal = \<lparr>te_exiting = False, te_reading_line = True, te_is_tty = True, te_noecho = False, te_masked = False,
     te_current_prompt = PROMPT, te_line_buffer = [], te_cursor = 0, te_history = [''LIST''], te_history_pos = 1,
     te_history_saved = [], te_esc_state = NONE, te_csi_params = [], te_stdout = PROMPT\<rparr>"

text \<open>Cursor up, two columns to the left, a letter: the line is \<^verbatim>\<open>LIxST\<close>.\<close>

definition demo_typing :: string where
  "demo_typing = CHR 0x1B # ''[A'' @ CHR 0x1B # ''[D'' @ CHR 0x1B # ''[Dx''"

lemma tidy_demo: "tidy demo_terminal"
  by code_simp

lemma demo_typed: "fst (type_keys demo_typing demo_terminal) = More"
  "te_line_buffer (snd (type_keys demo_typing demo_terminal)) = ''LIxST''" "te_cursor (snd (type_keys demo_typing demo_terminal)) = 3"
  "te_current_prompt (snd (type_keys demo_typing demo_terminal)) = ''> ''" "\<not> te_masked (snd (type_keys demo_typing demo_terminal))"
  by code_simp+

theorem editor_shows_line_witness:
  "screen_of (te_stdout (snd (type_keys demo_typing demo_terminal))) = \<lparr>sc_row = ''> LIxST'', sc_col = 5, sc_escape = Plain\<rparr>"
proof -
  have "type_keys demo_typing demo_terminal = (More, snd (type_keys demo_typing demo_terminal))"
    using demo_typed(1) by (metis prod.collapse)
  from editor_shows_line [OF tidy_demo this] demo_typed show ?thesis by simp
qed

section \<open>Hidden input\<close>

definition redraw :: "'a Terminal_scheme \<Rightarrow> string" where
  "redraw t = clear_row @ te_current_prompt t"

text \<open>What a masked editor may do to the state: redraw the prompt and nothing else that can be seen.\<close>

definition hides :: "'a Terminal_scheme \<Rightarrow> key_action \<Rightarrow> 'a Terminal_scheme \<Rightarrow> bool" where
  "hides t a t' \<longleftrightarrow> te_masked t' \<and> te_history t' = te_history t \<and> te_current_prompt t' = te_current_prompt t \<and>
     (\<exists>n. te_stdout t' = te_stdout t @ concat (replicate n (redraw t)) @ (if a = More then [] else crlf))"

lemma hides_refresh:
  assumes "te_masked t" and "te_masked t' = te_masked t" and "te_history t' = te_history t"
    and "te_current_prompt t' = te_current_prompt t" and "te_stdout t' = te_stdout t"
  shows "hides t More (refresh_line t')"
  unfolding hides_def by (rule conjI | rule exI [of _ 1] | simp add: assms refresh_line_def put_out_def Let_def redraw_def)+

lemma hides_same: "te_masked t \<Longrightarrow> hides t More t"
  by (auto simp: hides_def intro: exI [of _ 0])

lemma hides_trans:
  assumes "hides t More u" and "hides u a t'"
  shows "hides t a t'"
proof -
  obtain n m where "te_stdout u = te_stdout t @ concat (replicate n (redraw t))"
    and "te_stdout t' = te_stdout u @ concat (replicate m (redraw u)) @ (if a = More then [] else crlf)"
    using assms by (auto simp: hides_def)
  moreover have "redraw u = redraw t" using assms by (simp add: hides_def redraw_def)
  ultimately have "te_stdout t' = te_stdout t @ concat (replicate (n + m) (redraw t)) @ (if a = More then [] else crlf)"
    by (simp add: replicate_add)
  then show ?thesis using assms unfolding hides_def by auto
qed

lemma hides_csi:
  assumes "te_masked t" and "te_cursor t \<le> length (te_line_buffer t)" shows "hides t More (handle_csi_final ps c t)"
  by (rule csi_rule) (simp_all add: assms history_prev_def history_next_def move_cursor_def hides_same hides_refresh)

lemma hides_step: assumes "te_masked t" and "te_cursor t \<le> length (te_line_buffer t)" shows "case process_char c t of (a, t') \<Rightarrow> hides t a t'"
proof -
  have esc: "hides t a (u\<lparr>te_esc_state := e, te_csi_params := p\<rparr>) = hides t a u" for a u e p
    by (simp add: hides_def)
  have "hides t (Submit l) (end_line t)" "hides t Quit ((put_out crlf t)\<lparr>te_reading_line := False\<rparr>)" for l
    using assms by (auto simp: hides_def end_line_def put_out_def Let_def intro: exI [of _ 0])
  then show ?thesis
    by (intro key_rule) (simp_all add: esc hides_csi hides_same hides_refresh assms)
qed

text \<open>
  Property (C39). A password typed at the terminal leaves no trace: while the line is masked, any
  characters only redraw the prompt, some number of times, and the end of the line prints a line
  break; the history of commands stays as it was.
\<close>

theorem masked_input_is_hidden:
  assumes "te_masked t" and "editor_ok t" and "type_keys cs t = (a, t')"
  shows "te_history t' = te_history t \<and>
    (\<exists>n. te_stdout t' = te_stdout t @ concat (replicate n (redraw t)) @ (if a = More then [] else crlf))"
proof -
  have "type_keys cs t = (a, t') \<Longrightarrow> te_masked t \<Longrightarrow> editor_ok t \<Longrightarrow> hides t a t'"
  proof (induction cs arbitrary: t)
    case (Cons c cs)
    obtain b u where b: "process_char c t = (b, u)" by fastforce
    then have h: "hides t b u" "editor_ok u" using hides_step [of t c] editor_ok_step [of t c] Cons.prems by (simp_all add: editor_ok_def)
    show ?case
    proof (cases "b = More")
      case True
      then have "hides u a t'" using Cons.IH [of u] Cons.prems b h by (simp add: hides_def)
      then show ?thesis using h True hides_trans by blast
    next
      case False
      then show ?thesis using Cons.prems b h by (cases b) auto
    qed
  qed (auto simp: hides_same)
  with assms show ?thesis by (auto simp: hides_def)
qed

theorem masked_input_is_hidden_witness:
  "te_history (snd (type_keys (''secret'' @ crlf) (demo_terminal\<lparr>te_masked := True\<rparr>))) = [''LIST''] \<and>
   fst (type_keys (''secret'' @ crlf) (demo_terminal\<lparr>te_masked := True\<rparr>)) = Submit ''secret''"
proof -
  let ?t = "demo_terminal\<lparr>te_masked := True\<rparr>"
  have "te_masked ?t" "editor_ok ?t" "te_history ?t = [''LIST'']" by (simp_all add: demo_terminal_def) code_simp
  moreover have "fst (type_keys (''secret'' @ crlf) ?t) = Submit ''secret''" by code_simp
  ultimately show ?thesis using masked_input_is_hidden [of ?t "''secret'' @ crlf", OF _ _ surjective_pairing] by simp
qed

section \<open>Typing a line\<close>

lemma type_text:
  assumes "text_line s" and "te_esc_state t = NONE" and "te_cursor t = length (te_line_buffer t)"
  shows "\<exists>t'. type_keys s t = (More, t') \<and> te_line_buffer t' = te_line_buffer t @ s \<and> te_esc_state t' = NONE \<and>
    te_history t' = te_history t \<and> te_masked t' = te_masked t"
  using assms
proof (induction s arbitrary: t)
  case (Cons c s)
  let ?u = "refresh_line (t\<lparr>te_line_buffer := insert_at (te_cursor t) c (te_line_buffer t), te_cursor := te_cursor t + 1\<rparr>)"
  have c: "printable c" "text_line s" using Cons.prems by (simp_all add: text_line_def)
  then have "c \<noteq> CHR 0x7F" "c \<noteq> CHR 0x08" "c \<noteq> CHR 0x04" by (auto simp: printable_def less_eq_char_def)
  then have "process_char c t = (More, ?u)" using c printable_not_control [of c] Cons.prems by (simp add: process_char_def)
  moreover have "te_line_buffer ?u = te_line_buffer t @ [c]" using Cons.prems by (simp add: insert_at_def)
  moreover from this have "te_cursor ?u = length (te_line_buffer ?u)" using Cons.prems by (simp del: refresh_fields(2))
  ultimately show ?case using Cons.IH [of ?u] Cons.prems c by auto
qed simp

text \<open>
  A line typed at an empty prompt and ended by return is handed to the client exactly as
  typed; it is appended to the history unless it is empty, repeats the last command or is masked.
\<close>

lemma typed_line_is_submitted:
  assumes "text_line s" and "te_esc_state t = NONE" and "te_line_buffer t = []" and "te_cursor t = 0"
  shows "\<exists>t'. type_keys (s @ [CHR 0x0D]) t = (Submit s, t') \<and> te_line_buffer t' = [] \<and> te_cursor t' = 0 \<and> \<not> te_reading_line t' \<and>
    te_history t' = (if te_masked t \<or> s = [] \<or> te_history t \<noteq> [] \<and> last (te_history t) = s then te_history t else te_history t @ [s])"
proof -
  obtain u where u: "type_keys s t = (More, u)" "te_line_buffer u = s" "te_esc_state u = NONE" "te_history u = te_history t"
    "te_masked u = te_masked t" using type_text [of s t] assms by auto
  have "type_keys (s @ r) t = type_keys r u" for r
    using u(1) by (induction s arbitrary: t) (auto split: prod.splits key_action.splits)
  moreover have "process_char (CHR 0x0D) u = (Submit s, end_line u)" using u by (simp add: process_char_def)
  ultimately show ?thesis using u by (simp add: end_line_def put_out_def Let_def)
qed

end
