(* ===== verification/Client.thy ===== *)
theory Client
  imports SessionFlow SyncManifest SyncDiff Startup Terminal
begin

text \<open>
  \<^verbatim>\<open>Client\<close> (\<^verbatim>\<open>client/src/client.cpp\<close>), first part: state, sending, the batch engine, transfers and
  exit. A method is a function on the client, which holds its disk; what it writes to the socket
  is appended to \<^verbatim>\<open>cl_outbox\<close>. A result \<^verbatim>\<open>None\<close> stands for an exception that ends the network
  thread or for an access outside a vector. The standard error stream is left out.
\<close>

section \<open>State\<close>

datatype ClientState =
    LOGIN | READY | NEED_INPUT | AUTH | PROCESSING | EXIT | UPLOAD_INIT | UPLOADING
  | DOWNLOAD_INIT | DOWNLOADING | NEED_INPUT_RESUME_TRANSFER | SYNC_LISTING | TIERS_LISTING

datatype BatchMode = NONE | SYNC | DOWNLOAD_DIR | PLAIN

datatype client_message = Send_Request Request | Send_Chunk ChunkHeader bytes

datatype log_line = Outgoing bytes | Outgoing_exit bytes | Incoming bytes

record Client = Terminal +
  cl_username :: string
  cl_state :: ClientState
  cl_socket_open :: bool
  cl_stopped :: bool
  cl_transfer :: ActiveTransfer
  cl_root :: fpath
  cl_partmeta :: PartialMetadata
  cl_disk :: disk
  cl_batch_queue :: "SyncOp list"
  cl_batch_active :: bool
  cl_advancing :: bool
  cl_advance_pending :: bool
  cl_batch_mode :: BatchMode
  cl_batch_label :: string
  cl_current_op :: "SyncOp option"
  cl_manifest :: "SyncManifest option"
  cl_sync_local_dir :: fpath
  cl_sync_remote_dir :: string
  cl_uploaded :: nat
  cl_downloaded :: nat
  cl_deleted :: nat
  cl_moved :: nat
  cl_copied :: nat
  cl_dirs :: nat
  cl_skipped :: nat
  cl_failed :: nat
  cl_conflicts :: "string list"
  cl_outbox :: "client_message list"
  cl_posted :: "string list"
  cl_log :: "log_line list"

text \<open>The libraries and the clock of the client; \<^verbatim>\<open>env_help\<close> is the iteration order of the hash map of commands.\<close>

record 'j client_env = "'j env" +
  env_clock :: "nat \<Rightarrow> tm"
  env_help :: "string list"

section \<open>Sending\<close>

definition redact_for_log :: "'j json_lib \<Rightarrow> 'j \<Rightarrow> 'j" where
  "redact_for_log J j =
     (if jvalue J (get_str J) [] j ''cmd'' = Some ''AUTH'' then jset J j ''first_argument'' (jstr J ''***'') else j)"

definition send_text :: "'j client_env \<Rightarrow> (bytes \<Rightarrow> log_line) \<Rightarrow> Request \<Rightarrow> Client \<Rightarrow> Client" where
  "send_text E entry req c =
     (let J = env_json E; j = request_to_json J req;
          c1 = c\<lparr>cl_log := cl_log c @ [entry (jdump J (redact_for_log J j))]\<rparr>
      in if length (jdump J j) > 4294967295
         then print INTERNAL_SERVER_ERROR ''File data was too large.'' True c1
         else c1\<lparr>cl_outbox := cl_outbox c1 @ [Send_Request req]\<rparr>)"

definition send_json :: "'j client_env \<Rightarrow> Request \<Rightarrow> Client \<Rightarrow> Client" where
  "send_json E = send_text E Outgoing"

definition send_json_exit :: "'j client_env \<Rightarrow> Request \<Rightarrow> Client \<Rightarrow> Client" where
  "send_json_exit E = send_text E Outgoing_exit"

definition plain_request :: "string \<Rightarrow> string \<Rightarrow> string \<Rightarrow> Request" where
  "plain_request cmd first second = \<lparr>req_cmd = cmd, req_first_argument = first, req_second_argument = second,
     req_size = 0, req_file_hash = [], req_chunks = []\<rparr>"

definition client_send_chunk :: "ChunkHeader \<Rightarrow> bytes \<Rightarrow> Client \<Rightarrow> Client" where
  "client_send_chunk ch data c = c\<lparr>cl_outbox := cl_outbox c @ [Send_Chunk ch data]\<rparr>"

definition send_command :: "'j client_env \<Rightarrow> string \<Rightarrow> string \<Rightarrow> string \<Rightarrow> Client \<Rightarrow> Client" where
  "send_command E cmd first second c =
     (send_json E (plain_request cmd first second) c)\<lparr>cl_state := PROCESSING\<rparr>"

definition do_list :: "'j client_env \<Rightarrow> string \<Rightarrow> Client \<Rightarrow> Client" where
  "do_list E remote = send_command E ''LIST'' remote []"

definition do_delete :: "'j client_env \<Rightarrow> string \<Rightarrow> Client \<Rightarrow> Client" where
  "do_delete E remote = send_command E ''DELETE'' remote []"

definition do_mkdir :: "'j client_env \<Rightarrow> string \<Rightarrow> Client \<Rightarrow> Client" where
  "do_mkdir E remote = send_command E ''MKDIR'' remote []"

definition do_set_tier :: "'j client_env \<Rightarrow> string \<Rightarrow> Client \<Rightarrow> Client" where
  "do_set_tier E tier = send_command E ''SET_TIER'' tier []"

definition do_rmdir :: "'j client_env \<Rightarrow> string \<Rightarrow> Client \<Rightarrow> Client" where
  "do_rmdir E remote = send_command E ''RMDIR'' remote []"

definition do_move :: "'j client_env \<Rightarrow> string \<Rightarrow> string \<Rightarrow> Client \<Rightarrow> Client" where
  "do_move E from to = send_command E ''MOVE'' from to"

definition do_copy :: "'j client_env \<Rightarrow> string \<Rightarrow> string \<Rightarrow> Client \<Rightarrow> Client" where
  "do_copy E from to = send_command E ''COPY'' from to"

section \<open>Requests that move a file\<close>

text \<open>
  The two requests end in \<^verbatim>\<open>command_finished\<close> when they fail before anything is sent. That function
  is an argument here because the batch engine, which it drives, calls these in turn.
\<close>

definition do_upload :: "'j client_env \<Rightarrow> (bool \<Rightarrow> Client \<Rightarrow> Client) \<Rightarrow> fpath \<Rightarrow> string \<Rightarrow> Client \<Rightarrow> Client" where
  "do_upload E finished local remote c =
     (let prompt = (\<not> cl_batch_active c); name = string_of_path local; S = env_sodium E; d = cl_disk c
      in if \<not> exists d local
         then finished False (print BAD_REQUEST (''Local file does not exist: '' @ name) prompt c)
         else let fm = scan_file S d local
         in if is_scan_file_error fm
            then finished False (print INTERNAL_SERVER_ERROR (''Gathering file metadata failed: '' @ name) prompt c)
            else if fm_size fm = 0
            then finished False (print BAD_REQUEST (''Local file is empty: '' @ name) prompt c)
            else let cs = compute_chunks S d fm
            in if is_compute_chunks_error cs
               then finished False (print INTERNAL_SERVER_ERROR (''Generating file chunks failed: '' @ name) prompt c)
               else (send_json E \<lparr>req_cmd = ''UPLOAD'', req_first_argument = remote, req_second_argument = [],
                        req_size = fm_size fm, req_file_hash = hash_to_hex S (fm_hash fm), req_chunks = cs\<rparr>
                      (c\<lparr>cl_transfer := (cl_transfer c)\<lparr>at_fmeta := fm, at_chunks := cs,
                           at_chunk_state := replicate (length cs) False\<rparr>\<rparr>))\<lparr>cl_state := UPLOAD_INIT\<rparr>)"

definition do_download :: "'j client_env \<Rightarrow> (bool \<Rightarrow> Client \<Rightarrow> Client) \<Rightarrow> string \<Rightarrow> fpath \<Rightarrow> bool \<Rightarrow> Client \<Rightarrow> Client" where
  "do_download E finished remote local allow_overwrite c =
     (if \<not> allow_overwrite \<and> exists (cl_disk c) local
      then finished False (print BAD_REQUEST (''Local file already exists: '' @ string_of_path local) (\<not> cl_batch_active c) c)
      else let d = (if path_empty (parent_path local) then cl_disk c
                    else snd (snd (fs_create_directories (cl_disk c) (parent_path local))));
               c1 = c\<lparr>cl_disk := d, cl_transfer := (cl_transfer c)\<lparr>at_fmeta := no_metadata\<lparr>fm_absolute_path := local\<rparr>\<rparr>\<rparr>
           in (send_json E (plain_request ''DOWNLOAD'' remote []) c1)\<lparr>cl_state := DOWNLOAD_INIT\<rparr>)"

section \<open>Batch engine\<close>

definition begin_batch :: "BatchMode \<Rightarrow> string \<Rightarrow> SyncOp list \<Rightarrow> Client \<Rightarrow> Client" where
  "begin_batch mode label ops c =
     c\<lparr>cl_batch_queue := ops, cl_batch_active := True, cl_batch_mode := mode, cl_batch_label := label,
       cl_current_op := None, cl_uploaded := 0, cl_downloaded := 0, cl_deleted := 0, cl_moved := 0, cl_copied := 0,
       cl_dirs := 0, cl_skipped := 0, cl_failed := 0, cl_conflicts := []\<rparr>"

definition manifest_entry :: "SyncEntry \<Rightarrow> SyncManifestEntry" where
  "manifest_entry e = \<lparr>sm_hash = sy_hash e, sm_mtime = sy_mtime e, sm_size = sy_size e, sm_is_directory = sy_is_directory e\<rparr>"

definition save_manifest :: "'j client_env \<Rightarrow> SyncManifest \<Rightarrow> Client \<Rightarrow> Client" where
  "save_manifest E mf c = c\<lparr>cl_manifest := Some mf, cl_disk := snd (manifest_save (env_json E) (cl_disk c) mf)\<rparr>"

definition count_op :: "SyncOpType \<Rightarrow> Client \<Rightarrow> Client" where
  "count_op t c =
     (case t of MKDIR_REMOTE \<Rightarrow> c\<lparr>cl_dirs := cl_dirs c + 1\<rparr>
      | RMDIR_REMOTE \<Rightarrow> c\<lparr>cl_deleted := cl_deleted c + 1\<rparr>
      | DELETE_REMOTE \<Rightarrow> c\<lparr>cl_deleted := cl_deleted c + 1\<rparr>
      | MOVE_REMOTE \<Rightarrow> c\<lparr>cl_moved := cl_moved c + 1\<rparr>
      | COPY_REMOTE \<Rightarrow> c\<lparr>cl_copied := cl_copied c + 1\<rparr>
      | SyncOpType.UPLOAD \<Rightarrow> c\<lparr>cl_uploaded := cl_uploaded c + 1\<rparr>
      | SyncOpType.DOWNLOAD \<Rightarrow> c\<lparr>cl_downloaded := cl_downloaded c + 1\<rparr>
      | CONFLICT_DOWNLOAD \<Rightarrow> c\<lparr>cl_downloaded := cl_downloaded c + 1\<rparr>)"

text \<open>The change of the baseline that an operation stands for.\<close>

definition advance_baseline :: "SyncOp \<Rightarrow> SyncManifest \<Rightarrow> SyncManifest" where
  "advance_baseline op mf =
     (let mf1 = (if so_relative_path_from op = [] then mf else manifest_remove (so_relative_path_from op) mf)
      in if so_relative_path op = [] then mf1 else manifest_put (so_relative_path op) (manifest_entry (so_entry op)) mf1)"

definition record_op_result :: "'j client_env \<Rightarrow> Client \<Rightarrow> Client" where
  "record_op_result E c =
     (case cl_current_op c of None \<Rightarrow> c
      | Some op \<Rightarrow>
         (case cl_manifest c of None \<Rightarrow> count_op (so_type op) c
          | Some mf \<Rightarrow> save_manifest E (advance_baseline op mf) (count_op (so_type op) c)))"

text \<open>The part of \<^verbatim>\<open>command_finished\<close> that accounts for the finished item.\<close>

definition settle_item :: "'j client_env \<Rightarrow> bool \<Rightarrow> Client \<Rightarrow> Client" where
  "settle_item E success c =
     (if success then record_op_result E c
      else case cl_current_op c of None \<Rightarrow> c
           | Some op \<Rightarrow> if so_type op \<noteq> MKDIR_REMOTE then c\<lparr>cl_failed := cl_failed c + 1\<rparr> else c)\<lparr>cl_current_op := None\<rparr>"

definition summary :: "Client \<Rightarrow> string" where
  "summary c = cl_batch_label c @ '' complete. Uploaded: '' @ dec (cl_uploaded c) @ '', Downloaded: '' @ dec (cl_downloaded c)
     @ '', Deleted: '' @ dec (cl_deleted c) @ '', Moved: '' @ dec (cl_moved c) @ '', Copied: '' @ dec (cl_copied c)
     @ '', Directories created: '' @ dec (cl_dirs c) @ '', Skipped (unchanged): '' @ dec (cl_skipped c)
     @ '', Failed: '' @ dec (cl_failed c) @ '', Conflicts: '' @ dec (length (cl_conflicts c)) @ ''.''"

definition finish_batch :: "'j client_env \<Rightarrow> Client \<Rightarrow> Client" where
  "finish_batch E c =
     (let c1 = c\<lparr>cl_batch_active := False, cl_batch_mode := NONE, cl_batch_queue := [], cl_current_op := None\<rparr>;
          c2 = (case cl_manifest c1 of None \<Rightarrow> c1 | Some mf \<Rightarrow> (save_manifest E mf c1)\<lparr>cl_manifest := None\<rparr>);
          c3 = put_out (concat (map (\<lambda>s. ''CONFLICT: '' @ s @ endl) (cl_conflicts c2))) c2
      in read_line (print code_OK (summary c3) True (c3\<lparr>cl_conflicts := [], cl_state := READY\<rparr>)))"

text \<open>
  \<^verbatim>\<open>command_finished\<close> where it is called while \<^verbatim>\<open>advance_batch_queue\<close> runs: the inner call of the latter
  only notes that it has to go on.
\<close>

definition finished_inside :: "'j client_env \<Rightarrow> bool \<Rightarrow> Client \<Rightarrow> Client" where
  "finished_inside E success c =
     (if \<not> cl_batch_active c then read_line c else (settle_item E success c)\<lparr>cl_advance_pending := True\<rparr>)"

definition dispatch_op :: "'j client_env \<Rightarrow> SyncOp \<Rightarrow> Client \<Rightarrow> Client" where
  "dispatch_op E op =
     (case so_type op of
        MKDIR_REMOTE \<Rightarrow> do_mkdir E (so_remote_path op)
      | RMDIR_REMOTE \<Rightarrow> do_rmdir E (so_remote_path op)
      | DELETE_REMOTE \<Rightarrow> do_delete E (so_remote_path op)
      | MOVE_REMOTE \<Rightarrow> do_move E (so_remote_path_from op) (so_remote_path op)
      | COPY_REMOTE \<Rightarrow> do_copy E (so_remote_path_from op) (so_remote_path op)
      | SyncOpType.UPLOAD \<Rightarrow> do_upload E (finished_inside E) (so_local_path op) (so_remote_path op)
      | SyncOpType.DOWNLOAD \<Rightarrow> do_download E (finished_inside E) (so_remote_path op) (so_local_path op) True
      | CONFLICT_DOWNLOAD \<Rightarrow> do_download E (finished_inside E) (so_remote_path op) (so_local_path op) False)"

named_theorems client_defs \<open>definitions of the client's methods\<close>

lemmas send_defs [client_defs] = send_text_def send_json_def send_json_exit_def send_command_def client_send_chunk_def
  do_list_def do_delete_def do_mkdir_def do_set_tier_def do_rmdir_def do_move_def do_copy_def print_def put_out_def

lemmas batch_defs [client_defs] = save_manifest_def count_op_def record_op_result_def settle_item_def finished_inside_def

lemma queue_settle [simp]: "cl_batch_queue (settle_item E s c) = cl_batch_queue c"
  by (auto simp: batch_defs split: option.splits SyncOpType.splits)

lemma queue_dispatch [simp]: "cl_batch_queue (dispatch_op E op c) = cl_batch_queue c"
  by (cases "so_type op") (simp_all add: dispatch_op_def do_upload_def do_download_def finished_inside_def read_line_def send_defs Let_def)

text \<open>The loop of \<^verbatim>\<open>advance_batch_queue\<close>; every round takes one operation off the queue.\<close>

function advance_loop :: "'j client_env \<Rightarrow> Client \<Rightarrow> Client" where
  "advance_loop E c =
     (case cl_batch_queue c of
        [] \<Rightarrow> finish_batch E (c\<lparr>cl_advance_pending := False, cl_advancing := False\<rparr>)
      | op # ops \<Rightarrow>
          let c1 = dispatch_op E op (c\<lparr>cl_advance_pending := False, cl_current_op := Some op, cl_batch_queue := ops\<rparr>)
          in if cl_advance_pending c1 then advance_loop E c1 else c1\<lparr>cl_advancing := False\<rparr>)"
  by pat_completeness auto

termination
  by (relation "measure (\<lambda>(E, c). length (cl_batch_queue c))") auto

declare advance_loop.simps [simp del]

definition advance_batch_queue :: "'j client_env \<Rightarrow> Client \<Rightarrow> Client" where
  "advance_batch_queue E c =
     (if \<not> cl_batch_active c then c
      else if cl_advancing c then c\<lparr>cl_advance_pending := True\<rparr>
      else advance_loop E (c\<lparr>cl_advancing := True\<rparr>))"

definition command_finished :: "'j client_env \<Rightarrow> bool \<Rightarrow> Client \<Rightarrow> Client" where
  "command_finished E success c =
     (if \<not> cl_batch_active c then read_line c else advance_batch_queue E (settle_item E success c))"

lemma active_settle [simp]:
  "cl_batch_active (settle_item E s c) = cl_batch_active c" "cl_advancing (settle_item E s c) = cl_advancing c"
  by (auto simp: batch_defs split: option.splits SyncOpType.splits)

text \<open>The function passed to the two requests above is \<^verbatim>\<open>command_finished\<close> itself.\<close>

lemma finished_inside: "cl_advancing c \<Longrightarrow> finished_inside E s c = command_finished E s c"
  by (simp add: finished_inside_def command_finished_def advance_batch_queue_def)

section \<open>The table of partial transfers\<close>

definition client_mark :: "'j client_env \<Rightarrow> u32 \<Rightarrow> u32 \<Rightarrow> Client \<Rightarrow> Client option" where
  "client_mark E tid index c =
     map_option (\<lambda>pm. c\<lparr>cl_partmeta := pm\<rparr>) (mark_chunk_received (env_now E) (cl_partmeta c) tid index)"

definition client_delete :: "'j client_env \<Rightarrow> u32 \<Rightarrow> Client \<Rightarrow> Client option" where
  "client_delete E tid c =
     (case delete_partial_metadata (env_sodium E) (env_json E) (cl_disk c) (cl_partmeta c) tid of
        (False, d, pm) \<Rightarrow> None | (True, d, pm) \<Rightarrow> Some (c\<lparr>cl_disk := d, cl_partmeta := pm\<rparr>))"

definition client_save :: "'j client_env \<Rightarrow> Client \<Rightarrow> Client option" where
  "client_save E c =
     (case save (env_sodium E) (env_json E) (cl_disk c) (cl_partmeta c) of
        (False, d) \<Rightarrow> None | (True, d) \<Rightarrow> Some (c\<lparr>cl_disk := d\<rparr>))"

text \<open>The four assignments that end a transfer; the path of the partial file stays.\<close>

definition reset_transfer :: "Client \<Rightarrow> Client" where
  "reset_transfer c = c\<lparr>cl_transfer := (cl_transfer c)\<lparr>at_transfer_id := UINT32_MAX, at_fmeta := no_metadata,
     at_chunk_state := [], at_chunks := []\<rparr>\<rparr>"

definition drop_transfer :: "'j client_env \<Rightarrow> Client \<Rightarrow> Client option" where
  "drop_transfer E c = map_option reset_transfer (client_delete E (at_transfer_id (cl_transfer c)) c)"

definition notify_server :: "u8 \<Rightarrow> Client \<Rightarrow> Client" where
  "notify_server flag c = client_send_chunk
     \<lparr>ch_transfer_id = at_transfer_id (cl_transfer c), ch_index = UINT32_MAX, ch_size = 0, ch_flags = flag\<rparr> [] c"

text \<open>The end of the two abort functions.\<close>

definition end_abort :: "'j client_env \<Rightarrow> bool \<Rightarrow> u8 \<Rightarrow> Client \<Rightarrow> Client" where
  "end_abort E notify flag c =
     (let c1 = (if notify then notify_server flag c else c)
      in if flag \<noteq> flag_EXIT then command_finished E False (c1\<lparr>cl_state := READY\<rparr>) else c1)"

section \<open>Upload\<close>

definition client_uploading :: "Client \<Rightarrow> Client option" where
  "client_uploading c =
     (let t = cl_transfer c
      in case first_pending 0 (at_chunk_state t) of
           None \<Rightarrow> Some c
         | Some i \<Rightarrow>
             if \<not> i < length (at_chunks t) then None
             else let ci = at_chunks t ! i;
                      flag = (if unat (ci_index ci) = length (at_chunks t) - 1 then flag_LAST else flag_SEND);
                      data = read_chunk (cl_disk c) (fm_absolute_path (at_fmeta t)) (CHUNK_SIZE * ci_index ci) (ci_size ci)
                  in if data = [] then Some c
                     else Some (client_send_chunk \<lparr>ch_transfer_id = at_transfer_id t, ch_index = ci_index ci,
                            ch_size = ci_size ci, ch_flags = flag\<rparr> data c))"

definition client_upload_init :: "'j client_env \<Rightarrow> Client \<Rightarrow> Client option" where
  "client_upload_init E c =
     (let t = cl_transfer c;
          (i, pm) = add_partial_metadata (env_now E) (cl_partmeta c) TransferType.UPLOAD (at_fmeta t) (at_chunks t) UINT32_MAX
      in client_uploading (c\<lparr>cl_partmeta := pm, cl_transfer := t\<lparr>at_transfer_id := i\<rparr>\<rparr>))"

definition client_upload_done :: "'j client_env \<Rightarrow> Client \<Rightarrow> Client option" where
  "client_upload_done E c =
     map_option (\<lambda>c1. command_finished E True (c1\<lparr>cl_state := READY\<rparr>)) (drop_transfer E c)"

definition client_upload_abort :: "'j client_env \<Rightarrow> bool \<Rightarrow> bool \<Rightarrow> u8 \<Rightarrow> Client \<Rightarrow> Client option" where
  "client_upload_abort E saving notify flag c =
     map_option (end_abort E notify flag) (if saving then client_save E c else drop_transfer E c)"

definition client_upload_abort_exit :: "'j client_env \<Rightarrow> bool \<Rightarrow> bool \<Rightarrow> u8 \<Rightarrow> Client \<Rightarrow> Client option" where
  "client_upload_abort_exit E saving notify flag c =
     map_option (\<lambda>c1. if notify then notify_server flag c1 else c1) (if saving then client_save E c else drop_transfer E c)"

section \<open>Download\<close>

definition client_valid_file :: "'j client_env \<Rightarrow> Client \<Rightarrow> fpath \<Rightarrow> bytes \<Rightarrow> bool" where
  "client_valid_file E c p expected =
     (let h = hash_file (env_sodium E) (cl_disk c) p in h = expected \<and> \<not> is_hash_error h)"

definition client_valid_chunk :: "'j client_env \<Rightarrow> Client \<Rightarrow> u32 \<Rightarrow> u32 \<Rightarrow> bytes \<Rightarrow> bool option" where
  "client_valid_chunk E c index sz data =
     (let cs = at_chunks (cl_transfer c)
      in if \<not> unat index < length cs then None
         else let ci = cs ! unat index; h = hash_chunk (env_sodium E) data
              in Some (ci_size ci = sz \<and> ci_index ci = index \<and>
                   h = hex_to_hash (env_sodium E) (ci_chunk_hash ci) \<and> \<not> is_hash_error h))"

text \<open>The branch of the two abort functions that discards the partial file too.\<close>

definition discard_part :: "'j client_env \<Rightarrow> Client \<Rightarrow> Client option" where
  "discard_part E c = drop_transfer E (c\<lparr>cl_disk := snd (remove_file (cl_disk c) (at_partial_path (cl_transfer c)))\<rparr>)"

definition client_download_abort :: "'j client_env \<Rightarrow> bool \<Rightarrow> bool \<Rightarrow> u8 \<Rightarrow> Client \<Rightarrow> Client option" where
  "client_download_abort E saving notify flag c =
     map_option (end_abort E notify flag) (if saving then client_save E c else discard_part E c)"

definition client_download_abort_exit :: "'j client_env \<Rightarrow> bool \<Rightarrow> bool \<Rightarrow> u8 \<Rightarrow> Client \<Rightarrow> Client option" where
  "client_download_abort_exit E saving notify flag c =
     map_option (\<lambda>c1. if notify then notify_server flag c1 else c1) (if saving then client_save E c else discard_part E c)"

definition client_download_init :: "'j client_env \<Rightarrow> ChunkInfo list \<Rightarrow> string \<Rightarrow> Client \<Rightarrow> Client option" where
  "client_download_init E chunks file_hash c =
     (let file_size = sum_list (map (\<lambda>ci. ucast (ci_size ci)) chunks) :: u64
      in if file_size > ucast UINT32_MAX
         then client_download_abort E False True flag_ERROR
                (print INTERNAL_SERVER_ERROR ''Requested file is too large.'' True c)
         else Some (c\<lparr>cl_transfer := (cl_transfer c)\<lparr>at_transfer_id := UINT32_MAX,
                at_fmeta := (at_fmeta (cl_transfer c))\<lparr>fm_size := ucast file_size, fm_hash := hex_to_hash (env_sodium E) file_hash\<rparr>,
                at_chunks := chunks, at_chunk_state := replicate (length chunks) False\<rparr>, cl_state := DOWNLOADING\<rparr>))"

definition download_prepare_partmeta :: "'j client_env \<Rightarrow> Client \<Rightarrow> Client option" where
  "download_prepare_partmeta E c =
     (let t = cl_transfer c;
          pm = snd (add_partial_metadata (env_now E) (cl_partmeta c) TransferType.DOWNLOAD (at_fmeta t) (at_chunks t) (at_transfer_id t));
          p = get_partial_path (cl_disk c) pm (at_transfer_id t);
          c1 = c\<lparr>cl_partmeta := pm, cl_transfer := t\<lparr>at_partial_path := p\<rparr>\<rparr>
      in if path_empty p
         then client_upload_abort E False True flag_ERROR (print INTERNAL_SERVER_ERROR ''Cannot get partial file'' True c1)
         else if is_file (cl_disk c1) p then Some c1
         else Some (c1\<lparr>cl_disk := snd (create_empty_file (cl_disk c1) p)\<rparr>))"

definition client_download_done :: "'j client_env \<Rightarrow> Client \<Rightarrow> Client option" where
  "client_download_done E c =
     (let t = cl_transfer c;
          c1 = c\<lparr>cl_disk := snd (move_path (cl_disk c) (at_partial_path t) (fm_absolute_path (at_fmeta t)) True)\<rparr>
      in map_option (\<lambda>c2. command_finished E True
             ((print code_OK ''Download successful'' (\<not> cl_batch_active c2) c2)\<lparr>cl_state := READY\<rparr>)) (drop_transfer E c1))"

definition client_downloading :: "'j client_env \<Rightarrow> u32 \<Rightarrow> u32 \<Rightarrow> bytes \<Rightarrow> u8 \<Rightarrow> Client \<Rightarrow> Client option" where
  "client_downloading E index sz data flag c =
     (let t = cl_transfer c
      in if \<not> unat index < length (at_chunk_state t) then None
         else let t1 = t\<lparr>at_chunk_state := (at_chunk_state t)[unat index := True]\<rparr>
              in client_mark E (at_transfer_id t1) index (c\<lparr>cl_transfer := t1\<rparr>) \<bind> (\<lambda>c1.
                   case write_chunk (cl_disk c1) (at_partial_path t1) (CHUNK_SIZE * index) data of
                     (False, d) \<Rightarrow> client_download_abort E False True flag_ERROR
                       (print INTERNAL_SERVER_ERROR ''Cannot write to file'' True (c1\<lparr>cl_disk := d\<rparr>))
                   | (True, d) \<Rightarrow>
                      (let c2 = c1\<lparr>cl_disk := d\<rparr>
                       in if flag = flag_DONE \<and> \<not> client_valid_file E c2 (at_partial_path t1) (fm_hash (at_fmeta t1))
                          then client_download_abort E False True flag_ERROR
                                 (print INTERNAL_SERVER_ERROR ''Downloaded file is corrupted'' True c2)
                          else let c3 = client_send_chunk \<lparr>ch_transfer_id = at_transfer_id t1, ch_index = index,
                                     ch_size = 0, ch_flags = flag\<rparr> [] c2
                               in if flag = flag_DONE then client_download_done E c3 else Some c3)))"

section \<open>Exit\<close>

definition client_finish_exit :: "Client \<Rightarrow> Client" where
  "client_finish_exit c = c\<lparr>cl_state := EXIT, cl_socket_open := False, cl_stopped := True\<rparr>"

definition client_exit :: "'j client_env \<Rightarrow> Client \<Rightarrow> Client option" where
  "client_exit E c =
     (if te_exiting c then Some c
      else let c1 = c\<lparr>te_exiting := True\<rparr>; opened = cl_socket_open c1
           in map_option client_finish_exit
                (if cl_state c1 = UPLOADING then client_upload_abort_exit E True opened flag_EXIT c1
                 else if cl_state c1 = DOWNLOADING then client_download_abort_exit E True opened flag_EXIT c1
                 else if opened then Some (send_json_exit E (plain_request ''EXIT'' [] []) c1)
                 else Some c1))"

definition client_handle_error :: "'j client_env \<Rightarrow> string \<Rightarrow> Client \<Rightarrow> Client option" where
  "client_handle_error E msg c =
     client_exit E ((print INTERNAL_SERVER_ERROR msg True c)\<lparr>cl_socket_open := False\<rparr>)"

section \<open>Construction\<close>

definition client_setup :: "'j client_env \<Rightarrow> disk \<Rightarrow> fpath \<Rightarrow> PartialMetadata option \<times> disk" where
  "client_setup E d root =
     (let meta = sub root ''.partial/partmeta.json'';
          d1 = ensure_dir (ensure_dir (ensure_dir d root) (sub root ''files'')) (sub root ''.partial'');
          d2 = (if is_file d1 meta then d1 else snd (create_empty_file d1 meta))
      in new_partial_metadata (env_sodium E) (env_json E) (env_now E) d2 meta)"

definition new_client :: "'j client_env \<Rightarrow> disk \<Rightarrow> string \<Rightarrow> bool \<Rightarrow> Client option" where
  "new_client E d username is_tty =
     (let root = path_of_string ''./data/client_cwd''
      in case client_setup E d root of
           (None, d3) \<Rightarrow> None
         | (Some pm, d3) \<Rightarrow> Some
             \<lparr>te_exiting = False, te_reading_line = False, te_is_tty = is_tty, te_noecho = False, te_masked = False,
              te_current_prompt = PROMPT, te_line_buffer = [], te_cursor = 0, te_history = [], te_history_pos = 0,
              te_history_saved = [], te_esc_state = EscState.NONE, te_csi_params = [], te_stdout = [],
              cl_username = username, cl_state = LOGIN, cl_socket_open = False, cl_stopped = False,
              cl_transfer = no_transfer, cl_root = root, cl_partmeta = pm, cl_disk = d3,
              cl_batch_queue = [], cl_batch_active = False, cl_advancing = False, cl_advance_pending = False,
              cl_batch_mode = NONE, cl_batch_label = [], cl_current_op = None, cl_manifest = None,
              cl_sync_local_dir = Rel [], cl_sync_remote_dir = [], cl_uploaded = 0, cl_downloaded = 0, cl_deleted = 0,
              cl_moved = 0, cl_copied = 0, cl_dirs = 0, cl_skipped = 0, cl_failed = 0, cl_conflicts = [],
              cl_outbox = [], cl_posted = [], cl_log = []\<rparr>)"

end
