(* ===== verification/ClientFlow.thy ===== *)
theory ClientFlow
  imports Client
begin

text \<open>
  \<^verbatim>\<open>Client\<close>, second part: the command line, the listings, and the handlers of a line, of a response
  and of a chunk.
\<close>

section \<open>Words of a line\<close>

lemma words_shorter:
  assumes "dropWhile is_space s \<noteq> []"
  shows "length (dropWhile (\<lambda>c. \<not> is_space c) (dropWhile is_space s)) < length s"
proof -
  obtain c u where u: "dropWhile is_space s = c # u" using assms by (cases "dropWhile is_space s") auto
  then have "\<not> is_space c" using hd_dropWhile [of is_space s] assms by simp
  then have "length (dropWhile (\<lambda>c. \<not> is_space c) (c # u)) \<le> length u" by (simp add: length_dropWhile_le)
  moreover have "length u < length s" using u length_dropWhile_le [of is_space s] by (metis Suc_le_lessD length_Cons)
  ultimately show ?thesis using u by simp
qed

text \<open>Reading with \<^verbatim>\<open>operator>>\<close> until the stream fails.\<close>

function words :: "string \<Rightarrow> string list" where
  "words s =
     (let u = dropWhile is_space s
      in if u = [] then [] else takeWhile (\<lambda>c. \<not> is_space c) u # words (dropWhile (\<lambda>c. \<not> is_space c) u))"
  by pat_completeness auto

termination
  by (relation "measure length") (auto simp: words_shorter)

declare words.simps [simp del]

section \<open>Commands\<close>

text \<open>A command that is not understood: a message, and the next line is read.\<close>

definition refuse :: "u16 \<Rightarrow> string \<Rightarrow> Client \<Rightarrow> Client" where
  "refuse code msg c = read_line (print code msg True c)"

definition missing_path :: "Client \<Rightarrow> Client" where
  "missing_path = refuse BAD_REQUEST ''Missing path argument.''"

definition cmd_help :: "'j client_env \<Rightarrow> Client \<Rightarrow> Client" where
  "cmd_help E c =
     read_line (print code_OK (''The syntax of filesystem commands is: '' @ quote @ ''Command'' @ quote @ '' '' @ quote @ ''what'' @
       quote @ '' '' @ quote @ ''where'' @ quote) True (put_out (concat (map (\<lambda>k. k @ endl) (env_help E))) c))"

definition cmd_list :: "'j client_env \<Rightarrow> string list \<Rightarrow> Client \<Rightarrow> Client" where
  "cmd_list E args c = do_list E (case args of [] \<Rightarrow> [] | p # _ \<Rightarrow> p) c"

definition cmd_upload :: "'j client_env \<Rightarrow> string list \<Rightarrow> Client \<Rightarrow> Client" where
  "cmd_upload E args c =
     (case args of [] \<Rightarrow> refuse BAD_REQUEST ''Missing local path argument.'' c
      | l # rest \<Rightarrow>
          let local = path_of_string l
          in do_upload E (command_finished E) local (case rest of [] \<Rightarrow> filename local | r # _ \<Rightarrow> r) c)"

definition cmd_download :: "'j client_env \<Rightarrow> string list \<Rightarrow> Client \<Rightarrow> Client" where
  "cmd_download E args c =
     (case args of [] \<Rightarrow> refuse BAD_REQUEST ''Missing remote path argument.'' c
      | remote # rest \<Rightarrow>
          do_download E (command_finished E) remote
            (case rest of [] \<Rightarrow> sub (Abs (cwd (cl_disk c))) (filename (path_of_string remote)) | l # _ \<Rightarrow> path_of_string l)
            False c)"

definition cmd_delete :: "'j client_env \<Rightarrow> string list \<Rightarrow> Client \<Rightarrow> Client" where
  "cmd_delete E args c =
     (case args of [] \<Rightarrow> missing_path c
      | [p] \<Rightarrow> do_delete E p c
      | _ \<Rightarrow> advance_batch_queue E (begin_batch PLAIN ''Delete'' (map (sync_op DELETE_REMOTE) args) c))"

definition cmd_cd :: "'j client_env \<Rightarrow> string list \<Rightarrow> Client \<Rightarrow> Client" where
  "cmd_cd E args c = (case args of [] \<Rightarrow> missing_path c | p # _ \<Rightarrow> send_command E ''CD'' p [] c)"

definition cmd_mkdir :: "'j client_env \<Rightarrow> string list \<Rightarrow> Client \<Rightarrow> Client" where
  "cmd_mkdir E args c = (case args of [] \<Rightarrow> missing_path c | p # _ \<Rightarrow> do_mkdir E p c)"

definition cmd_rmdir :: "'j client_env \<Rightarrow> string list \<Rightarrow> Client \<Rightarrow> Client" where
  "cmd_rmdir E args c = (case args of [] \<Rightarrow> missing_path c | p # _ \<Rightarrow> do_rmdir E p c)"

definition cmd_tiers :: "'j client_env \<Rightarrow> Client \<Rightarrow> Client" where
  "cmd_tiers E c = (send_json E (plain_request ''TIERS'' [] []) c)\<lparr>cl_state := TIERS_LISTING\<rparr>"

definition cmd_set_tier :: "'j client_env \<Rightarrow> string list \<Rightarrow> Client \<Rightarrow> Client" where
  "cmd_set_tier E args c =
     (case args of [] \<Rightarrow> refuse BAD_REQUEST ''Missing tier name. Use TIERS to see available media.'' c
      | t # _ \<Rightarrow> do_set_tier E t c)"

definition into_dir :: "SyncOpType \<Rightarrow> string \<Rightarrow> string \<Rightarrow> SyncOp" where
  "into_dir t dest source =
     (sync_op t (join_remote dest (filename (path_of_string source))))\<lparr>so_remote_path_from := source\<rparr>"

definition batch_move_or_copy :: "'j client_env \<Rightarrow> bool \<Rightarrow> string list \<Rightarrow> Client \<Rightarrow> Client" where
  "batch_move_or_copy E is_move args c =
     (if length args < 2 then refuse BAD_REQUEST ''Missing source or destination path argument.'' c
      else let dest = last args; sources = butlast args
           in if length sources = 1 \<and> \<not> (dest \<noteq> [] \<and> last dest = CHR ''/'')
              then (if is_move then do_move else do_copy) E (hd sources) dest c
              else advance_batch_queue E (begin_batch PLAIN (if is_move then ''Move'' else ''Copy'')
                     (map (into_dir (if is_move then MOVE_REMOTE else COPY_REMOTE) (strip_slashes dest)) sources) c))"

definition cmd_move :: "'j client_env \<Rightarrow> string list \<Rightarrow> Client \<Rightarrow> Client" where
  "cmd_move E = batch_move_or_copy E True"

definition cmd_copy :: "'j client_env \<Rightarrow> string list \<Rightarrow> Client \<Rightarrow> Client" where
  "cmd_copy E = batch_move_or_copy E False"

text \<open>The request for a recursive listing that \<^verbatim>\<open>SYNC\<close> and \<^verbatim>\<open>DOWNLOAD_DIR\<close> share.\<close>

definition request_listing :: "'j client_env \<Rightarrow> BatchMode \<Rightarrow> fpath \<Rightarrow> string \<Rightarrow> Client \<Rightarrow> Client" where
  "request_listing E mode local remote c =
     (send_json E (plain_request ''SYNC'' remote [])
        (c\<lparr>cl_sync_local_dir := local, cl_sync_remote_dir := remote, cl_batch_mode := mode\<rparr>))\<lparr>cl_state := SYNC_LISTING\<rparr>"

definition cmd_sync :: "'j client_env \<Rightarrow> string list \<Rightarrow> Client \<Rightarrow> Client" where
  "cmd_sync E args c =
     (case args of l # r # _ \<Rightarrow>
        let local = absolute (cl_disk c) (path_of_string l)
        in if \<not> is_directory (cl_disk c) local then refuse BAD_REQUEST ''Local sync directory does not exist.'' c
           else request_listing E SYNC local r c
      | _ \<Rightarrow> refuse BAD_REQUEST ''Missing source or destination path argument.'' c)"

definition local_entry :: "'j client_env \<Rightarrow> disk \<Rightarrow> FileMetadata \<Rightarrow> SyncEntry" where
  "local_entry E d fm =
     (let is_dir = is_directory d (fm_absolute_path fm)
      in \<lparr>sy_hash = (if is_dir then [] else hash_to_hex (env_sodium E) (fm_hash fm)), sy_mtime = fm_last_modified fm,
          sy_size = (if is_dir then 0 else fm_size fm), sy_is_directory = is_dir\<rparr>)"

definition bookkeeping :: "string \<Rightarrow> bool" where
  "bookkeeping p \<longleftrightarrow> p = [] \<or> p = ''.'' \<or> p = ''.minidrive-sync'' \<or> prefix ''.minidrive-sync/'' p"

definition scan_local_tree :: "'j client_env \<Rightarrow> disk \<Rightarrow> fpath \<Rightarrow> tree option" where
  "scan_local_tree E d dir =
     (let base = absolute d dir; files = scan_directory (env_sodium E) d base True
      in if is_scan_dir_error files then None
         else Some (fold (\<lambda>fm out. let p = string_of_path (relative d base (fm_absolute_path fm))
                in if bookkeeping p then out else omap_put p (local_entry E d fm) out) files []))"

definition upload_dir_ops :: "fpath \<Rightarrow> string \<Rightarrow> tree \<Rightarrow> SyncOp list" where
  "upload_dir_ops local remote t =
     sync_op MKDIR_REMOTE remote #
     map (\<lambda>(p, _). sync_op MKDIR_REMOTE (join_remote remote p)) (filter (\<lambda>(p, e). sy_is_directory e) t) @
     map (\<lambda>(p, _). (sync_op SyncOpType.UPLOAD (join_remote remote p))\<lparr>so_local_path := sub local p\<rparr>)
       (filter (\<lambda>(p, e). \<not> sy_is_directory e) t)"

definition cmd_upload_dir :: "'j client_env \<Rightarrow> string list \<Rightarrow> Client \<Rightarrow> Client" where
  "cmd_upload_dir E args c =
     (case args of [] \<Rightarrow> refuse BAD_REQUEST ''Missing local directory argument.'' c
      | l # rest \<Rightarrow>
          let local = absolute (cl_disk c) (path_of_string l)
          in if \<not> is_directory (cl_disk c) local then refuse BAD_REQUEST ''Local directory does not exist.'' c
             else let remote = (case rest of [] \<Rightarrow> filename local | r # _ \<Rightarrow> r)
             in case scan_local_tree E (cl_disk c) local of
                  None \<Rightarrow> refuse INTERNAL_SERVER_ERROR ''Failed to scan local directory.'' c
                | Some t \<Rightarrow> advance_batch_queue E (begin_batch PLAIN ''Directory upload'' (upload_dir_ops local remote t) c))"

definition cmd_download_dir :: "'j client_env \<Rightarrow> string list \<Rightarrow> Client \<Rightarrow> Client" where
  "cmd_download_dir E args c =
     (case args of [] \<Rightarrow> refuse BAD_REQUEST ''Missing remote directory argument.'' c
      | remote # rest \<Rightarrow>
          request_listing E DOWNLOAD_DIR
            (absolute (cl_disk c) (case rest of [] \<Rightarrow> sub (Abs (cwd (cl_disk c))) (filename (path_of_string remote))
               | l # _ \<Rightarrow> path_of_string l)) remote c)"

section \<open>Listings\<close>

definition tier_line :: "TierInfo \<Rightarrow> string" where
  "tier_line t = (if ti_is_current t then ''  * '' else ''    '') @ ti_name t @
     (if ti_description t \<noteq> [] then ''  -  '' @ ti_description t else []) @
     (if ti_is_current t then ''  (current)'' else []) @ endl"

definition handle_tiers_listing :: "'j client_env \<Rightarrow> Response \<Rightarrow> Client \<Rightarrow> Client" where
  "handle_tiers_listing E res c =
     command_finished E True (put_out (concat (map tier_line (res_tiers res)) @
       (if res_tiers res \<noteq> [] then ''Use SET_TIER <name> to move your data to another medium.'' @ endl else [])) c)"

definition remote_tree :: "FileEntry list \<Rightarrow> tree" where
  "remote_tree files = fold (\<lambda>f. omap_put (fe_relative_path f)
     \<lparr>sy_hash = fe_file_hash f, sy_mtime = fe_last_modified f, sy_size = fe_size f, sy_is_directory = fe_is_directory f\<rparr>) files []"

definition make_local_dir :: "fpath \<Rightarrow> disk \<Rightarrow> disk" where
  "make_local_dir p d = snd (snd (fs_create_directories d p))"

definition download_dir_batch :: "'j client_env \<Rightarrow> tree \<Rightarrow> Client \<Rightarrow> Client" where
  "download_dir_batch E remote c =
     (let dir = cl_sync_local_dir c;
          d = fold (\<lambda>(p, e) d. if sy_is_directory e then make_local_dir (sub dir p) d else d) remote
                (make_local_dir dir (cl_disk c));
          ops = map (\<lambda>(p, e). (sync_op SyncOpType.DOWNLOAD (join_remote (cl_sync_remote_dir c) p))\<lparr>so_local_path := sub dir p\<rparr>)
                  (filter (\<lambda>(p, e). \<not> sy_is_directory e) remote)
      in advance_batch_queue E (begin_batch DOWNLOAD_DIR ''Directory download'' ops (c\<lparr>cl_disk := d\<rparr>)))"

definition baseline_tree :: "SyncManifest \<Rightarrow> tree" where
  "baseline_tree mf = fold (\<lambda>(p, e). omap_put p
     \<lparr>sy_hash = sm_hash e, sy_mtime = sm_mtime e, sy_size = sm_size e, sy_is_directory = sm_is_directory e\<rparr>) (mf_entries mf) []"

text \<open>The local work of a plan.\<close>

definition make_dirs_locally :: "fpath list \<Rightarrow> Client \<Rightarrow> Client" where
  "make_dirs_locally ps c = fold (\<lambda>p c. c\<lparr>cl_disk := make_local_dir p (cl_disk c), cl_dirs := cl_dirs c + 1\<rparr>) ps c"

definition delete_locally :: "fpath list \<Rightarrow> Client \<Rightarrow> Client" where
  "delete_locally ps c = fold (\<lambda>p c. case remove_file (cl_disk c) p of
       (True, d) \<Rightarrow> c\<lparr>cl_disk := d, cl_deleted := cl_deleted c + 1\<rparr>
     | (False, d) \<Rightarrow> c\<lparr>cl_disk := d, cl_failed := cl_failed c + 1\<rparr>) ps c"

definition plan_baseline :: "SyncPlan \<Rightarrow> SyncManifest \<Rightarrow> SyncManifest" where
  "plan_baseline pl mf =
     fold manifest_remove (sp_baseline_drop pl)
       (fold (\<lambda>(p, e). manifest_put p (manifest_entry e)) (sp_baseline_set pl) mf)"

definition sync_batch :: "'j client_env \<Rightarrow> tree \<Rightarrow> Client \<Rightarrow> Client" where
  "sync_batch E remote c =
     (case scan_local_tree E (cl_disk c) (cl_sync_local_dir c) of
        None \<Rightarrow> read_line ((print INTERNAL_SERVER_ERROR ''Failed to scan local sync directory.'' True c)
                  \<lparr>cl_batch_mode := NONE, cl_state := READY\<rparr>)
      | Some local \<Rightarrow>
          let (mf, d) = new_manifest (env_json E) (cl_disk c) (cl_sync_local_dir c) (cl_sync_remote_dir c);
              pl = compute_sync_plan
                \<lparr>sn_local_dir = cl_sync_local_dir c, sn_remote_dir = cl_sync_remote_dir c, sn_clock = env_clock E\<rparr>
                local remote (baseline_tree mf);
              c1 = begin_batch SYNC ''Sync'' (sp_ops pl) (c\<lparr>cl_disk := d, cl_manifest := Some mf\<rparr>);
              c2 = delete_locally (sp_local_deletes pl) (make_dirs_locally (sp_local_mkdirs pl) c1);
              c3 = save_manifest E (plan_baseline pl mf) c2
          in advance_batch_queue E (c3\<lparr>cl_skipped := sp_skipped pl, cl_conflicts := sp_conflicts pl\<rparr>))"

definition handle_sync_listing :: "'j client_env \<Rightarrow> Response \<Rightarrow> Client \<Rightarrow> Client" where
  "handle_sync_listing E res c =
     (if cl_batch_mode c = DOWNLOAD_DIR then download_dir_batch E (remote_tree (res_files res)) c
      else sync_batch E (remote_tree (res_files res)) c)"

section \<open>Responses\<close>

definition on_password_required :: "Client \<Rightarrow> Client" where
  "on_password_required c =
     (let p = ''Password for '' @ cl_username c @ '': ''
      in if te_is_tty c
         then put_out p (c\<lparr>te_masked := True, te_current_prompt := p, te_line_buffer := [], te_cursor := 0\<rparr>)
         else put_out p (c\<lparr>te_noecho := True\<rparr>))"

text \<open>\<^verbatim>\<open>std::stoul\<close>; \<^verbatim>\<open>None\<close> stands for its two exceptions. A minus sign negates in 64 bits.\<close>

definition stoul :: "string \<Rightarrow> u64 option" where
  "stoul s =
     (case read_sign (dropWhile is_space s) of (neg, u) \<Rightarrow>
        (let ds = takeWhile is_digit u; n = undec ds
         in if ds = [] \<or> n \<ge> 2 ^ 64 then None else Some (if neg then - of_nat n else of_nat n)))"

definition set_id :: "u32 \<Rightarrow> Client \<Rightarrow> Client" where
  "set_id i c = c\<lparr>cl_transfer := (cl_transfer c)\<lparr>at_transfer_id := i\<rparr>\<rparr>"

definition resume_transfer_client :: "'j client_env \<Rightarrow> Response \<Rightarrow> Client \<Rightarrow> Client option" where
  "resume_transfer_client E res c =
     (case stoul (res_file_hash res) of None \<Rightarrow> None
      | Some v \<Rightarrow>
         (let i = ucast v :: u32; cmd = (case words (res_message res) of [] \<Rightarrow> [] | w # _ \<Rightarrow> w)
          in case get_entry (cl_partmeta c) i of
               None \<Rightarrow>
                 let c1 = set_id i (print INTERNAL_SERVER_ERROR ''No local record of this transfer; cannot resume.'' True c)
                 in if cmd = ''UPLOAD'' then client_upload_abort E False True flag_ERROR c1
                    else client_download_abort E False True flag_ERROR c1
             | Some e \<Rightarrow>
                 let t = (cl_transfer c)\<lparr>at_fmeta := (at_fmeta (cl_transfer c))\<lparr>fm_absolute_path := pe_absolute_path e,
                            fm_size := pe_size e, fm_hash := pe_file_hash e\<rparr>,
                          at_chunks := pe_chunks e, at_chunk_state := pe_chunk_state e\<rparr>
                 in if cmd = ''UPLOAD''
                    then client_uploading (c\<lparr>cl_transfer := t\<lparr>at_transfer_id := i\<rparr>, cl_state := UPLOADING\<rparr>)
                    else if cmd = ''DOWNLOAD''
                    then Some (c\<lparr>cl_transfer := t\<lparr>at_partial_path := get_partial_path (cl_disk c) (cl_partmeta c) i,
                           at_transfer_id := UINT32_MAX\<rparr>, cl_state := DOWNLOADING\<rparr>)
                    else Some (c\<lparr>cl_transfer := t\<rparr>)))"

text \<open>The responses with status \<^verbatim>\<open>OK\<close>.\<close>

definition handle_ok :: "'j client_env \<Rightarrow> Response \<Rightarrow> Client \<Rightarrow> Client option" where
  "handle_ok E res c =
     (if cl_state c = SYNC_LISTING then Some (handle_sync_listing E res (c\<lparr>cl_state := READY\<rparr>))
      else if cl_state c = TIERS_LISTING then Some (handle_tiers_listing E res (c\<lparr>cl_state := READY\<rparr>))
      else if cl_state c = UPLOAD_INIT then client_upload_init E (c\<lparr>cl_state := UPLOADING\<rparr>)
      else if cl_state c = DOWNLOAD_INIT then client_download_init E (res_chunks res) (res_file_hash res) c
      else Some (command_finished E True (c\<lparr>cl_state := READY\<rparr>)))"

definition handle_error_status :: "'j client_env \<Rightarrow> Client \<Rightarrow> Client" where
  "handle_error_status E c =
     command_finished E False
       (if cl_state c = SYNC_LISTING then c\<lparr>cl_state := READY, cl_batch_mode := NONE\<rparr> else c\<lparr>cl_state := READY\<rparr>)"

definition respond :: "'j client_env \<Rightarrow> Response \<Rightarrow> Client \<Rightarrow> Client option" where
  "respond E res c =
     (let st = res_status res; say = (\<lambda>p c. print (res_code res) (res_message res) p c)
      in if st = ''AUTH'' then Some (read_line (on_password_required (say False (c\<lparr>cl_state := AUTH\<rparr>))))
         else if st = ''EXIT'' then client_exit E c
         else
           let c0 = (if st = ''BUSY'' then (say False c)\<lparr>cl_state := PROCESSING\<rparr> else c);
               c1 = say (\<not> cl_batch_active c0) c0
           in if st = ''NEED_INPUT'' then Some (read_line (c1\<lparr>cl_state := NEED_INPUT\<rparr>))
              else if st = ''BUSY'' then Some (command_finished E False c1)
              else if st = ''ERROR'' then Some (handle_error_status E c1)
              else if st = ''OK'' then handle_ok E res c1
              else if st = ''RESUME'' then
                if res_file_hash res = [] then Some (read_line (c1\<lparr>cl_state := NEED_INPUT_RESUME_TRANSFER\<rparr>))
                else resume_transfer_client E res c1
              else Some c1)"

definition handle_response :: "'j client_env \<Rightarrow> 'j \<Rightarrow> Client \<Rightarrow> Client option" where
  "handle_response E j c =
     (case response_from_json (env_json E) j of None \<Rightarrow> None
      | Some res \<Rightarrow> respond E res (c\<lparr>cl_log := cl_log c @ [Incoming (jdump (env_json E) j)]\<rparr>))"

section \<open>Lines\<close>

definition client_login :: "'j client_env \<Rightarrow> Client \<Rightarrow> Client" where
  "client_login E c = send_json E (plain_request ''LOGIN'' (cl_username c) []) c"

definition client_auth :: "'j client_env \<Rightarrow> string \<Rightarrow> Client \<Rightarrow> Client" where
  "client_auth E password = send_command E ''AUTH'' password []"

definition to_lower :: "char \<Rightarrow> char" where
  "to_lower c = (if CHR ''A'' \<le> c \<and> c \<le> CHR ''Z'' then char_of (of_char c + 32 :: nat) else c)"

definition client_need_input :: "'j client_env \<Rightarrow> string \<Rightarrow> Client \<Rightarrow> Client" where
  "client_need_input E input c =
     (let l = map to_lower input
      in if l \<noteq> ''y'' \<and> l \<noteq> ''n'' then refuse BAD_REQUEST ''Invalid input.'' c
         else send_command E ''NEED_INPUT'' l [] c)"

text \<open>The map of commands.\<close>

definition run_command :: "'j client_env \<Rightarrow> string \<Rightarrow> string list \<Rightarrow> Client \<Rightarrow> Client" where
  "run_command E cmd args c =
     (if cmd = ''LIST'' then cmd_list E args c
      else if cmd = ''HELP'' then cmd_help E c
      else if cmd = ''UPLOAD'' then cmd_upload E args c
      else if cmd = ''DOWNLOAD'' then cmd_download E args c
      else if cmd = ''DELETE'' then cmd_delete E args c
      else if cmd = ''CD'' then cmd_cd E args c
      else if cmd = ''MKDIR'' then cmd_mkdir E args c
      else if cmd = ''RMDIR'' then cmd_rmdir E args c
      else if cmd = ''MOVE'' then cmd_move E args c
      else if cmd = ''COPY'' then cmd_copy E args c
      else if cmd = ''SYNC'' then cmd_sync E args c
      else if cmd = ''UPLOAD_DIR'' then cmd_upload_dir E args c
      else if cmd = ''DOWNLOAD_DIR'' then cmd_download_dir E args c
      else if cmd = ''TIERS'' then cmd_tiers E c
      else if cmd = ''SET_TIER'' then cmd_set_tier E args c
      else refuse BAD_REQUEST (''Invalid command '' @ quote @ cmd @ quote @ ''.'') c)"

definition client_handle_request :: "'j client_env \<Rightarrow> string \<Rightarrow> Client \<Rightarrow> Client option" where
  "client_handle_request E line c =
     (if line = ''EXIT'' then client_exit E c
      else if cl_state c = AUTH then
        Some (client_auth E line
          (if te_is_tty c then c\<lparr>te_masked := False, te_current_prompt := PROMPT\<rparr> else put_out endl (c\<lparr>te_noecho := False\<rparr>)))
      else if cl_state c = READY then
        Some (case words line of [] \<Rightarrow> run_command E [] [] c | cmd # args \<Rightarrow> run_command E cmd args c)
      else if cl_state c = NEED_INPUT \<or> cl_state c = NEED_INPUT_RESUME_TRANSFER then Some (client_need_input E line c)
      else if cl_state c = LOGIN then Some (client_login E c)
      else if cl_state c = PROCESSING \<or> cl_state c = UPLOAD_INIT \<or> cl_state c = DOWNLOAD_INIT
      then Some (print SERVICE_UNAVAILABLE ''Server is busy...'' True c)
      else if cl_state c = EXIT then Some c
      else if cl_state c = UPLOADING \<or> cl_state c = DOWNLOADING
      then Some (print SERVICE_UNAVAILABLE ''Transfer in progress...'' True c)
      else Some c)"

section \<open>Chunks\<close>

definition adopt_id :: "'j client_env \<Rightarrow> u32 \<Rightarrow> Client \<Rightarrow> Client option" where
  "adopt_id E tid c =
     (if at_transfer_id (cl_transfer c) = UINT32_MAX then download_prepare_partmeta E (set_id tid c) else Some c)"

text \<open>A data chunk of a download; \<^verbatim>\<open>flag\<close> is the acknowledgement it gets.\<close>

definition receive_chunk :: "'j client_env \<Rightarrow> ChunkHeader \<Rightarrow> bytes \<Rightarrow> u8 \<Rightarrow> Client \<Rightarrow> Client option" where
  "receive_chunk E ch data flag c =
     (case client_valid_chunk E c (ch_index ch) (ch_size ch) data of
        None \<Rightarrow> None
      | Some True \<Rightarrow> adopt_id E (ch_transfer_id ch) c \<bind> client_downloading E (ch_index ch) (ch_size ch) data flag
      | Some False \<Rightarrow> client_download_abort E False True flag_CHUNK_MISMATCH
                       (print INTERNAL_SERVER_ERROR ''Chunk mismatch'' True c))"

definition mark_sent :: "u32 \<Rightarrow> Client \<Rightarrow> Client option" where
  "mark_sent index c =
     (let t = cl_transfer c
      in if \<not> unat index < length (at_chunk_state t) then None
         else Some (c\<lparr>cl_transfer := t\<lparr>at_chunk_state := (at_chunk_state t)[unat index := True]\<rparr>\<rparr>))"

definition client_handle_chunk :: "'j client_env \<Rightarrow> ChunkHeader \<Rightarrow> bytes \<Rightarrow> Client \<Rightarrow> Client option" where
  "client_handle_chunk E ch data c =
     (let prompt = (\<not> cl_batch_active c); tid = at_transfer_id (cl_transfer c)
      in if cl_state c = UPLOADING then
           if ch_flags ch = flag_OK then
             if ch_transfer_id ch \<noteq> tid
             then client_upload_abort E False True flag_ERROR (print INTERNAL_SERVER_ERROR ''Transfer ID mismatch.'' prompt c)
             else mark_sent (ch_index ch) c \<bind> client_mark E tid (ch_index ch) \<bind> client_uploading
           else if ch_flags ch = flag_DONE then
             mark_sent (ch_index ch) c \<bind> (\<lambda>c1. client_upload_done E (print code_OK ''Upload successful'' prompt c1))
           else if ch_flags ch = flag_ERROR then
             client_upload_abort E False False flag_ERROR (print INTERNAL_SERVER_ERROR ''Upload failed.'' prompt c)
           else if ch_flags ch = flag_EXIT then
             client_upload_abort E True False flag_EXIT c \<bind>
               (\<lambda>c1. client_exit E (print INTERNAL_SERVER_ERROR ''Server unavailable.'' False c1))
           else Some c
         else if cl_state c = DOWNLOADING then
           if ch_flags ch = flag_SEND then receive_chunk E ch data flag_OK c
           else if ch_flags ch = flag_LAST then receive_chunk E ch data flag_DONE c
           else if ch_flags ch = flag_ERROR then
             client_download_abort E False False flag_ERROR (print INTERNAL_SERVER_ERROR ''Download failed'' True c)
           else if ch_flags ch = flag_EXIT then client_download_abort E True False flag_EXIT c \<bind> client_exit E
           else Some c
         else Some c)"

section \<open>Events\<close>

text \<open>A line that was read is posted and handled later; so are the characters of the line editor.\<close>

definition line_read :: "string \<Rightarrow> Client \<Rightarrow> Client" where
  "line_read line c = c\<lparr>te_reading_line := False, cl_posted := cl_posted c @ [line]\<rparr>"

definition char_read :: "'j client_env \<Rightarrow> char \<Rightarrow> Client \<Rightarrow> Client option" where
  "char_read E ch c =
     (case process_char ch c of
        (More, c1) \<Rightarrow> Some c1
      | (Submit line, c1) \<Rightarrow> Some (c1\<lparr>cl_posted := cl_posted c1 @ [line]\<rparr>)
      | (Quit, c1) \<Rightarrow> client_exit E c1)"

definition run_posted :: "'j client_env \<Rightarrow> Client \<Rightarrow> Client option" where
  "run_posted E c =
     (case cl_posted c of [] \<Rightarrow> Some c
      | line # rest \<Rightarrow> client_handle_request E line (c\<lparr>cl_posted := rest\<rparr>))"

definition connected :: "'j client_env \<Rightarrow> Client \<Rightarrow> Client option" where
  "connected E c = client_handle_request E (cl_username c) (c\<lparr>cl_socket_open := True\<rparr>)"

definition json_read :: "'j client_env \<Rightarrow> bytes \<Rightarrow> Client \<Rightarrow> Client option" where
  "json_read E msg c =
     (if te_exiting c then Some c
      else case jparse (env_json E) msg of
             None \<Rightarrow> client_handle_error E ''Invalid argument'' c
           | Some j \<Rightarrow> handle_response E j c)"

definition chunk_read :: "'j client_env \<Rightarrow> ChunkHeader \<Rightarrow> bytes \<Rightarrow> Client \<Rightarrow> Client option" where
  "chunk_read E ch data c = (if te_exiting c then Some c else client_handle_chunk E ch data c)"

definition client_read_next :: "Client \<Rightarrow> expected" where
  "client_read_next c =
     (if te_exiting c then Nothing_more
      else if cl_state c = DOWNLOADING \<or> cl_state c = UPLOADING then Expect_chunk else Expect_json)"

end
