(* ===== verification/ClientLaws.thy ===== *)
theory ClientLaws
  imports ClientFlow
begin

text \<open>
  Laws of the client: what its log keeps, when it speaks and when it listens, and how the batch
  engine accounts for its items.
\<close>

section \<open>The log\<close>

lemma send_text_log: "cl_log (send_text E f req c) = cl_log c @ [f (jdump (env_json E) (redact_for_log (env_json E) (request_to_json (env_json E) req)))]"
  by (simp add: send_text_def Let_def print_def put_out_def)

text \<open>
  Property (C38). The log does not depend on the password: signing in with two different passwords
  writes the same lines.
\<close>

theorem password_is_not_logged:
  assumes "json_laws (env_json E)"
  shows "cl_log (client_auth E p c) = cl_log (client_auth E p' c)"
proof -
  let ?J = "env_json E"
  let ?obj = "\<lambda>p. [(''cmd'', jstr ?J ''AUTH''), (''first_argument'', jstr ?J p), (''second_argument'', jstr ?J []),
       (''size'', juint ?J 0), (''file_hash'', jstr ?J [])]"
  have "request_to_json ?J (plain_request ''AUTH'' p []) = jobj ?J (?obj p)" for p
    by (simp add: request_to_json_def plain_request_def set_nonempty_def)
  moreover have "jvalue ?J (get_str ?J) [] (jobj ?J (?obj p)) ''cmd'' = Some ''AUTH''" for p
    using jvalue_jobj [OF assms, of "?obj p" "''cmd''" "jstr ?J ''AUTH''" "get_str ?J" "[]"] json_str [OF assms] by simp
  moreover have "jset ?J (jobj ?J (?obj p)) ''first_argument'' v = jobj ?J ((?obj [])[1 := (''first_argument'', v)])" for p v
    by (subst json_set [OF assms]) simp_all
  ultimately have "redact_for_log ?J (request_to_json ?J (plain_request ''AUTH'' p [])) =
      redact_for_log ?J (request_to_json ?J (plain_request ''AUTH'' p' []))"
    by (simp add: redact_for_log_def)
  then show ?thesis by (simp add: client_auth_def send_command_def send_json_def send_text_log)
qed

section \<open>Turns\<close>

definition oversize :: "'j client_env \<Rightarrow> Request \<Rightarrow> bool" where
  "oversize E req \<longleftrightarrow> length (jdump (env_json E) (request_to_json (env_json E) req)) > 4294967295"

definition sends :: "'j client_env \<Rightarrow> Client \<Rightarrow> Client \<Rightarrow> bool" where
  "sends E c c' \<longleftrightarrow> (\<exists>req. cl_outbox c' = cl_outbox c @ (if oversize E req then [] else [Send_Request req]))"

text \<open>The states in which the client waits for an answer of the server to a request.\<close>

definition awaiting :: "ClientState set" where
  "awaiting = {PROCESSING, UPLOAD_INIT, DOWNLOAD_INIT, SYNC_LISTING, TIERS_LISTING}"

definition listens :: "Client \<Rightarrow> Client \<Rightarrow> bool" where
  "listens c c' \<longleftrightarrow> cl_outbox c' = cl_outbox c \<and> te_reading_line c' \<and> cl_state c' = READY \<and> \<not> cl_batch_active c'"

definition speaks :: "'j client_env \<Rightarrow> Client \<Rightarrow> Client \<Rightarrow> bool" where
  "speaks E c c' \<longleftrightarrow> sends E c c' \<and> \<not> te_reading_line c' \<and> cl_state c' \<in> awaiting"

lemma send_json_fields [simp]:
  "cl_outbox (send_json E req c) = cl_outbox c @ (if oversize E req then [] else [Send_Request req])"
  "te_reading_line (send_json E req c) = te_reading_line c" "te_exiting (send_json E req c) = te_exiting c"
  "cl_state (send_json E req c) = cl_state c" "cl_batch_active (send_json E req c) = cl_batch_active c"
  "cl_advancing (send_json E req c) = cl_advancing c" "cl_advance_pending (send_json E req c) = cl_advance_pending c"
  "cl_current_op (send_json E req c) = cl_current_op c" "cl_batch_queue (send_json E req c) = cl_batch_queue c"
  "cl_manifest (send_json E req c) = cl_manifest c"
  by (simp_all add: send_json_def send_text_def Let_def print_def put_out_def oversize_def)

lemma settle_fields [simp]:
  "cl_outbox (settle_item E s c) = cl_outbox c" "te_reading_line (settle_item E s c) = te_reading_line c"
  "te_exiting (settle_item E s c) = te_exiting c" "cl_state (settle_item E s c) = cl_state c"
  "cl_current_op (settle_item E s c) = None"
  by (auto simp: batch_defs split: option.splits SyncOpType.splits)

text \<open>What the dispatch of one operation leaves: a request on its way, or an item that failed at once.\<close>

definition frame_of :: "Client \<Rightarrow> Client \<Rightarrow> bool" where
  "frame_of c c' \<longleftrightarrow> te_reading_line c' = te_reading_line c \<and> te_exiting c' = te_exiting c \<and>
     cl_batch_active c' = cl_batch_active c \<and> cl_advancing c' = cl_advancing c"

lemma finished_inside_turn:
  assumes "cl_batch_active c"
  shows "cl_advance_pending (finished_inside E s c)" "cl_outbox (finished_inside E s c) = cl_outbox c"
    "frame_of c (finished_inside E s c)"
  using assms by (simp_all add: finished_inside_def frame_of_def)

lemma print_fields [simp]:
  "cl_batch_active (print k m p c) = cl_batch_active c" "cl_outbox (print k m p c) = cl_outbox c" "cl_state (print k m p c) = cl_state c"
  "te_reading_line (print k m p c) = te_reading_line c" "te_exiting (print k m p c) = te_exiting c"
  "cl_advancing (print k m p c) = cl_advancing c" "cl_current_op (print k m p c) = cl_current_op c"
  "cl_batch_queue (print k m p c) = cl_batch_queue c" "cl_advance_pending (print k m p c) = cl_advance_pending c"
  "cl_manifest (print k m p c) = cl_manifest c"
  for c :: Client
  by (simp_all add: print_def put_out_def)

definition dispatched :: "'j client_env \<Rightarrow> Client \<Rightarrow> Client \<Rightarrow> bool" where
  "dispatched E c c' \<longleftrightarrow> frame_of c c' \<and>
     (if cl_advance_pending c' then cl_outbox c' = cl_outbox c else sends E c c' \<and> cl_state c' \<in> awaiting)"

lemma dispatched_request:
  assumes "frame_of c c1" and "cl_outbox c1 = cl_outbox c" and "cl_advance_pending c1 = False" and "st \<in> awaiting"
  shows "dispatched E c ((send_json E req c1)\<lparr>cl_state := st\<rparr>)"
  using assms by (auto simp: dispatched_def frame_of_def sends_def)

lemma dispatched_failure:
  assumes "cl_batch_active c" 
  shows "dispatched E c (finished_inside E False (print k m p c))"
  using assms finished_inside_turn [of "print k m p c" E False] by (simp add: dispatched_def frame_of_def)

lemma dispatch_op_turn:
  assumes "cl_batch_active c" and "\<not> cl_advance_pending c"
  shows "dispatched E c (dispatch_op E op c)"
  using assms
  by (cases "so_type op")
    (auto simp: dispatch_op_def do_upload_def do_download_def send_command_def do_mkdir_def do_rmdir_def do_delete_def
      do_move_def do_copy_def Let_def dispatched_failure awaiting_def frame_of_def intro!: dispatched_request)

lemma finish_batch_turn:
  assumes "\<not> te_exiting c"
  shows "listens c (finish_batch E c)" "\<not> te_exiting (finish_batch E c)" "cl_advancing (finish_batch E c) = cl_advancing c"
  using assms by (auto simp: finish_batch_def Let_def listens_def read_line_def put_out_def save_manifest_def split: option.splits)

lemma advance_loop_turn:
  assumes "cl_batch_active c" and "cl_advancing c" and "\<not> te_reading_line c" and "\<not> te_exiting c"
  shows "(listens c (advance_loop E c) \<or> speaks E c (advance_loop E c)) \<and> \<not> te_exiting (advance_loop E c) \<and> \<not> cl_advancing (advance_loop E c)"
  using assms
proof (induction E c rule: advance_loop.induct)
  case (1 E c)
  show ?case
  proof (cases "cl_batch_queue c")
    case Nil
    let ?c = "c\<lparr>cl_advance_pending := False, cl_advancing := False\<rparr>"
    have "listens ?c (finish_batch E ?c) \<Longrightarrow> listens c (finish_batch E ?c)" by (simp add: listens_def)
    then show ?thesis using Nil 1 finish_batch_turn [of ?c E] by (simp add: advance_loop.simps)
  next
    case (Cons op ops)
    let ?c = "c\<lparr>cl_advance_pending := False, cl_current_op := Some op, cl_batch_queue := ops\<rparr>" and ?c1 = "dispatch_op E op
      (c\<lparr>cl_advance_pending := False, cl_current_op := Some op, cl_batch_queue := ops\<rparr>)"
    have d: "dispatched E ?c ?c1" using 1 by (intro dispatch_op_turn) simp_all
    show ?thesis
    proof (cases "cl_advance_pending ?c1")
      case True
      then have "cl_outbox ?c1 = cl_outbox c" "frame_of ?c ?c1" using d by (simp_all add: dispatched_def)
      then show ?thesis using 1(1) [OF Cons refl True] True Cons "1.prems"
        by (simp add: advance_loop.simps [of E c] frame_of_def listens_def speaks_def sends_def)
    next
      case False
      then show ?thesis using d Cons "1.prems"
        by (auto simp: advance_loop.simps [of E c] dispatched_def frame_of_def speaks_def sends_def)
    qed
  qed
qed

definition quiet :: "Client \<Rightarrow> bool" where
  "quiet c \<longleftrightarrow> \<not> te_reading_line c \<and> \<not> te_exiting c \<and> \<not> cl_advancing c"

text \<open>The client is back at its prompt.\<close>

definition at_prompt :: "Client \<Rightarrow> bool" where
  "at_prompt c \<longleftrightarrow> cl_state c = READY \<and> te_reading_line c \<and> \<not> cl_batch_active c \<and> \<not> te_exiting c"

definition turn :: "'j client_env \<Rightarrow> Client \<Rightarrow> Client \<Rightarrow> bool" where
  "turn E c c' \<longleftrightarrow> (listens c c' \<or> speaks E c c') \<and> \<not> te_exiting c' \<and> \<not> cl_advancing c'"

text \<open>A turn depends on the state it starts from only through what had been sent.\<close>

lemma turn_from: "turn E c c' \<Longrightarrow> cl_outbox c = cl_outbox c0 \<Longrightarrow> turn E c0 c'"
  by (simp add: turn_def listens_def speaks_def sends_def)

lemma advance_turn: "quiet c \<Longrightarrow> cl_batch_active c \<Longrightarrow> turn E c (advance_batch_queue E c)"
  using advance_loop_turn [of "c\<lparr>cl_advancing := True\<rparr>" E]
  by (auto simp: advance_batch_queue_def quiet_def turn_def listens_def speaks_def sends_def)

lemma command_finished_turn: "quiet c \<Longrightarrow> cl_state c = READY \<Longrightarrow> turn E c (command_finished E s c)"
proof (cases "cl_batch_active c")
  case True
  assume "quiet c"
  then have "turn E (settle_item E s c) (advance_batch_queue E (settle_item E s c))"
    using True by (intro advance_turn) (simp_all add: quiet_def)
  then show ?thesis using True turn_from [of E "settle_item E s c" _ c] by (simp add: command_finished_def)
qed (auto simp: command_finished_def read_line_def turn_def listens_def quiet_def)

lemma refuse_turn: "quiet c \<Longrightarrow> cl_state c = READY \<Longrightarrow> \<not> cl_batch_active c \<Longrightarrow> turn E c (refuse k m c)"
  by (auto simp: refuse_def read_line_def turn_def listens_def quiet_def)

lemma request_turn:
  assumes "quiet c" and "st \<in> awaiting" and "quiet c1" and "cl_outbox c1 = cl_outbox c"
  shows "turn E c ((send_json E req c1)\<lparr>cl_state := st\<rparr>)"
  using assms by (auto simp: turn_def speaks_def sends_def quiet_def)

lemma batch_turn: "quiet c \<Longrightarrow> turn E c (advance_batch_queue E (begin_batch m l ops c))"
  by (rule turn_from [OF advance_turn]) (simp_all add: begin_batch_def quiet_def)

lemma awaiting_states [simp]:
  "PROCESSING \<in> awaiting" "UPLOAD_INIT \<in> awaiting" "DOWNLOAD_INIT \<in> awaiting" "SYNC_LISTING \<in> awaiting" "TIERS_LISTING \<in> awaiting"
  by (simp_all add: awaiting_def)

lemma transfer_turn:
  assumes "quiet c" and "cl_state c = READY"
  shows "turn E c (do_upload E (command_finished E) l r c)" "turn E c (do_download E (command_finished E) r l b c)"
proof -
  have "turn E c (command_finished E False (print k m p c))" for k m p
    using assms by (intro turn_from [OF command_finished_turn]) (simp_all add: quiet_def)
  moreover have "quiet (c\<lparr>cl_transfer := t\<rparr>)" "quiet (c\<lparr>cl_disk := d, cl_transfer := t\<rparr>)" for t d using assms by (simp_all add: quiet_def)
  ultimately show "turn E c (do_upload E (command_finished E) l r c)" "turn E c (do_download E (command_finished E) r l b c)"
    using assms by (simp_all add: do_upload_def do_download_def Let_def request_turn)
qed

lemmas command_defs = cmd_list_def cmd_upload_def cmd_download_def cmd_delete_def cmd_cd_def cmd_mkdir_def cmd_rmdir_def
  cmd_tiers_def cmd_set_tier_def batch_move_or_copy_def cmd_move_def cmd_copy_def cmd_sync_def cmd_upload_dir_def
  cmd_download_dir_def request_listing_def missing_path_def

lemma command_turn:
  assumes "quiet c" and "cl_state c = READY" and "\<not> cl_batch_active c"
  shows "turn E c (run_command E cmd args c)"
proof -
  note rules = refuse_turn [OF assms] transfer_turn [OF assms(1,2)] batch_turn [OF assms(1)] request_turn [OF assms(1)]
  have "turn E c (cmd_help E c)"
    using assms by (auto simp: cmd_help_def put_out_def read_line_def turn_def listens_def quiet_def)
  moreover have "turn E c (cmd_list E args c)" "turn E c (cmd_upload E args c)" "turn E c (cmd_download E args c)"
    "turn E c (cmd_cd E args c)" "turn E c (cmd_mkdir E args c)" "turn E c (cmd_rmdir E args c)" "turn E c (cmd_tiers E c)"
    "turn E c (cmd_set_tier E args c)"
    by (cases args; simp add: command_defs do_list_def do_mkdir_def do_rmdir_def do_set_tier_def send_command_def Let_def
        rules assms split: list.split)+
  moreover have "turn E c (cmd_delete E args c)"
    by (auto simp: command_defs do_delete_def send_command_def rules assms split: list.split)
  moreover have "turn E c (cmd_move E args c)" "turn E c (cmd_copy E args c)"
    by (simp_all add: command_defs do_move_def do_copy_def send_command_def Let_def rules assms)
  moreover have "turn E c (cmd_sync E args c)" "turn E c (cmd_upload_dir E args c)" "turn E c (cmd_download_dir E args c)"
    using assms(1) by (auto simp: command_defs Let_def rules assms quiet_def split: list.split option.split intro!: request_turn)
  ultimately show ?thesis unfolding run_command_def by (simp add: refuse_turn [OF assms])
qed

lemma listing_turn:
  assumes "quiet c" and "cl_state c = READY" and "\<not> cl_batch_active c"
  shows "turn E c (handle_sync_listing E res c)"
proof -
  have "turn E c (download_dir_batch E t c)" for t
    unfolding download_dir_batch_def Let_def by (rule turn_from [OF batch_turn]) (use assms in \<open>simp_all add: quiet_def\<close>)
  moreover have "turn E c (sync_batch E t c)" for t
  proof (cases "scan_local_tree E (cl_disk c) (cl_sync_local_dir c)")
    case None
    then show ?thesis using assms by (simp add: sync_batch_def read_line_def turn_def listens_def quiet_def)
  next
    case (Some local)
    have local_work: "quiet (delete_locally ps x) = quiet x \<and> cl_outbox (delete_locally ps x) = cl_outbox x \<and>
        cl_batch_active (delete_locally ps x) = cl_batch_active x" for ps and x :: Client
      unfolding delete_locally_def
      by (induction ps arbitrary: x) (simp_all add: quiet_def split: prod.split bool.split)
    have mk: "quiet (make_dirs_locally ps x) = quiet x \<and> cl_outbox (make_dirs_locally ps x) = cl_outbox x \<and>
        cl_batch_active (make_dirs_locally ps x) = cl_batch_active x" for ps and x :: Client
      unfolding make_dirs_locally_def by (induction ps arbitrary: x) (simp_all add: quiet_def)
    have "quiet (begin_batch m l ops (c\<lparr>cl_disk := d, cl_manifest := mf\<rparr>))" for m l ops d mf
      using assms by (simp add: quiet_def begin_batch_def)
    then show ?thesis using Some assms local_work mk unfolding sync_batch_def
      by (auto simp: Let_def split_beta intro!: turn_from [OF advance_turn])
        (auto simp: quiet_def save_manifest_def begin_batch_def)
  qed
  ultimately show ?thesis by (simp add: handle_sync_listing_def)
qed


definition demo_client_env :: "jval client_env" where
  "demo_client_env = \<lparr>env_sodium = sodium_ref, env_json = json_blank, env_now = 0, env_salt = 0,
     env_clock = (\<lambda>_. \<lparr>tm_year = 126, tm_mon = 0, tm_mday = 1, tm_hour = 0, tm_min = 0, tm_sec = 0\<rparr>), env_help = []\<rparr>"

definition demo_client :: Client where
  "demo_client =
     \<lparr>te_exiting = False, te_reading_line = False, te_is_tty = False, te_noecho = False, te_masked = False,
      te_current_prompt = PROMPT, te_line_buffer = [], te_cursor = 0, te_history = [], te_history_pos = 0,
      te_history_saved = [], te_esc_state = EscState.NONE, te_csi_params = [], te_stdout = [],
      cl_username = ''ann'', cl_state = READY, cl_socket_open = True, cl_stopped = False,
      cl_transfer = no_transfer, cl_root = Rel [], cl_partmeta = \<lparr>pm_metadata_file = Abs [''m''], pm_entries = [], pm_next_id = 1, pm_free_ids = []\<rparr>,
      cl_disk = disk_of [([], Dir), ([''f''], File [1, 2])],
      cl_batch_queue = [], cl_batch_active = False, cl_advancing = False, cl_advance_pending = False,
      cl_batch_mode = NONE, cl_batch_label = [], cl_current_op = None, cl_manifest = None,
      cl_sync_local_dir = Rel [], cl_sync_remote_dir = [], cl_uploaded = 0, cl_downloaded = 0, cl_deleted = 0,
      cl_moved = 0, cl_copied = 0, cl_dirs = 0, cl_skipped = 0, cl_failed = 0, cl_conflicts = [],
      cl_outbox = [], cl_posted = [], cl_log = []\<rparr>"


theorem password_is_not_logged_witness:
  "cl_log (client_auth (demo_client_env\<lparr>env_json := json_ref\<rparr>) ''one'' demo_client) =
   cl_log (client_auth (demo_client_env\<lparr>env_json := json_ref\<rparr>) ''two'' demo_client)"
  using password_is_not_logged [of "demo_client_env\<lparr>env_json := json_ref\<rparr>"] by (simp add: json_ref_laws)

section \<open>Accounting of a batch\<close>

definition counted :: "Client \<Rightarrow> nat" where
  "counted c = cl_uploaded c + cl_downloaded c + cl_deleted c + cl_moved c + cl_copied c + cl_dirs c + cl_failed c"

definition open_items :: "Client \<Rightarrow> nat" where
  "open_items c = length (cl_batch_queue c) + (if cl_current_op c = None then 0 else 1)"

lemma counted_fields [simp]:
  "counted (send_json E req c) = counted c" "counted (print k m p c) = counted c" "counted (c\<lparr>cl_state := st\<rparr>) = counted c"
  "counted (c\<lparr>cl_transfer := t\<rparr>) = counted c" "counted (c\<lparr>cl_disk := d\<rparr>) = counted c" "counted (c\<lparr>cl_advance_pending := b\<rparr>) = counted c"
  "counted (c\<lparr>cl_current_op := op\<rparr>) = counted c" "counted (c\<lparr>cl_batch_queue := q\<rparr>) = counted c" "counted (c\<lparr>cl_advancing := b\<rparr>) = counted c"
  "counted (c\<lparr>cl_manifest := mf\<rparr>) = counted c"
  by (simp_all add: counted_def send_json_def send_text_def print_def put_out_def Let_def)

lemma counted_count: "counted (count_op t c) = counted c + 1"
  by (cases t) (simp_all add: count_op_def counted_def)

lemma counted_settle:
  assumes "cl_current_op c = Some op"
  shows "counted (settle_item E s c) + (if \<not> s \<and> so_type op = MKDIR_REMOTE then 1 else 0) = counted c + 1"
proof -
  have "counted (c\<lparr>cl_failed := cl_failed c + 1\<rparr>) = counted c + 1" by (simp add: counted_def)
  then show ?thesis using assms counted_count
    by (cases "cl_manifest c") (auto simp: settle_item_def record_op_result_def save_manifest_def)
qed

lemma dispatch_accounts:
  assumes "cl_batch_active c" and "cl_current_op c = Some op" and "\<not> cl_advance_pending c"
  shows "if cl_advance_pending (dispatch_op E op c) then counted (dispatch_op E op c) = counted c + 1 \<and> cl_current_op (dispatch_op E op c) = None
     else counted (dispatch_op E op c) = counted c \<and> cl_current_op (dispatch_op E op c) = Some op"
proof -
  have fail: "cl_advance_pending (finished_inside E False (print k m p c)) \<and>
      counted (finished_inside E False (print k m p c)) = counted c + 1 \<and> cl_current_op (finished_inside E False (print k m p c)) = None"
    if "so_type op \<noteq> MKDIR_REMOTE" for k m p
    using counted_settle [of "print k m p c" op E False] assms that by (simp add: finished_inside_def)
  then show ?thesis using assms
    by (cases "so_type op") (auto simp: dispatch_op_def do_upload_def do_download_def send_command_def do_mkdir_def do_rmdir_def
        do_delete_def do_move_def do_copy_def Let_def)
qed

lemma finish_accounts: "counted (finish_batch E c) = counted c" "open_items (finish_batch E c) = 0" "cl_batch_queue (finish_batch E c) = []"
  "\<not> cl_batch_active (finish_batch E c)"
  by (auto simp: finish_batch_def Let_def read_line_def counted_def open_items_def print_def put_out_def save_manifest_def split: option.splits)

lemma loop_accounts:
  assumes "cl_batch_active c" and "cl_current_op c = None"
  shows "counted (advance_loop E c) + open_items (advance_loop E c) = counted c + length (cl_batch_queue c) \<and>
    (\<exists>n. cl_batch_queue (advance_loop E c) = drop n (cl_batch_queue c)) \<and>
    (\<not> cl_batch_active (advance_loop E c) \<longrightarrow> open_items (advance_loop E c) = 0)"
  using assms
proof (induction E c rule: advance_loop.induct)
  case (1 E c)
  show ?case
  proof (cases "cl_batch_queue c")
    case Nil
    then show ?thesis by (simp add: advance_loop.simps finish_accounts)
  next
    case (Cons op ops)
    let ?c = "c\<lparr>cl_advance_pending := False, cl_current_op := Some op, cl_batch_queue := ops\<rparr>"
    let ?d = "dispatch_op E op ?c"
    have d: "if cl_advance_pending ?d then counted ?d = counted c + 1 \<and> cl_current_op ?d = None
        else counted ?d = counted c \<and> cl_current_op ?d = Some op" "frame_of ?c ?d"
      using dispatch_accounts [of ?c op E] dispatch_op_turn [of ?c E op] "1.prems" by (simp_all add: dispatched_def)
    have n: "\<exists>m. drop n ops = drop m (cl_batch_queue c)" for n using Cons by (metis drop_Suc_Cons)
    show ?thesis
    proof (cases "cl_advance_pending ?d")
      case True
      then show ?thesis using 1(1) [OF Cons refl True] d n Cons "1.prems"
        by (auto simp: advance_loop.simps [of E c] frame_of_def)
    next
      case False
      then show ?thesis using d n [of 0] Cons "1.prems"
        by (auto simp: advance_loop.simps [of E c] open_items_def frame_of_def)
    qed
  qed
qed



end
