(* ===== verification/Fetching.thy ===== *)
theory Fetching
  imports FileOps ClientLaws
begin

text \<open>
  The client as the receiver of a file: the command, the answer with the chunk plan, every chunk, and
  the file in its place with the prompt back.
\<close>

section \<open>The command\<close>

text \<open>The local name of \<^verbatim>\<open>cmd_download\<close>: the second argument, or the remote file name in the working directory.\<close>

definition download_place :: "Client \<Rightarrow> string \<Rightarrow> string list \<Rightarrow> fpath" where
  "download_place c r rest =
     (case rest of [] \<Rightarrow> sub (Abs (cwd (cl_disk c))) (filename (path_of_string r)) | l # _ \<Rightarrow> path_of_string l)"

definition can_fetch :: "Client \<Rightarrow> apath \<Rightarrow> apath \<Rightarrow> string \<Rightarrow> string list \<Rightarrow> u32 \<Rightarrow> bool" where
  "can_fetch c M dst r rest i \<longleftrightarrow> \<not> cl_batch_active c \<and> \<not> te_exiting c \<and> download_place c r rest = Abs dst \<and>
     room (cl_disk c) M dst i \<and> lookup (cl_disk c) (part_of M i) = None \<and> spells (cwd (cl_disk c)) (pm_metadata_file (cl_partmeta c)) M \<and>
     map_of (pm_entries (cl_partmeta c)) i = None \<and> i \<noteq> UINT32_MAX"

text \<open>The client has asked for the file, and then knows its chunks but not yet the id of the transfer.\<close>

definition asked :: "Client \<Rightarrow> apath \<Rightarrow> Client \<Rightarrow> bool" where
  "asked c0 dst c \<longleftrightarrow> cl_state c = ClientState.DOWNLOAD_INIT \<and> \<not> cl_batch_active c \<and> \<not> te_exiting c \<and>
     fm_absolute_path (at_fmeta (cl_transfer c)) = Abs dst \<and> cl_disk c = cl_disk c0 \<and> cl_partmeta c = cl_partmeta c0"

definition fetching :: "sodium \<Rightarrow> apath \<Rightarrow> bytes \<Rightarrow> Client \<Rightarrow> bool" where
  "fetching S dst x c \<longleftrightarrow> cl_state c = ClientState.DOWNLOADING \<and> \<not> cl_batch_active c \<and> \<not> te_exiting c \<and>
     fm_absolute_path (at_fmeta (cl_transfer c)) = Abs dst \<and> fm_hash (at_fmeta (cl_transfer c)) = hash_chunk S x \<and>
     at_chunks (cl_transfer c) = plan S x \<and> length (at_chunk_state (cl_transfer c)) = chunks_of x"

definition unnamed :: "Client \<Rightarrow> Client \<Rightarrow> bool" where
  "unnamed c0 c \<longleftrightarrow> at_transfer_id (cl_transfer c) = UINT32_MAX \<and> cl_disk c = cl_disk c0 \<and> cl_partmeta c = cl_partmeta c0"

definition gathered :: "Client \<Rightarrow> apath \<Rightarrow> bytes \<Rightarrow> u32 \<Rightarrow> nat \<Rightarrow> Client \<Rightarrow> bool" where
  "gathered c0 M x i k c \<longleftrightarrow> at_transfer_id (cl_transfer c) = i \<and> at_partial_path (cl_transfer c) = Abs (part_of M i) \<and>
     spells (cwd (cl_disk c0)) (pm_metadata_file (cl_partmeta c)) M \<and>
     (\<exists>e. map_of (pm_entries (cl_partmeta c)) i = Some e \<and> length (pe_chunk_state e) = chunks_of x) \<and>
     part_filled (cl_disk c0) M x i k (cl_disk c)"

lemma ask_download:
  assumes c: "can_fetch c0 M dst r rest i" and o: "\<not> oversize E (download_request r)"
  shows "cl_outbox (cmd_download E (r # rest) c0) = cl_outbox c0 @ [Send_Request (download_request r)]"
    and "asked c0 dst (cmd_download E (r # rest) c0)"
proof -
  have p: "download_place c0 r rest = Abs dst" and b: "\<not> cl_batch_active c0" "\<not> te_exiting c0"
    and d: "wf_disk (cl_disk c0)" "free_place (cl_disk c0) dst"
    using c by (simp_all add: can_fetch_def room_def)
  have q: "plain_request ''DOWNLOAD'' r [] = download_request r" by (simp add: plain_request_def download_request_def)
  have e: "\<not> exists (cl_disk c0) (Abs dst)" using free_place_absent(1) [OF d] by (simp add: exists_def)
  have m: "snd (snd (fs_create_directories (cl_disk c0) (parent_path (Abs dst)))) = cl_disk c0" by (simp add: parents_there [OF d])
  have up: "cmd_download E (r # rest) c0 = (send_json E (download_request r)
      (c0\<lparr>cl_transfer := (cl_transfer c0)\<lparr>at_fmeta := no_metadata\<lparr>fm_absolute_path := Abs dst\<rparr>\<rparr>\<rparr>))\<lparr>cl_state := ClientState.DOWNLOAD_INIT\<rparr>"
    using p e m by (simp add: cmd_download_def download_place_def do_download_def Let_def q)
  show "cl_outbox (cmd_download E (r # rest) c0) = cl_outbox c0 @ [Send_Request (download_request r)]" using o by (simp add: up)
  show "asked c0 dst (cmd_download E (r # rest) c0)"
    using b o by (simp add: up asked_def send_json_def send_text_def Let_def oversize_def)
qed

section \<open>The answer\<close>

lemma plan_total: "length x < 4294967296 \<Longrightarrow> sum_list (map (\<lambda>ci. ucast (ci_size ci)) (plan S x)) = (of_nat (length x) :: u64)"
proof -
  have "ucast (of_nat (length (slice x k)) :: u32) = (of_nat (length (slice x k)) :: u64)" for k
    by (simp add: unsigned_of_nat take_bit_nat_eq_self slice_def)
  then have "sum_list (map (\<lambda>ci. ucast (ci_size ci)) (plan S x)) = (sum_list (map (of_nat \<circ> length) (slices x)) :: u64)"
    by (simp add: plan_nth slices_nth plan_entry_def o_def)
  also have "\<dots> = of_nat (sum_list (map length (slices x)))"
  proof -
    have "sum_list (map (of_nat \<circ> length) ss) = (of_nat (sum_list (map length ss)) :: u64)" for ss :: "bytes list" by (induction ss) auto
    then show ?thesis .
  qed
  also have "sum_list (map length (slices x)) = length x" by (simp add: length_concat [symmetric])
  finally show ?thesis .
qed

lemma plan_arrives:
  assumes a: "asked c0 dst c" and J: "json_laws (env_json E)" and S: "hash_width (env_sodium E)" "hex_laws (env_sodium E)"
    and lt: "length x < 4294967296"
  shows "\<exists>c'. handle_response E (response_to_json (env_json E) ((response ''OK'' code_OK msg (hash_to_hex (env_sodium E) (hash_chunk (env_sodium E) x)))
      \<lparr>res_chunks := plan (env_sodium E) x\<rparr>)) c = Some c' \<and>
    fetching (env_sodium E) dst x c' \<and> unnamed c0 c' \<and> cl_outbox c' = cl_outbox c"
proof -
  define res where "res = (response ''OK'' code_OK msg (hash_to_hex (env_sodium E) (hash_chunk (env_sodium E) x)))\<lparr>res_chunks := plan (env_sodium E) x\<rparr>"
  have res: "res_status res = ''OK''" "res_code res = code_OK" "res_message res = msg" "res_chunks res = plan (env_sodium E) x"
    "hex_to_hash (env_sodium E) (res_file_hash res) = hash_chunk (env_sodium E) x"
    using digest_hex [OF S] by (simp_all add: res_def response_def)
  define c1 where "c1 = print code_OK msg True (c\<lparr>cl_log := cl_log c @ [Incoming (jdump (env_json E) (response_to_json (env_json E) res))]\<rparr>)"
  have h: "handle_response E (response_to_json (env_json E) res) c = client_download_init E (plan (env_sodium E) x) (res_file_hash res) c1"
    using a res by (simp add: handle_response_def response_roundtrip [OF J] respond_def Let_def c1_def handle_ok_def asked_def print_def put_out_def)
  have f: "asked c0 dst c1" "cl_outbox c1 = cl_outbox c" using a by (simp_all add: c1_def asked_def print_def put_out_def)
  have "unat (of_nat (length x) :: u64) = length x" using lt by (simp add: unat_of_nat)
  then have sz: "\<not> (of_nat (length x) :: u64) > ucast UINT32_MAX" using lt by (simp add: not_less word_le_nat_alt)
  define c2 where "c2 = c1\<lparr>cl_transfer := (cl_transfer c1)\<lparr>at_transfer_id := UINT32_MAX,
      at_fmeta := (at_fmeta (cl_transfer c1))\<lparr>fm_size := ucast (of_nat (length x) :: u64), fm_hash := hash_chunk (env_sodium E) x\<rparr>,
      at_chunks := plan (env_sodium E) x, at_chunk_state := replicate (chunks_of x) False\<rparr>, cl_state := ClientState.DOWNLOADING\<rparr>"
  have "client_download_init E (plan (env_sodium E) x) (res_file_hash res) c1 = Some c2"
    using sz res(5) by (simp add: client_download_init_def plan_total [OF lt] c2_def)
  moreover have "fetching (env_sodium E) dst x c2" "unnamed c0 c2" "cl_outbox c2 = cl_outbox c"
    using f by (simp_all add: c2_def fetching_def unnamed_def asked_def marks_def)
  ultimately show ?thesis using h by (simp add: res_def)
qed

section \<open>Every chunk\<close>

lemma adopt_first:
  assumes c: "can_fetch c0 M dst r rest i" and f: "fetching S dst x c" and u: "unnamed c0 c"
  shows "\<exists>c1. adopt_id E i c = Some c1 \<and> fetching S dst x c1 \<and> gathered c0 M x i 0 c1 \<and> cl_outbox c1 = cl_outbox c"
proof -
  have s: "spells (cwd (cl_disk c0)) (pm_metadata_file (cl_partmeta c0)) M" "map_of (pm_entries (cl_partmeta c0)) i = None" "i \<noteq> UINT32_MAX"
    and rm: "room (cl_disk c0) M dst i" "lookup (cl_disk c0) (part_of M i) = None" "wf_disk (cl_disk c0)" "list_all plain_name (cwd (cl_disk c0))"
    using c by (simp_all add: can_fetch_def room_def)
  have uc: "at_transfer_id (cl_transfer c) = UINT32_MAX" "cl_disk c = cl_disk c0" "cl_partmeta c = cl_partmeta c0" using u by (simp_all add: unnamed_def)
  obtain pm e where ad: "add_partial_metadata (env_now E) (cl_partmeta c0) TransferType.DOWNLOAD (at_fmeta (cl_transfer c)) (plan S x) i = (i, pm)"
    "pm_metadata_file pm = pm_metadata_file (cl_partmeta c0)" "map_of (pm_entries pm) i = Some e" "length (pe_chunk_state e) = chunks_of x"
    using added_entry [OF s(2), of i "env_now E" TransferType.DOWNLOAD "at_fmeta (cl_transfer c)" "plan S x"] s(3) by auto
  have pp: "get_partial_path (cl_disk c0) pm i = Abs (part_of M i)"
    using partial_path_is [OF rm(3,4), of pm M i] s(1) ad(2,3) by simp
  obtain d where d: "create_empty_file (cl_disk c0) (Abs (part_of M i)) = (True, d)" "part_filled (cl_disk c0) M x i 0 d"
    using part_created(1) [OF rm(1,2), of x] by blast
  define c1 where "c1 = c\<lparr>cl_partmeta := pm, cl_transfer := (cl_transfer c)\<lparr>at_transfer_id := i, at_partial_path := Abs (part_of M i)\<rparr>, cl_disk := d\<rparr>"
  have "adopt_id E i c = Some c1"
    using f uc ad(1) pp d(1) part_created(2) [OF rm(1,2)]
    by (simp add: adopt_id_def download_prepare_partmeta_def set_id_def Let_def fetching_def path_empty_def c1_def)
  moreover have "fetching S dst x c1" "gathered c0 M x i 0 c1" "cl_outbox c1 = cl_outbox c"
    using f s(1) ad d(2) by (simp_all add: fetching_def gathered_def c1_def)
  ultimately show ?thesis by blast
qed

lemma fetch_valid:
  assumes "fetching (env_sodium E) dst x c" and k: "k < chunks_of x" and lt: "length x < 4294967296"
    and S: "hash_width (env_sodium E)" "hex_laws (env_sodium E)" and ne: "\<forall>s\<in>set (slices x). \<not> is_hash_error (hash_chunk (env_sodium E) s)"
  shows "client_valid_chunk E c (of_nat k) (of_nat (length (slice x k))) (slice x k) = Some True"
proof -
  have "slice x k \<in> set (slices x)" using k by (auto simp: slices_nth chunks_of_def)
  then show ?thesis
    using assms(1) k ne unat_index [OF k lt] digest_hex [OF S]
    by (simp add: client_valid_chunk_def Let_def fetching_def plan_at plan_entry_def)
qed

lemma fetch_written:
  assumes s: "fetching (env_sodium E) dst x c" and f: "gathered c0 M x i k c" and k: "k < chunks_of x" and lt: "length x < 4294967296"
    and fl: "fl = flag_DONE \<longrightarrow> Suc k = chunks_of x \<and> hash_multipart (env_sodium E) \<and> \<not> is_hash_error (hash_chunk (env_sodium E) x)"
  shows "\<exists>c1. client_downloading E (of_nat k) sz (slice x k) fl c = (if fl = flag_DONE then client_download_done E c1 else Some c1) \<and>
    fetching (env_sodium E) dst x c1 \<and> gathered c0 M x i (Suc k) c1 \<and> cl_outbox c1 = cl_outbox c @
      [Send_Chunk \<lparr>ch_transfer_id = i, ch_index = of_nat k, ch_size = 0, ch_flags = fl\<rparr> []]"
proof -
  have ix: "unat (of_nat k :: u32) = k" by (rule unat_index [OF k lt])
  obtain e where pm: "map_of (pm_entries (cl_partmeta c)) i = Some e" "length (pe_chunk_state e) = chunks_of x"
      "spells (cwd (cl_disk c0)) (pm_metadata_file (cl_partmeta c)) M"
    using f by (auto simp: gathered_def)
  obtain pm' e' where mk: "mark_chunk_received (env_now E) (cl_partmeta c) i (of_nat k) = Some pm'" "pm_metadata_file pm' = pm_metadata_file (cl_partmeta c)"
      "map_of (pm_entries pm') i = Some e'" "length (pe_chunk_state e') = chunks_of x"
    using mark_received_entry [OF pm(1), of "of_nat k" "env_now E"] ix k pm(2) by auto
  have pf: "part_filled (cl_disk c0) M x i k (cl_disk c)" using f by (simp add: gathered_def)
  obtain d' where wr: "write_chunk (cl_disk c) (Abs (part_of M i)) (CHUNK_SIZE * of_nat k) (slice x k) = (True, d')"
    and pf': "part_filled (cl_disk c0) M x i (Suc k) d'"
    using part_written [OF pf k lt] by blast
  define t where "t = (cl_transfer c)\<lparr>at_chunk_state := (at_chunk_state (cl_transfer c))[k := True]\<rparr>"
  define c2 where "c2 = c\<lparr>cl_transfer := t, cl_partmeta := pm', cl_disk := d'\<rparr>"
  have ok: "client_valid_file E c2 (Abs (part_of M i)) (hash_chunk (env_sodium E) x)" if "fl = flag_DONE"
  proof -
    have "length x \<le> Suc k * 262144" using that fl chunk_in [of "Suc k" x] by auto
    then show ?thesis using that fl part_hash [OF pf'] by (simp add: client_valid_file_def c2_def Let_def)
  qed
  define c1 where "c1 = client_send_chunk \<lparr>ch_transfer_id = i, ch_index = of_nat k, ch_size = 0, ch_flags = fl\<rparr> [] c2"
  have mv: "client_mark E i (of_nat k) (c\<lparr>cl_transfer := t\<rparr>) = Some (c\<lparr>cl_transfer := t, cl_partmeta := pm'\<rparr>)"
    using mk(1) by (simp add: client_mark_def)
  have tt: "at_transfer_id (cl_transfer c) = i" "at_partial_path (cl_transfer c) = Abs (part_of M i)" "fm_hash (at_fmeta (cl_transfer c)) = hash_chunk (env_sodium E) x"
      "length (at_chunk_state (cl_transfer c)) = chunks_of x"
    using s f by (simp_all add: fetching_def gathered_def)
  have "client_downloading E (of_nat k) sz (slice x k) fl c = (if fl = flag_DONE then client_download_done E c1 else Some c1)"
    using k ok wr mv tt
    by (simp add: client_downloading_def Let_def ix flip: t_def) (simp add: c1_def c2_def t_def)
  moreover have "fetching (env_sodium E) dst x c1" using s by (simp add: fetching_def c1_def c2_def t_def client_send_chunk_def)
  moreover have "gathered c0 M x i (Suc k) c1"
    using f mk pm(3) pf' by (simp add: gathered_def c1_def c2_def t_def client_send_chunk_def)
  moreover have "cl_outbox c1 = cl_outbox c @ [Send_Chunk \<lparr>ch_transfer_id = i, ch_index = of_nat k, ch_size = 0, ch_flags = fl\<rparr> []]"
    by (simp add: c1_def c2_def client_send_chunk_def)
  ultimately show ?thesis by blast
qed

section \<open>The end\<close>

text \<open>What the client needs for the chunks alone.\<close>

definition may_fetch :: "Client \<Rightarrow> apath \<Rightarrow> apath \<Rightarrow> u32 \<Rightarrow> bool" where
  "may_fetch c0 M dst i \<longleftrightarrow> room (cl_disk c0) M dst i \<and> i \<noteq> UINT32_MAX"

definition fetched :: "Client \<Rightarrow> apath \<Rightarrow> apath \<Rightarrow> bytes \<Rightarrow> u32 \<Rightarrow> Client \<Rightarrow> bool" where
  "fetched c0 M dst x i c \<longleftrightarrow> at_prompt c \<and> lookup (cl_disk c) dst = Some (File x) \<and> lookup (cl_disk c) (part_of M i) = None \<and>
     (\<forall>p. p \<notin> {dst, M, tmp_of M, part_of M i} \<longrightarrow> lookup (cl_disk c) p = lookup (cl_disk c0) p)"

text \<open>The client takes chunk \<^verbatim>\<open>k\<close> next: the transfer has its partial file, or gets it with this chunk.\<close>

definition fetch_ready :: "'j client_env \<Rightarrow> Client \<Rightarrow> apath \<Rightarrow> apath \<Rightarrow> bytes \<Rightarrow> u32 \<Rightarrow> nat \<Rightarrow> Client \<Rightarrow> bool" where
  "fetch_ready E c0 M dst x i k c \<longleftrightarrow> fetching (env_sodium E) dst x c \<and>
     (\<exists>c1. adopt_id E i c = Some c1 \<and> fetching (env_sodium E) dst x c1 \<and> gathered c0 M x i k c1 \<and> cl_outbox c1 = cl_outbox c)"

lemma fetch_gathered:
  assumes "may_fetch c0 M dst i" and "fetching (env_sodium E) dst x c" and "gathered c0 M x i k c"
  shows "fetch_ready E c0 M dst x i k c"
  using assms by (simp add: fetch_ready_def adopt_id_def gathered_def may_fetch_def)

lemma fetch_first:
  assumes "can_fetch c0 M dst r rest i" and "fetching (env_sodium E) dst x c" and "unnamed c0 c"
  shows "fetch_ready E c0 M dst x i 0 c"
  using adopt_first [OF assms, of E] assms(2) by (auto simp: fetch_ready_def)

lemma finish_download:
  assumes c: "may_fetch c0 M dst i" and s: "fetching S dst x c" and f: "gathered c0 M x i k c"
    and all: "length x \<le> k * 262144"
  shows "\<exists>c1. client_download_done E c = Some c1 \<and> fetched c0 M dst x i c1 \<and> cl_outbox c1 = cl_outbox c"
proof -
  have c': "room (cl_disk c0) M dst i" using c by (simp add: may_fetch_def)
  have pm: "spells (cwd (cl_disk c0)) (pm_metadata_file (cl_partmeta c)) M" and pf: "part_filled (cl_disk c0) M x i k (cl_disk c)"
    using f by (simp_all add: gathered_def)
  obtain d1 d2 pm' where d: "move_path (cl_disk c) (Abs (part_of M i)) (Abs dst) True = (True, d1)"
      "delete_partial_metadata (env_sodium E) (env_json E) d1 (cl_partmeta c) i = (True, d2, pm')" "lookup d2 dst = Some (File x)"
      "lookup d2 (part_of M i) = None" "\<forall>p. p \<notin> {dst, M, tmp_of M, part_of M i} \<longrightarrow> lookup d2 p = lookup (cl_disk c0) p"
    using part_kept [OF c' pf all pm, of "env_sodium E" "env_json E"] by blast
  have tt: "at_transfer_id (cl_transfer c) = i" "at_partial_path (cl_transfer c) = Abs (part_of M i)" "fm_absolute_path (at_fmeta (cl_transfer c)) = Abs dst"
      "\<not> cl_batch_active c" "\<not> te_exiting c"
    using s f by (simp_all add: fetching_def gathered_def)
  show ?thesis
    using d tt by (simp add: client_download_done_def Let_def drop_transfer_def client_delete_def reset_transfer_def command_finished_def read_line_def
        print_def put_out_def fetched_def at_prompt_def)
qed

lemma fetch_next:
  assumes c: "may_fetch c0 M dst i" and r: "fetch_ready E c0 M dst x i k c" and k: "k < chunks_of x" and lt: "length x < 4294967296"
    and S: "hash_width (env_sodium E)" "hex_laws (env_sodium E)" "hash_multipart (env_sodium E)" "\<not> is_hash_error (hash_chunk (env_sodium E) x)"
      "\<forall>s\<in>set (slices x). \<not> is_hash_error (hash_chunk (env_sodium E) s)"
  shows "\<exists>c'. client_handle_chunk E (data_header i x k) (slice x k) c = Some c' \<and>
    (if Suc k = chunks_of x then fetched c0 M dst x i c' else fetch_ready E c0 M dst x i (Suc k) c') \<and>
    cl_outbox c' = cl_outbox c @ [Send_Chunk (ack_header i x k) []]"
proof -
  obtain c1 where s: "fetching (env_sodium E) dst x c" and c1: "adopt_id E i c = Some c1" "fetching (env_sodium E) dst x c1"
      "gathered c0 M x i k c1" "cl_outbox c1 = cl_outbox c"
    using r by (auto simp: fetch_ready_def)
  define fl where "fl = (if Suc k = chunks_of x then flag_DONE else flag_OK)"
  have ack: "\<lparr>ch_transfer_id = i, ch_index = of_nat k, ch_size = 0, ch_flags = fl\<rparr> = ack_header i x k"
    by (simp add: ack_header_def fl_def)
  have fl: "fl = flag_DONE \<longleftrightarrow> Suc k = chunks_of x" by (simp add: fl_def)
  then have "fl = flag_DONE \<longrightarrow> Suc k = chunks_of x \<and> hash_multipart (env_sodium E) \<and> \<not> is_hash_error (hash_chunk (env_sodium E) x)"
    using S by simp
  from fetch_written [OF c1(2,3) k lt this, of "of_nat (length (slice x k))"]
  obtain c2 where c2: "client_downloading E (of_nat k) (of_nat (length (slice x k))) (slice x k) fl c1 = (if fl = flag_DONE then client_download_done E c2 else Some c2)"
      "fetching (env_sodium E) dst x c2" "gathered c0 M x i (Suc k) c2" "cl_outbox c2 = cl_outbox c @ [Send_Chunk (ack_header i x k) []]"
    unfolding ack c1(4) by blast
  have "client_handle_chunk E (data_header i x k) (slice x k) c = receive_chunk E (data_header i x k) (slice x k) fl c"
    using s by (simp add: client_handle_chunk_def Let_def data_header_def fetching_def fl_def)
  also have "\<dots> = client_downloading E (of_nat k) (of_nat (length (slice x k))) (slice x k) fl c1"
    using fetch_valid [OF s k lt S(1,2,5)] c1(1) by (simp add: receive_chunk_def data_header_def)
  finally have st: "client_handle_chunk E (data_header i x k) (slice x k) c = (if Suc k = chunks_of x then client_download_done E c2 else Some c2)"
    using c2(1) unfolding fl by (rule trans)
  show ?thesis
  proof (cases "Suc k = chunks_of x")
    case True
    then have "length x \<le> Suc k * 262144" using chunk_in [of "Suc k" x] by auto
    from finish_download [OF c c2(2,3) this, of E] obtain c3
      where "client_download_done E c2 = Some c3" "fetched c0 M dst x i c3" "cl_outbox c3 = cl_outbox c2" by blast
    then show ?thesis using st c2(4) True by simp
  qed (use st c2 fetch_gathered [OF c c2(2,3)] in simp)
qed

end
