(* ===== verification/Sender.thy ===== *)
theory Sender
  imports FileOps ClientLaws
begin

text \<open>
  The client as the sender of a file: what it says and which chunks it sends, message by message.
\<close>

section \<open>The sending side\<close>

text \<open>The sender while it sends: \<^verbatim>\<open>k\<close> chunks are acknowledged.\<close>

definition sending :: "sodium \<Rightarrow> Client \<Rightarrow> apath \<Rightarrow> bytes \<Rightarrow> u32 \<Rightarrow> nat \<Rightarrow> Client \<Rightarrow> bool" where
  "sending S c0 q x i k c \<longleftrightarrow> cl_state c = ClientState.UPLOADING \<and> \<not> cl_batch_active c \<and> \<not> te_exiting c \<and> cl_disk c = cl_disk c0 \<and>
     at_transfer_id (cl_transfer c) = i \<and> fm_absolute_path (at_fmeta (cl_transfer c)) = Abs q \<and>
     at_chunks (cl_transfer c) = plan S x \<and> at_chunk_state (cl_transfer c) = marks (chunks_of x) k \<and>
     pm_metadata_file (cl_partmeta c) = pm_metadata_file (cl_partmeta c0) \<and>
     (\<exists>e. map_of (pm_entries (cl_partmeta c)) i = Some e \<and> length (pe_chunk_state e) = chunks_of x)"

lemma send_next:
  assumes "sendable S (cl_disk c0) q x" and "sending S c0 q x i k c" and "k < chunks_of x"
  shows "client_uploading c = Some (client_send_chunk (data_header i x k) (slice x k) c)"
proof -
  let ?e = "plan_entry S k (slice x k)"
  have ix: "unat (of_nat k :: u32) = k" using unat_index [OF assms(3) sendable_length [OF assms(1)]] .
  have rd: "read_chunk (cl_disk c) (Abs q) (of_nat k * CHUNK_SIZE) (of_nat (length (slice x k))) = slice x k"
    using read_chunk_slice [OF sendable_status [OF assms(1)] sendable_length [OF assms(1)]] assms(2,3)
    by (simp add: sending_def chunk_in)
  have "slice x k \<noteq> []" using assms(3) by (intro slice_nonempty) (simp add: chunk_in)
  moreover have "k = chunks_of x - Suc 0 \<longleftrightarrow> Suc k = chunks_of x" using assms(3) by auto
  ultimately show ?thesis
    using assms(2,3) ix rd
    by (simp add: client_uploading_def Let_def sending_def first_pending_marks plan_at plan_entry_def data_header_def mult.commute)
qed

lemma ack_next:
  assumes s: "sendable S (cl_disk c0) q x" and c: "sending S c0 q x i k c" and k: "Suc k < chunks_of x"
  shows "\<exists>c'. client_handle_chunk E (ack_header i x k) [] c = Some c' \<and> sending S c0 q x i (Suc k) c' \<and>
     cl_outbox c' = cl_outbox c @ [Send_Chunk (data_header i x (Suc k)) (slice x (Suc k))]"
proof -
  have k': "k < chunks_of x" using k by simp
  have ix: "unat (of_nat k :: u32) = k" using unat_index [OF k' sendable_length [OF s]] .
  define c1 where "c1 = c\<lparr>cl_transfer := (cl_transfer c)\<lparr>at_chunk_state := marks (chunks_of x) (Suc k)\<rparr>\<rparr>"
  have m: "mark_sent (of_nat k) c = Some c1"
    using c k' by (simp add: mark_sent_def Let_def ix sending_def c1_def marks_next)
  from c obtain e where e: "map_of (pm_entries (cl_partmeta c)) i = Some e" "length (pe_chunk_state e) = chunks_of x"
    by (auto simp: sending_def)
  then obtain pm' where pm: "mark_chunk_received (env_now E) (cl_partmeta c) i (of_nat k) = Some pm'"
    "pm_metadata_file pm' = pm_metadata_file (cl_partmeta c)"
    "\<exists>e'. map_of (pm_entries pm') i = Some e' \<and> length (pe_chunk_state e') = chunks_of x"
    using mark_received_entry [OF e(1), of "of_nat k" "env_now E"] ix k' by auto
  define c2 where "c2 = c1\<lparr>cl_partmeta := pm'\<rparr>"
  have s2: "sending S c0 q x i (Suc k) c2" using c pm(2,3) by (simp add: sending_def c2_def c1_def)
  have "client_mark E i (of_nat k) c1 = Some c2" using pm(1) by (simp add: client_mark_def c2_def c1_def)
  then have h: "client_handle_chunk E (ack_header i x k) [] c = client_uploading c2"
    using c m k by (simp add: client_handle_chunk_def Let_def ack_header_def sending_def)
  moreover have "client_uploading c2 = Some (client_send_chunk (data_header i x (Suc k)) (slice x (Suc k)) c2)"
    using send_next [OF s s2 k] .
  moreover have "sending S c0 q x i (Suc k) (client_send_chunk (data_header i x (Suc k)) (slice x (Suc k)) c2)"
    using s2 by (simp add: sending_def client_send_chunk_def)
  ultimately show ?thesis by (simp add: client_send_chunk_def c2_def c1_def)
qed

lemma ack_done:
  assumes s: "sendable S (cl_disk c0) q x" and c: "sending S c0 q x i k c" and k: "Suc k = chunks_of x"
    and t: "faults (cl_disk c0) = []" "file_slot (cl_disk c0) mc" "spells (cwd (cl_disk c0)) (pm_metadata_file (cl_partmeta c0)) mc"
  shows "\<exists>c'. client_handle_chunk E (ack_header i x k) [] c = Some c' \<and> at_prompt c' \<and> cl_outbox c' = cl_outbox c"
proof -
  have ix: "unat (of_nat k :: u32) = k" using unat_index [of k x] sendable_length [OF s] k by simp
  define c1 where "c1 = print code_OK ''Upload successful'' True
      (c\<lparr>cl_transfer := (cl_transfer c)\<lparr>at_chunk_state := marks (chunks_of x) (Suc k)\<rparr>\<rparr>)"
  have h: "client_handle_chunk E (ack_header i x k) [] c = client_upload_done E c1"
    using c k by (simp add: client_handle_chunk_def Let_def ack_header_def sending_def mark_sent_def ix marks_next c1_def)
  have d1: "cl_disk c1 = cl_disk c0" "pm_metadata_file (cl_partmeta c1) = pm_metadata_file (cl_partmeta c0)"
    "\<not> cl_batch_active c1" "cl_outbox c1 = cl_outbox c" "\<not> te_exiting c1"
    using c by (simp_all add: c1_def sending_def print_def put_out_def)
  have wf: "wf_disk (cl_disk c0)" using s by (simp add: sendable_def)
  obtain d pm where "delete_partial_metadata (env_sodium E) (env_json E) (cl_disk c1) (cl_partmeta c1) (at_transfer_id (cl_transfer c1)) = (True, d, pm)"
    using table_cleared [OF wf t(1,2), of "cl_partmeta c1"] t(3) d1(1,2) by metis
  then show ?thesis unfolding h
    using d1 by (simp add: client_upload_done_def drop_transfer_def client_delete_def command_finished_def reset_transfer_def read_line_def
        at_prompt_def)
qed

section \<open>The beginning\<close>

text \<open>The client has sent the request and waits for the answer.\<close>

definition announced :: "sodium \<Rightarrow> Client \<Rightarrow> apath \<Rightarrow> bytes \<Rightarrow> Client \<Rightarrow> bool" where
  "announced S c0 q x c \<longleftrightarrow> cl_state c = ClientState.UPLOAD_INIT \<and> \<not> cl_batch_active c \<and> \<not> te_exiting c \<and> cl_disk c = cl_disk c0 \<and>
     fm_absolute_path (at_fmeta (cl_transfer c)) = Abs q \<and> at_chunks (cl_transfer c) = plan S x \<and>
     at_chunk_state (cl_transfer c) = marks (chunks_of x) 0 \<and> cl_partmeta c = cl_partmeta c0"

lemma begin_upload:
  assumes s: "sendable (env_sodium E) (cl_disk c0) q x" and m: "hash_multipart (env_sodium E)"
    and l: "status (cl_disk c0) (path_of_string l) = Some (File x)" "absolute (cl_disk c0) (path_of_string l) = Abs q" and b: "\<not> cl_batch_active c0" "\<not> te_exiting c0" and o: "\<not> oversize E (upload_request (env_sodium E) x r)"
  shows "cl_outbox (cmd_upload E [l, r] c0) = cl_outbox c0 @ [Send_Request (upload_request (env_sodium E) x r)]"
    and "announced (env_sodium E) c0 q x (cmd_upload E [l, r] c0)"
proof -
  define S where "S = env_sodium E"
  define d where "d = cl_disk c0"
  define fm where "fm = scan_file S d (path_of_string l)"
  note s = s [folded S_def d_def] and m = m [folded S_def] and o = o [folded S_def] and l = l [folded d_def]
  have f: "fm_absolute_path fm = Abs q" "fm_size fm = of_nat (length x)" "fm_hash fm = hash_chunk S x"
    unfolding fm_def scan_sendable [OF s m l] by simp_all
  note ok = sent_metadata [OF s f(1,2)]
  have ex: "exists d (path_of_string l)" using l(1) by (simp add: exists_def fs_exists_def)
  have req: "\<lparr>req_cmd = ''UPLOAD'', req_first_argument = r, req_second_argument = [], req_size = fm_size fm,
      req_file_hash = hash_to_hex S (fm_hash fm), req_chunks = plan S x\<rparr> = upload_request S x r"
    by (simp add: upload_request_def f)
  have up: "cmd_upload E [l, r] c0 = (send_json E (upload_request S x r) (c0\<lparr>cl_transfer := (cl_transfer c0)\<lparr>at_fmeta := fm,
      at_chunks := plan S x, at_chunk_state := replicate (chunks_of x) False\<rparr>\<rparr>))\<lparr>cl_state := ClientState.UPLOAD_INIT\<rparr>"
    using ex ok(1,2,4) by (simp add: cmd_upload_def do_upload_def Let_def ok(3) req flip: S_def d_def fm_def)
  show "cl_outbox (cmd_upload E [l, r] c0) = cl_outbox c0 @ [Send_Request (upload_request (env_sodium E) x r)]"
    using o by (simp add: up flip: S_def)
  show "announced (env_sodium E) c0 q x (cmd_upload E [l, r] c0)"
    using b o f(1) by (simp add: up announced_def marks_def send_json_def send_text_def Let_def oversize_def flip: S_def)
qed

lemma begin_sending:
  assumes s: "sendable S (cl_disk c0) q x" and a: "announced S c0 q x c" and J: "json_laws (env_json E)"
    and i: "fst (generate_id (cl_partmeta c0)) = i" "map_of (pm_entries (cl_partmeta c0)) i = None"
  shows "\<exists>c'. handle_response E (response_to_json (env_json E) (response ''OK'' code_OK msg [])) c = Some c' \<and>
     sending S c0 q x i 0 c' \<and> cl_outbox c' = cl_outbox c @ [Send_Chunk (data_header i x 0) (slice x 0)]"
proof -
  have p: "0 < chunks_of x" using s by (simp add: sendable_def chunk_in)
  define c1 where "c1 = print code_OK msg True (c\<lparr>cl_log := cl_log c @
     [Incoming (jdump (env_json E) (response_to_json (env_json E) (response ''OK'' code_OK msg [])))]\<rparr>)"
  have h: "handle_response E (response_to_json (env_json E) (response ''OK'' code_OK msg [])) c =
      client_upload_init E (c1\<lparr>cl_state := ClientState.UPLOADING\<rparr>)"
    using a by (simp add: handle_response_def response_roundtrip [OF J] respond_def response_def Let_def c1_def
        handle_ok_def announced_def print_def put_out_def)
  have f: "announced S c0 q x c1" "cl_outbox c1 = cl_outbox c"
    using a by (simp_all add: c1_def announced_def print_def put_out_def)
  have m0: "at_chunks (cl_transfer c1) = plan S x" "map_of (pm_entries (cl_partmeta c1)) i = None" "fst (generate_id (cl_partmeta c1)) = i"
    using f(1) i by (simp_all add: announced_def)
  obtain pm' e where ad: "add_partial_metadata (env_now E) (cl_partmeta c1) TransferType.UPLOAD (at_fmeta (cl_transfer c1))
      (at_chunks (cl_transfer c1)) UINT32_MAX = (i, pm')" and en: "pm_metadata_file pm' = pm_metadata_file (cl_partmeta c1)"
      "map_of (pm_entries pm') i = Some e" "length (pe_chunk_state e) = chunks_of x"
    using added_entry [OF m0(2), of UINT32_MAX "env_now E" TransferType.UPLOAD "at_fmeta (cl_transfer c1)" "plan S x"] m0(1,3)
    by auto
  define c2 where "c2 = c1\<lparr>cl_state := ClientState.UPLOADING, cl_partmeta := pm', cl_transfer := (cl_transfer c1)\<lparr>at_transfer_id := i\<rparr>\<rparr>"
  have s2: "sending S c0 q x i 0 c2" using f(1) en by (simp add: sending_def c2_def announced_def)
  have "client_upload_init E (c1\<lparr>cl_state := ClientState.UPLOADING\<rparr>) = client_uploading c2"
    using ad by (simp add: client_upload_init_def Let_def c2_def)
  also have "\<dots> = Some (client_send_chunk (data_header i x 0) (slice x 0) c2)" by (rule send_next [OF s s2 p])
  finally show ?thesis
    using h s2 f(2) by (simp add: sending_def client_send_chunk_def c2_def)
qed

end
