(* ===== verification/Link.thy ===== *)
theory Link
  imports SessionFlow ClientFlow
begin

text \<open>
  A client and its session at the two ends of one connection. A message that one side has written is
  handed to the other side's handler, in order, if that side expects its framing: a JSON message where
  \<^verbatim>\<open>read_next\<close> of the receiver chose to read a chunk, or the other way round, would be misread, and the
  step is \<^verbatim>\<open>None\<close>. The JSON values travel as values, their texts being the subject of \<^verbatim>\<open>Protocol\<close>.
\<close>

section \<open>The connection\<close>

record link =
  ln_client :: Client
  ln_world :: world
  ln_up :: nat
  ln_down :: nat

definition to_server :: "'j env \<Rightarrow> client_message \<Rightarrow> world \<Rightarrow> world option" where
  "to_server E m w =
     (case m of
        Send_Request req \<Rightarrow>
          if read_next w = Expect_json then handle_request E (request_to_json (env_json E) req) w else None
      | Send_Chunk ch data \<Rightarrow> if read_next w = Expect_chunk then handle_chunk E ch data w else None)"

definition to_client :: "'j client_env \<Rightarrow> message \<Rightarrow> Client \<Rightarrow> Client option" where
  "to_client E m c =
     (case m of
        Json res \<Rightarrow>
          if client_read_next c = Expect_json then handle_response E (response_to_json (env_json E) res) c else None
      | Chunk ch data \<Rightarrow> if client_read_next c = Expect_chunk then client_handle_chunk E ch data c else None)"

text \<open>Messages of the client go first; \<^verbatim>\<open>None\<close> when nothing is under way or a side fails.\<close>

definition link_step :: "'j client_env \<Rightarrow> 'j env \<Rightarrow> link \<Rightarrow> link option" where
  "link_step E Es l =
     (if ln_up l < length (cl_outbox (ln_client l))
      then map_option (\<lambda>w. l\<lparr>ln_world := w, ln_up := Suc (ln_up l)\<rparr>)
             (to_server Es (cl_outbox (ln_client l) ! ln_up l) (ln_world l))
      else if ln_down l < length (se_outbox (w_session (ln_world l)))
      then map_option (\<lambda>c. l\<lparr>ln_client := c, ln_down := Suc (ln_down l)\<rparr>)
             (to_client E (se_outbox (w_session (ln_world l)) ! ln_down l) (ln_client l))
      else None)"

fun link_run :: "'j client_env \<Rightarrow> 'j env \<Rightarrow> nat \<Rightarrow> link \<Rightarrow> link option" where
  "link_run E Es 0 l = Some l"
| "link_run E Es (Suc n) l = link_step E Es l \<bind> link_run E Es n"

lemma link_run_add: "link_run E Es (a + b) l = link_run E Es a l \<bind> link_run E Es b"
  by (induction a arbitrary: l) (auto split: Option.bind_splits)

text \<open>Nothing is under way.\<close>

definition idle_link :: "link \<Rightarrow> bool" where
  "idle_link l \<longleftrightarrow> ln_up l = length (cl_outbox (ln_client l)) \<and> ln_down l = length (se_outbox (w_session (ln_world l)))"

text \<open>The last \<^verbatim>\<open>a\<close> messages of the client and the last \<^verbatim>\<open>b\<close> of the session are under way.\<close>

definition link_at :: "Client \<Rightarrow> world \<Rightarrow> nat \<Rightarrow> nat \<Rightarrow> link" where
  "link_at c w a b = \<lparr>ln_client = c, ln_world = w, ln_up = length (cl_outbox c) - a, ln_down = length (se_outbox (w_session w)) - b\<rparr>"

lemma idle_at: "idle_link (link_at c w 0 0)"
  by (simp add: idle_link_def link_at_def)

lemma link_at_parts [simp]: "ln_client (link_at c w a b) = c" "ln_world (link_at c w a b) = w"
  by (simp_all add: link_at_def)

lemma up_step:
  assumes "cl_outbox c = ms @ [m]" and "to_server Es m w = Some w'" and "se_outbox (w_session w') = se_outbox (w_session w) @ rs"
  shows "link_step E Es (link_at c w 1 0) = Some (link_at c w' 0 (length rs))"
  using assms by (simp add: link_step_def link_at_def)

lemma down_step:
  assumes "se_outbox (w_session w) = rs @ r # rs'" and "to_client E r c = Some c'" and "cl_outbox c' = cl_outbox c @ ms"
  shows "link_step E Es (link_at c w 0 (Suc (length rs'))) = Some (link_at c' w (length ms) (length rs'))"
  using assms by (simp add: link_step_def link_at_def nth_append)

text \<open>The laws of the libraries that the two sides share.\<close>

definition link_laws :: "'j client_env \<Rightarrow> 'j env \<Rightarrow> bool" where
  "link_laws E Es \<longleftrightarrow> json_laws (env_json E) \<and> hash_width (env_sodium E) \<and> hex_laws (env_sodium E) \<and> hash_multipart (env_sodium E) \<and>
     env_sodium Es = env_sodium E \<and> env_json Es = env_json E"

section \<open>Transfers chunk by chunk\<close>

text \<open>
  The contract of a transfer of \<^verbatim>\<open>n\<close> chunks: while \<^verbatim>\<open>k\<close> chunks are done, one message each way does
  the next one, and the last one ends the transfer. Both directions meet it.
\<close>

locale turn_taking =
  fixes E :: "'j client_env" and Es :: "'j env" and turn :: "nat \<Rightarrow> link \<Rightarrow> bool" and final :: "link \<Rightarrow> bool" and n :: nat
  assumes next_turn: "turn k l \<Longrightarrow> Suc k < n \<Longrightarrow>
      \<exists>l1 l2. link_step E Es l = Some l1 \<and> link_step E Es l1 = Some l2 \<and> turn (Suc k) l2"
    and last_turn: "turn k l \<Longrightarrow> Suc k = n \<Longrightarrow>
      \<exists>l1 l2. link_step E Es l = Some l1 \<and> link_step E Es l1 = Some l2 \<and> final l2"
begin

lemma remaining_turns: "turn k l \<Longrightarrow> k + Suc m = n \<Longrightarrow> \<exists>l'. link_run E Es (2 * Suc m) l = Some l' \<and> final l'"
proof (induction m arbitrary: k l)
  case 0
  then obtain l1 l2 where "link_step E Es l = Some l1" "link_step E Es l1 = Some l2" "final l2"
    using last_turn [of k l] by auto
  then show ?case by (simp add: numeral_2_eq_2)
next
  case (Suc m)
  then obtain l1 l2 where l: "link_step E Es l = Some l1" "link_step E Es l1 = Some l2" "turn (Suc k) l2"
    using next_turn [of k l] by auto
  with Suc.IH [of "Suc k" l2] Suc.prems(2) show ?case by (simp add: numeral_2_eq_2)
qed

lemma all_turns: "turn 0 l \<Longrightarrow> 0 < n \<Longrightarrow> \<exists>l'. link_run E Es (2 * n) l = Some l' \<and> final l'"
  using remaining_turns [of 0 l "n - 1"] by simp

end

end
