(* ===== verification/Upload.thy ===== *)
theory Upload
  imports Sender Receiver Link
begin

text \<open>
  An upload over the connection, followed from the command to its end: the laws of the sending client
  and of the receiving session put together, message by message.
\<close>

section \<open>An upload\<close>

text \<open>What the client needs to send the local file \<^verbatim>\<open>l\<close>, which is \<^verbatim>\<open>q\<close> with the content \<^verbatim>\<open>x\<close>, as the transfer \<^verbatim>\<open>i\<close>.\<close>

definition can_send :: "'j client_env \<Rightarrow> Client \<Rightarrow> apath \<Rightarrow> string \<Rightarrow> apath \<Rightarrow> bytes \<Rightarrow> u32 \<Rightarrow> bool" where
  "can_send E c M l q x i \<longleftrightarrow> \<not> cl_batch_active c \<and> \<not> te_exiting c \<and> sendable (env_sodium E) (cl_disk c) q x \<and>
     spells (cwd (cl_disk c)) (path_of_string l) q \<and> list_all plain_name (cwd (cl_disk c)) \<and> faults (cl_disk c) = [] \<and>
     file_slot (cl_disk c) M \<and> spells (cwd (cl_disk c)) (pm_metadata_file (cl_partmeta c)) M \<and>
     fst (generate_id (cl_partmeta c)) = i \<and> map_of (pm_entries (cl_partmeta c)) i = None"

text \<open>What it needs for the chunks alone.\<close>

definition sender_ok :: "'j client_env \<Rightarrow> Client \<Rightarrow> apath \<Rightarrow> apath \<Rightarrow> bytes \<Rightarrow> bool" where
  "sender_ok E c M q x \<longleftrightarrow> sendable (env_sodium E) (cl_disk c) q x \<and> faults (cl_disk c) = [] \<and> file_slot (cl_disk c) M \<and>
     spells (cwd (cl_disk c)) (pm_metadata_file (cl_partmeta c)) M"

lemma can_sender: "can_send E c M l q x i \<Longrightarrow> sender_ok E c M q x"
  by (simp add: can_send_def sender_ok_def)

text \<open>One chunk goes up and its acknowledgement comes down.\<close>

lemma chunk_up:
  assumes L: "link_laws E Es" and cs: "sender_ok E c0 mc q x" and ss: "may_store w0 M dst i"
    and k: "k < chunks_of x" and w: "ready_for Es w0 M dst x i b k w"
    and m: "cl_outbox c = ms @ [Send_Chunk (data_header i x k) (slice x k)]"
  shows "\<exists>w'. link_step E Es (link_at c w 1 0) = Some (link_at c w' 0 (if Suc k = chunks_of x then Suc (length (all_resumed b)) else 1)) \<and>
    (if Suc k = chunks_of x then stored w0 M dst x i w' else ready_for Es w0 M dst x i b (Suc k) w') \<and>
    se_outbox (w_session w') = se_outbox (w_session w) @ Chunk (ack_header i x k) [] # (if Suc k = chunks_of x then all_resumed b else [])"
proof -
  let ?rs = "Chunk (ack_header i x k) [] # (if Suc k = chunks_of x then all_resumed b else [])"
  have s: "sendable (env_sodium Es) (cl_disk c0) q x"
    and S: "hash_width (env_sodium Es)" "hex_laws (env_sodium Es)" "hash_multipart (env_sodium Es)"
    using cs L by (simp_all add: sender_ok_def link_laws_def)
  have h: "\<not> is_hash_error (hash_chunk (env_sodium Es) x)" "\<forall>s\<in>set (slices x). \<not> is_hash_error (hash_chunk (env_sodium Es) s)"
    using s by (simp_all add: sendable_def)
  obtain w' where w': "handle_chunk Es (data_header i x k) (slice x k) w = Some w'"
      "if Suc k = chunks_of x then stored w0 M dst x i w' else ready_for Es w0 M dst x i b (Suc k) w'"
      "se_outbox (w_session w') = se_outbox (w_session w) @ ?rs"
    using receive_next [OF ss w k sendable_length [OF s] S h] by blast
  have "read_next w = Expect_chunk" using w by (simp add: read_next_def ready_for_def storing_def)
  then have "link_step E Es (link_at c w 1 0) = Some (link_at c w' 0 (length ?rs))"
    using up_step [OF m, of Es w w' ?rs E] w'(1,3) by (simp add: to_server_def)
  moreover have len: "length ?rs = (if Suc k = chunks_of x then Suc (length (all_resumed b)) else 1)" by simp
  ultimately show ?thesis using w'(2,3) by (intro exI [of _ w'] conjI) (simp_all only: len)
qed

text \<open>The state of the connection with chunk \<^verbatim>\<open>k\<close> on its way up, and at the end.\<close>

definition upload_turn :: "'j client_env \<Rightarrow> 'j env \<Rightarrow> Client \<Rightarrow> apath \<Rightarrow> apath \<Rightarrow> bytes \<Rightarrow> u32 \<Rightarrow>
    world \<Rightarrow> apath \<Rightarrow> apath \<Rightarrow> bool \<Rightarrow> nat \<Rightarrow> link \<Rightarrow> bool" where
  "upload_turn E Es c0 mc q x i w0 M dst b k ln \<longleftrightarrow> link_laws E Es \<and> sender_ok E c0 mc q x \<and> may_store w0 M dst i \<and>
     (\<exists>c w ms. ln = link_at c w 1 0 \<and> sending (env_sodium E) c0 q x i k c \<and> ready_for Es w0 M dst x i b k w \<and>
        cl_outbox c = ms @ [Send_Chunk (data_header i x k) (slice x k)])"

definition upload_final :: "world \<Rightarrow> apath \<Rightarrow> apath \<Rightarrow> bytes \<Rightarrow> u32 \<Rightarrow> bool \<Rightarrow> link \<Rightarrow> bool" where
  "upload_final w0 M dst x i b ln \<longleftrightarrow> (\<exists>c w rs. ln = link_at c w 0 (length (all_resumed b)) \<and> at_prompt c \<and>
     stored w0 M dst x i w \<and> se_outbox (w_session w) = rs @ all_resumed b)"

lemma upload_next_turn:
  assumes "upload_turn E Es c0 mc q x i w0 M dst b k ln" and k: "Suc k < chunks_of x"
  shows "\<exists>l1 l2. link_step E Es ln = Some l1 \<and> link_step E Es l1 = Some l2 \<and> upload_turn E Es c0 mc q x i w0 M dst b (Suc k) l2"
proof -
  obtain c w ms where L: "link_laws E Es" "sender_ok E c0 mc q x" "may_store w0 M dst i" and ln: "ln = link_at c w 1 0"
    and c: "sending (env_sodium E) c0 q x i k c" and t: "ready_for Es w0 M dst x i b k w"
      "cl_outbox c = ms @ [Send_Chunk (data_header i x k) (slice x k)]"
    using assms(1) by (auto simp: upload_turn_def)
  obtain w' where w': "link_step E Es (link_at c w 1 0) = Some (link_at c w' 0 1)" "ready_for Es w0 M dst x i b (Suc k) w'"
      "se_outbox (w_session w') = se_outbox (w_session w) @ [Chunk (ack_header i x k) []]"
    using chunk_up [OF L _ t] k by auto
  have s: "sendable (env_sodium E) (cl_disk c0) q x" using L(2) by (simp add: sender_ok_def)
  obtain c' where c': "client_handle_chunk E (ack_header i x k) [] c = Some c'" "sending (env_sodium E) c0 q x i (Suc k) c'"
      "cl_outbox c' = cl_outbox c @ [Send_Chunk (data_header i x (Suc k)) (slice x (Suc k))]"
    using ack_next [OF s c k] by blast
  have "client_read_next c = Expect_chunk" using c by (simp add: client_read_next_def sending_def)
  then have "link_step E Es (link_at c w' 0 1) = Some (link_at c' w' 1 0)"
    using down_step [OF w'(3), of E c c' "[Send_Chunk (data_header i x (Suc k)) (slice x (Suc k))]" Es] c'(1,3) by (simp add: to_client_def)
  moreover have "upload_turn E Es c0 mc q x i w0 M dst b (Suc k) (link_at c' w' 1 0)"
    unfolding upload_turn_def using L c'(2,3) w'(2) by blast
  ultimately show ?thesis using ln w'(1) by blast
qed

lemma upload_last_turn:
  assumes "upload_turn E Es c0 mc q x i w0 M dst b k ln" and k: "Suc k = chunks_of x"
  shows "\<exists>l1 l2. link_step E Es ln = Some l1 \<and> link_step E Es l1 = Some l2 \<and> upload_final w0 M dst x i b l2"
proof -
  obtain c w ms where L: "link_laws E Es" "sender_ok E c0 mc q x" "may_store w0 M dst i" and ln: "ln = link_at c w 1 0"
    and c: "sending (env_sodium E) c0 q x i k c" and t: "ready_for Es w0 M dst x i b k w"
      "cl_outbox c = ms @ [Send_Chunk (data_header i x k) (slice x k)]"
    using assms(1) by (auto simp: upload_turn_def)
  obtain w' where w': "link_step E Es (link_at c w 1 0) = Some (link_at c w' 0 (Suc (length (all_resumed b))))" "stored w0 M dst x i w'"
      "se_outbox (w_session w') = se_outbox (w_session w) @ Chunk (ack_header i x k) [] # all_resumed b"
    using chunk_up [OF L _ t] k by auto
  have a: "sendable (env_sodium E) (cl_disk c0) q x" "faults (cl_disk c0) = []" "file_slot (cl_disk c0) mc"
      "spells (cwd (cl_disk c0)) (pm_metadata_file (cl_partmeta c0)) mc"
    using L(2) by (simp_all add: sender_ok_def)
  obtain c' where c': "client_handle_chunk E (ack_header i x k) [] c = Some c'" "at_prompt c'" "cl_outbox c' = cl_outbox c"
    using ack_done [OF a(1) c k a(2-4)] by blast
  have "client_read_next c = Expect_chunk" using c by (simp add: client_read_next_def sending_def)
  then have "link_step E Es (link_at c w' 0 (Suc (length (all_resumed b)))) = Some (link_at c' w' 0 (length (all_resumed b)))"
    using down_step [OF w'(3), of E c c' "[]" Es] c'(1,3) by (simp add: to_client_def)
  moreover have "upload_final w0 M dst x i b (link_at c' w' 0 (length (all_resumed b)))"
    unfolding upload_final_def using c'(2) w'(2,3) by (intro exI [of _ c'] exI [of _ w'] exI) auto
  ultimately show ?thesis using ln w'(1) by blast
qed

interpretation up: turn_taking E Es "upload_turn E Es c0 mc q x i w0 M dst b" "upload_final w0 M dst x i b" "chunks_of x"
  for E :: "'j client_env" and Es c0 mc q x i w0 M dst b
  by unfold_locales (rule upload_next_turn upload_last_turn; assumption)+

text \<open>
  Property (C4). An upload over the connection, from the command to its end: a client that is not in a
  batch and can read the file, and a session that is ready, has a free place \<^verbatim>\<open>dst\<close> for it and can take
  the user's lock, with a transfer id both tables have free, exchange one request, its answer, and one
  message each way per chunk; each message arrives where its framing is expected. Then nothing is
  under way, the client reads the next command, the session is ready with the lock released, the
  server has the content of the local file at \<^verbatim>\<open>dst\<close>, and nothing else there has changed but the
  table of transfers.
\<close>

theorem upload_arrives:
  assumes "link_laws E Es" and "can_send E c mc l q x i" and "can_store Es w M dst r i"
    and "\<not> oversize E (upload_request (env_sodium E) x r)"
  shows "\<exists>l'. link_run E Es (2 * chunks_of x + 2) (link_at (cmd_upload E [l, r] c) w 1 0) = Some l' \<and> idle_link l' \<and>
    cl_state (ln_client l') = ClientState.READY \<and> te_reading_line (ln_client l') \<and> w_state (ln_world l') = SessionState.READY \<and>
    locked (w_storage (ln_world l')) = locked (w_storage w) \<and> lookup (w_disk (ln_world l')) dst = Some (File x) \<and>
    (\<forall>p. p \<notin> {dst, M, tmp_of M} \<longrightarrow> lookup (w_disk (ln_world l')) p = lookup (w_disk w) p)"
proof -
  define c1 where "c1 = cmd_upload E [l, r] c"
  have laws: "json_laws (env_json E)" "hash_multipart (env_sodium E)" and same: "env_sodium Es = env_sodium E" "env_json Es = env_json E"
    and Ls: "json_laws (env_json Es)" "hash_width (env_sodium Es)" "hex_laws (env_sodium Es)"
    using assms(1) by (simp_all add: link_laws_def)
  have cl: "sendable (env_sodium E) (cl_disk c) q x" "\<not> cl_batch_active c" "\<not> te_exiting c" "fst (generate_id (cl_partmeta c)) = i"
      "map_of (pm_entries (cl_partmeta c)) i = None" "spells (cwd (cl_disk c)) (path_of_string l) q" "list_all plain_name (cwd (cl_disk c))"
    using assms(2) by (simp_all add: can_send_def)
  have wf: "wf_disk (cl_disk c)" "lookup (cl_disk c) q = Some (File x)" using cl(1) by (simp_all add: sendable_def)
  have st: "status (cl_disk c) (path_of_string l) = Some (File x)" using locate_spelled [OF wf(1) cl(6)] wf(2) by (simp add: status_def)
  note b = begin_upload [OF cl(1) laws(2) st absolute_spelled [OF wf(1) cl(6,7)] cl(2,3) assms(4), folded c1_def]
  obtain w1 msg where w1: "handle_request Es (request_to_json (env_json Es) (upload_request (env_sodium E) x r)) w = Some w1"
      "storing (env_sodium Es) w dst x False w1" "opened w w1"
      "se_outbox (w_session w1) = se_outbox (w_session w) @ [Json (response ''OK'' code_OK msg [])]"
    using open_upload [OF assms(3) Ls, of x] same by auto
  have "read_next w = Expect_json" using assms(3) by (simp add: read_next_def can_store_def)
  then have going: "link_step E Es (link_at c1 w 1 0) = Some (link_at c1 w1 0 1)"
    using up_step [OF b(1), of Es w w1 "[Json (response ''OK'' code_OK msg [])]" E] w1(1,4) by (simp add: to_server_def)
  obtain c2 where c2: "handle_response E (response_to_json (env_json E) (response ''OK'' code_OK msg [])) c1 = Some c2"
      "sending (env_sodium E) c q x i 0 c2" "cl_outbox c2 = cl_outbox c1 @ [Send_Chunk (data_header i x 0) (slice x 0)]"
    using begin_sending [OF cl(1) b(2) laws(1) cl(4,5)] by blast
  have "client_read_next c1 = Expect_json" using b(2) by (simp add: client_read_next_def announced_def)
  then have down: "link_step E Es (link_at c1 w1 0 1) = Some (link_at c2 w1 1 0)"
    using down_step [OF w1(4), of E c1 c2 "[Send_Chunk (data_header i x 0) (slice x 0)]" Es] c2(1,3) by (simp add: to_client_def)
  have n: "0 < chunks_of x" using cl(1) by (simp add: sendable_def chunk_in)
  have ms: "may_store w M dst i" and gone: "lookup (w_disk w) (part_of M i) = None"
    using assms(3) by (auto simp: may_store_def can_store_def dest: try_acquire_spec(1))
  have "upload_turn E Es c mc q x i w M dst False 0 (link_at c2 w1 1 0)"
    unfolding upload_turn_def using assms(1) can_sender [OF assms(2)] ms c2(2,3) ready_first [OF assms(3) w1(2,3)] by blast
  then obtain l' where l': "link_run E Es (2 * chunks_of x) (link_at c2 w1 1 0) = Some l'" "upload_final w M dst x i False l'"
    using up.all_turns [OF _ n] by blast
  have "link_run E Es (2 * chunks_of x + 2) (link_at c1 w 1 0) = Some l'"
    using going down l'(1) by (simp add: numeral_2_eq_2)
  moreover have "idle_link l' \<and> at_prompt (ln_client l') \<and> stored w M dst x i (ln_world l')"
    using l'(2) by (auto simp: upload_final_def all_resumed_def idle_at)
  ultimately show ?thesis using gone by (auto simp: stored_def at_prompt_def c1_def)
qed

text \<open>A client with the file \<^verbatim>\<open>/f\<close> and a session in public mode whose directory is empty.\<close>

definition demo_link_json :: "jval json_lib" where
  "demo_link_json = json_ref\<lparr>jdump := (\<lambda>_. [1])\<rparr>"

definition demo_sender :: "jval client_env" where
  "demo_sender = demo_client_env\<lparr>env_json := demo_link_json\<rparr>"

definition demo_receiver :: "jval env" where
  "demo_receiver = bob_env\<lparr>env_json := demo_link_json\<rparr>"

definition demo_nodes :: "(apath \<times> node) list" where
  "demo_nodes = [([], Dir), ([''p''], Dir), ([''p'', ''files''], Dir), ([''p'', ''.partial''], Dir)]"

definition demo_store :: world where
  "demo_store = \<lparr>w_storage = (demo_storage demo_nodes)
      \<lparr>sto_partmetas := [\<lparr>pm_metadata_file = Abs [''p'', ''.partial'', ''partmeta.json''], pm_entries = [], pm_next_id = 1, pm_free_ids = []\<rparr>]\<rparr>,
     w_session = new_session\<lparr>se_state := SessionState.READY, se_user_dir := Abs [''p'', ''files''], se_current_dir := Abs [''p'', ''files''],
       se_username := ''public'', se_partmeta := Some 0\<rparr>\<rparr>"

lemma demo_link_laws: "json_laws demo_link_json"
  using json_ref_laws(1) by (simp add: demo_link_json_def json_laws_def)

lemma demo_hash: "\<not> is_hash_error (hash_chunk sodium_ref s)"
  by (simp add: is_hash_error_def hash_chunk_def sodium_ref_def)

lemma demo_sendable: "sendable sodium_ref (cl_disk demo_client) [''f''] [1, 2]"
  using wf_disk_of [of "[([], Dir), ([''f''], File [1, 2])]"] by (simp add: sendable_def demo_client_def demo_hash plain_name_def)

lemma demo_envs: "env_sodium demo_sender = sodium_ref" "env_json demo_sender = demo_link_json"
  "env_sodium demo_receiver = sodium_ref" "env_json demo_receiver = demo_link_json"
  by (simp_all add: demo_sender_def demo_receiver_def demo_client_env_def bob_env_def)

lemma demo_can_send: "can_send demo_sender demo_client [''m''] ''/f'' [''f''] [1, 2] 1"
proof -
  have "path_of_string ''/f'' = Abs [''f'']" by code_simp
  then show ?thesis
    using demo_sendable by (simp add: can_send_def demo_envs)
      (simp add: demo_client_def generate_id_def spells_def plain_name_def file_slot_def isdir_def tmp_of_def)
qed

lemma demo_laws: "link_laws demo_sender demo_receiver"
  using demo_link_laws sodium_ref_laws by (simp add: link_laws_def demo_envs)

lemma demo_resolved: "resolve demo_store ''g'' = Abs [''p'', ''files'', ''g'']" "in_user_dir demo_store (Abs [''p'', ''files'', ''g''])"
  by code_simp+

lemma demo_can_store: "can_store demo_receiver demo_store [''p'', ''.partial'', ''partmeta.json''] [''p'', ''files'', ''g''] ''g'' 1"
  using wf_disk_of [of demo_nodes] demo_resolved
  by (simp add: can_store_def demo_store_def new_session_def no_transfer_def demo_storage_def try_acquire_user_lock_def the_pm_def
      demo_nodes_def plain_name_def file_slot_def isdir_def tmp_of_def part_of_def free_place_def room_def spells_def)

theorem upload_arrives_witness:
  "\<exists>l'. link_run demo_sender demo_receiver 4 (link_at (cmd_upload demo_sender [''/f'', ''g''] demo_client) demo_store 1 0) = Some l' \<and>
     lookup (w_disk (ln_world l')) [''p'', ''files'', ''g''] = Some (File [1, 2])"
proof -
  have "\<not> oversize demo_sender (upload_request (env_sodium demo_sender) [1, 2] ''g'')"
    by (simp add: oversize_def demo_sender_def demo_link_json_def)
  moreover have "2 * chunks_of [1, 2] + 2 = 4" by (simp add: chunks_of_def)
  ultimately show ?thesis using upload_arrives [OF demo_laws demo_can_send demo_can_store] by auto
qed

end
