(* ===== verification/Download.thy ===== *)
theory Download
  imports Serving Fetching Upload
begin

text \<open>
  A download over the connection, from the command to its end: the laws of the sending session and of
  the receiving client put together.
\<close>

lemma can_serve_may: "can_serve E w M q r x i \<Longrightarrow> may_serve E w M q x"
  by (auto simp: can_serve_def may_serve_def dest: try_acquire_spec(1))

lemma can_fetch_may: "can_fetch c M dst r rest i \<Longrightarrow> may_fetch c M dst i"
  by (simp add: can_fetch_def may_fetch_def)

text \<open>One chunk comes down and its acknowledgement goes up.\<close>

lemma chunk_down:
  assumes L: "link_laws E Es" and cf: "may_fetch c0 mc dst i" and cv: "may_serve Es w0 M q x"
    and k: "k < chunks_of x" and c: "fetch_ready E c0 mc dst x i k c"
    and m: "se_outbox (w_session w) = ms @ [Chunk (data_header i x k) (slice x k)]"
  shows "\<exists>c'. link_step E Es (link_at c w 0 1) = Some (link_at c' w 1 0) \<and>
    (if Suc k = chunks_of x then fetched c0 mc dst x i c' else fetch_ready E c0 mc dst x i (Suc k) c') \<and>
    cl_outbox c' = cl_outbox c @ [Send_Chunk (ack_header i x k) []]"
proof -
  have s: "sendable (env_sodium E) (w_disk w0) q x" and S: "hash_width (env_sodium E)" "hex_laws (env_sodium E)" "hash_multipart (env_sodium E)"
    using cv L by (simp_all add: may_serve_def link_laws_def)
  have h: "\<not> is_hash_error (hash_chunk (env_sodium E) x)" "\<forall>s\<in>set (slices x). \<not> is_hash_error (hash_chunk (env_sodium E) s)"
    using s by (simp_all add: sendable_def)
  obtain c' where c': "client_handle_chunk E (data_header i x k) (slice x k) c = Some c'"
      "if Suc k = chunks_of x then fetched c0 mc dst x i c' else fetch_ready E c0 mc dst x i (Suc k) c'"
      "cl_outbox c' = cl_outbox c @ [Send_Chunk (ack_header i x k) []]"
    using fetch_next [OF cf c k sendable_length [OF s] S h] by blast
  have "client_read_next c = Expect_chunk" using c by (simp add: client_read_next_def fetch_ready_def fetching_def)
  then have "link_step E Es (link_at c w 0 1) = Some (link_at c' w 1 0)"
    using down_step [of w ms "Chunk (data_header i x k) (slice x k)" "[]" E c c' "[Send_Chunk (ack_header i x k) []]" Es] m c'(1,3)
    by (simp add: to_client_def)
  then show ?thesis using c'(2,3) by blast
qed

definition download_turn :: "'j client_env \<Rightarrow> 'j env \<Rightarrow> Client \<Rightarrow> apath \<Rightarrow> apath \<Rightarrow> u32 \<Rightarrow>
    world \<Rightarrow> apath \<Rightarrow> apath \<Rightarrow> bytes \<Rightarrow> bool \<Rightarrow> nat \<Rightarrow> link \<Rightarrow> bool" where
  "download_turn E Es c0 mc dst i w0 M q x b k ln \<longleftrightarrow> link_laws E Es \<and> may_fetch c0 mc dst i \<and> may_serve Es w0 M q x \<and>
     (\<exists>c w ms. ln = link_at c w 0 1 \<and> fetch_ready E c0 mc dst x i k c \<and>
        serving (env_sodium E) w0 M q x i b k w \<and> se_outbox (w_session w) = ms @ [Chunk (data_header i x k) (slice x k)])"

definition download_final :: "Client \<Rightarrow> apath \<Rightarrow> apath \<Rightarrow> bytes \<Rightarrow> u32 \<Rightarrow> world \<Rightarrow> apath \<Rightarrow> bool \<Rightarrow> link \<Rightarrow> bool" where
  "download_final c0 mc dst x i w0 M b ln \<longleftrightarrow> (\<exists>c w rs. ln = link_at c w 0 (length (all_resumed b)) \<and> fetched c0 mc dst x i c \<and>
     served w0 M w \<and> se_outbox (w_session w) = rs @ all_resumed b)"

lemma download_next_turn:
  assumes "download_turn E Es c0 mc dst i w0 M q x b k ln" and k: "Suc k < chunks_of x"
  shows "\<exists>l1 l2. link_step E Es ln = Some l1 \<and> link_step E Es l1 = Some l2 \<and> download_turn E Es c0 mc dst i w0 M q x b (Suc k) l2"
proof -
  obtain c w ms where L: "link_laws E Es" "may_fetch c0 mc dst i" "may_serve Es w0 M q x" and ln: "ln = link_at c w 0 1"
    and t: "fetch_ready E c0 mc dst x i k c"
    and v: "serving (env_sodium E) w0 M q x i b k w" and o: "se_outbox (w_session w) = ms @ [Chunk (data_header i x k) (slice x k)]"
    using assms(1) by (auto simp: download_turn_def)
  have s: "sendable (env_sodium E) (w_disk w0) q x" using L by (simp add: may_serve_def link_laws_def)
  obtain c' where c': "link_step E Es (link_at c w 0 1) = Some (link_at c' w 1 0)" "fetch_ready E c0 mc dst x i (Suc k) c'"
      "cl_outbox c' = cl_outbox c @ [Send_Chunk (ack_header i x k) []]"
    using chunk_down [OF L _ t o] k by auto
  obtain w' where w': "handle_chunk Es (ack_header i x k) [] w = Some w'" "serving (env_sodium E) w0 M q x i b (Suc k) w'"
      "se_outbox (w_session w') = se_outbox (w_session w) @ [Chunk (data_header i x (Suc k)) (slice x (Suc k))]"
    using served_next [OF s v k] by blast
  have "read_next w = Expect_chunk" using v by (simp add: read_next_def serving_def)
  then have "link_step E Es (link_at c' w 1 0) = Some (link_at c' w' 0 1)"
    using up_step [OF c'(3), of Es w w' "[Chunk (data_header i x (Suc k)) (slice x (Suc k))]" E] w'(1,3) by (simp add: to_server_def)
  moreover have "download_turn E Es c0 mc dst i w0 M q x b (Suc k) (link_at c' w' 0 1)"
    unfolding download_turn_def using L c'(2) w'(2,3) by blast
  ultimately show ?thesis using ln c'(1) by blast
qed

lemma download_last_turn:
  assumes "download_turn E Es c0 mc dst i w0 M q x b k ln" and k: "Suc k = chunks_of x"
  shows "\<exists>l1 l2. link_step E Es ln = Some l1 \<and> link_step E Es l1 = Some l2 \<and> download_final c0 mc dst x i w0 M b l2"
proof -
  obtain c w ms where L: "link_laws E Es" "may_fetch c0 mc dst i" "may_serve Es w0 M q x" and ln: "ln = link_at c w 0 1"
    and t: "fetch_ready E c0 mc dst x i k c"
    and v: "serving (env_sodium E) w0 M q x i b k w" and o: "se_outbox (w_session w) = ms @ [Chunk (data_header i x k) (slice x k)]"
    using assms(1) by (auto simp: download_turn_def)
  obtain c' where c': "link_step E Es (link_at c w 0 1) = Some (link_at c' w 1 0)" "fetched c0 mc dst x i c'"
      "cl_outbox c' = cl_outbox c @ [Send_Chunk (ack_header i x k) []]"
    using chunk_down [OF L _ t o] k by auto
  obtain w' where w': "handle_chunk Es (ack_header i x k) [] w = Some w'" "served w0 M w'"
      "se_outbox (w_session w') = se_outbox (w_session w) @ all_resumed b"
    using served_done [OF L(3) v k] by blast
  have "read_next w = Expect_chunk" using v by (simp add: read_next_def serving_def)
  then have "link_step E Es (link_at c' w 1 0) = Some (link_at c' w' 0 (length (all_resumed b)))"
    using up_step [OF c'(3), of Es w w' "all_resumed b" E] w'(1,3) by (simp add: to_server_def)
  moreover have "download_final c0 mc dst x i w0 M b (link_at c' w' 0 (length (all_resumed b)))"
    unfolding download_final_def using c'(2) w'(2,3) by blast
  ultimately show ?thesis using ln c'(1) by blast
qed

interpretation down: turn_taking E Es "download_turn E Es c0 mc dst i w0 M q x b" "download_final c0 mc dst x i w0 M b" "chunks_of x"
  for E :: "'j client_env" and Es c0 mc dst i w0 M q x b
  by unfold_locales (rule download_next_turn download_last_turn; assumption)+

text \<open>
  Property (C5). A download over the connection, from the command to its end: a client that is not in a
  batch, with a free place \<^verbatim>\<open>dst\<close> for the file, and a session that is ready, can take the user's lock and
  has the file, with a transfer id both tables have free, exchange one request, its answer with the
  chunk plan, and one message each way per chunk; each message arrives where its framing is expected.
  Then nothing is under way, the client has the content of the remote file at \<^verbatim>\<open>dst\<close> and reads the next
  command, the session is ready with the lock released, and on neither side anything else has
  changed but the table of transfers.
\<close>

theorem download_arrives:
  assumes "link_laws E Es" and "can_fetch c mc dst r rest i" and "can_serve Es w M q r x i"
    and "\<not> oversize E (download_request r)"
  shows "\<exists>l'. link_run E Es (2 * chunks_of x + 2) (link_at (cmd_download E (r # rest) c) w 1 0) = Some l' \<and> idle_link l' \<and>
    cl_state (ln_client l') = ClientState.READY \<and> te_reading_line (ln_client l') \<and> lookup (cl_disk (ln_client l')) dst = Some (File x) \<and>
    (\<forall>p. p \<notin> {dst, mc, tmp_of mc} \<longrightarrow> lookup (cl_disk (ln_client l')) p = lookup (cl_disk c) p) \<and>
    w_state (ln_world l') = SessionState.READY \<and> locked (w_storage (ln_world l')) = locked (w_storage w) \<and>
    (\<forall>p. p \<notin> {M, tmp_of M} \<longrightarrow> lookup (w_disk (ln_world l')) p = lookup (w_disk w) p)"
proof -
  define c1 where "c1 = cmd_download E (r # rest) c"
  have same: "env_sodium Es = env_sodium E" "env_json Es = env_json E"
    and L: "json_laws (env_json E)" "hash_width (env_sodium E)" "hex_laws (env_sodium E)"
    and Ls: "json_laws (env_json Es)" "hash_multipart (env_sodium Es)"
    using assms(1) by (simp_all add: link_laws_def)
  have s: "sendable (env_sodium E) (w_disk w) q x" using assms(3) same by (simp add: can_serve_def)
  note b = ask_download [OF assms(2,4), folded c1_def]
  obtain w1 where w1: "handle_request Es (request_to_json (env_json Es) (download_request r)) w = Some w1"
      "serving (env_sodium E) w M q x i False 0 w1"
      "se_outbox (w_session w1) = se_outbox (w_session w) @ [Json (download_response (env_sodium E) x), Chunk (data_header i x 0) (slice x 0)]"
    using open_download [OF assms(3) Ls] same by auto
  have "read_next w = Expect_json" using assms(3) by (simp add: read_next_def can_serve_def)
  then have asking: "link_step E Es (link_at c1 w 1 0) = Some (link_at c1 w1 0 2)"
    using up_step [OF b(1), of Es w w1 "[Json (download_response (env_sodium E) x), Chunk (data_header i x 0) (slice x 0)]" E] w1(1,3)
    by (simp add: to_server_def numeral_2_eq_2)
  obtain c2 where c2: "handle_response E (response_to_json (env_json E) (download_response (env_sodium E) x)) c1 = Some c2"
      "fetching (env_sodium E) dst x c2" "unnamed c c2" "cl_outbox c2 = cl_outbox c1"
    using plan_arrives [OF b(2) L sendable_length [OF s]] unfolding download_response_def by blast
  have "client_read_next c1 = Expect_json" using b(2) by (simp add: client_read_next_def asked_def)
  then have answer: "link_step E Es (link_at c1 w1 0 2) = Some (link_at c2 w1 0 1)"
    using down_step [OF w1(3), of E c1 c2 "[]" Es] c2(1,4) by (simp add: to_client_def numeral_2_eq_2)
  have n: "0 < chunks_of x" using s by (simp add: sendable_def chunk_in)
  have o1: "se_outbox (w_session w1) = (se_outbox (w_session w) @ [Json (download_response (env_sodium E) x)]) @ [Chunk (data_header i x 0) (slice x 0)]"
    using w1(3) by simp
  have gone: "lookup (cl_disk c) (part_of mc i) = None" using assms(2) by (simp add: can_fetch_def)
  have "download_turn E Es c mc dst i w M q x False 0 (link_at c2 w1 0 1)"
    unfolding download_turn_def
    using assms(1) can_fetch_may [OF assms(2)] can_serve_may [OF assms(3)] fetch_first [OF assms(2) c2(2,3)] w1(2) o1 by blast
  then obtain l' where l': "link_run E Es (2 * chunks_of x) (link_at c2 w1 0 1) = Some l'" "download_final c mc dst x i w M False l'"
    using down.all_turns [OF _ n] by blast
  have "link_run E Es (2 * chunks_of x + 2) (link_at c1 w 1 0) = Some l'"
    using asking answer l'(1) by (simp add: numeral_2_eq_2)
  moreover have "idle_link l' \<and> fetched c mc dst x i (ln_client l') \<and> served w M (ln_world l')"
    using l'(2) by (auto simp: download_final_def all_resumed_def idle_at)
  ultimately show ?thesis using gone by (auto simp: fetched_def served_def at_prompt_def c1_def)
qed

text \<open>The session in public mode of the upload, now with a file in its directory; a client that has never run.\<close>

definition demo_shelf :: world where
  "demo_shelf = demo_store\<lparr>w_storage := (w_storage demo_store)\<lparr>sto_disk := disk_of (demo_nodes @ [([''p'', ''files'', ''h''], File [7])])\<rparr>\<rparr>"

definition demo_reader :: Client where
  "demo_reader = demo_client\<lparr>cl_disk := disk_of [([], Dir), ([''data''], Dir), ([''data'', ''client_cwd''], Dir), ([''data'', ''client_cwd'', ''.partial''], Dir)],
     cl_partmeta := \<lparr>pm_metadata_file = path_of_string ''./data/client_cwd/.partial/partmeta.json'', pm_entries = [], pm_next_id = 1, pm_free_ids = []\<rparr>\<rparr>"

lemma demo_can_fetch: "can_fetch demo_reader [''data'', ''client_cwd'', ''.partial'', ''partmeta.json''] [''h''] ''h'' [] 1"
proof -
  have p: "path_of_string ''./data/client_cwd/.partial/partmeta.json'' = Rel [''.'', ''data'', ''client_cwd'', ''.partial'', ''partmeta.json'']"
      "path_of_string ''h'' = Rel [''h'']"
    by code_simp+
  have "wf_disk (cl_disk demo_reader)"
    unfolding demo_reader_def by (simp, rule wf_disk_of) (simp_all add: plain_name_def)
  then show ?thesis
    by (simp add: can_fetch_def demo_reader_def demo_client_def download_place_def room_def p spells_def plain_name_def sub_def filename_def
        path_append_def append_names_def file_slot_def isdir_def tmp_of_def part_of_def free_place_def)
qed

lemma demo_shelf_resolved: "resolve demo_shelf ''h'' = Abs [''p'', ''files'', ''h'']" "in_user_dir demo_shelf (Abs [''p'', ''files'', ''h''])"
  by code_simp+

lemma demo_can_serve: "can_serve demo_receiver demo_shelf [''p'', ''.partial'', ''partmeta.json''] [''p'', ''files'', ''h''] ''h'' [7] 1"
  using wf_disk_of [of "demo_nodes @ [([''p'', ''files'', ''h''], File [7])]"] demo_shelf_resolved
  by (simp add: can_serve_def demo_shelf_def demo_store_def new_session_def no_transfer_def demo_storage_def try_acquire_user_lock_def the_pm_def
      demo_nodes_def plain_name_def file_slot_def isdir_def tmp_of_def spells_def generate_id_def sendable_def demo_envs demo_hash)

theorem download_arrives_witness:
  "\<exists>l'. link_run demo_sender demo_receiver 4 (link_at (cmd_download demo_sender [''h''] demo_reader) demo_shelf 1 0) = Some l' \<and>
     lookup (cl_disk (ln_client l')) [''h''] = Some (File [7])"
proof -
  have "\<not> oversize demo_sender (download_request ''h'')"
    by (simp add: oversize_def demo_sender_def demo_link_json_def)
  moreover have "2 * chunks_of [7] + 2 = 4" by (simp add: chunks_of_def)
  ultimately show ?thesis using download_arrives [OF demo_laws demo_can_fetch demo_can_serve] by auto
qed

end
