(* ===== verification/Resume.thy ===== *)
theory Resume
  imports Download
begin

text \<open>
  An interrupted transfer is taken up again: the session asks whether to go on, the user answers
  \<^verbatim>\<open>y\<close>, and the transfer continues at the first chunk its sender has no acknowledgement for. The receiver
  may have that chunk and more already; what comes again is written again.
\<close>

section \<open>The answer of the user\<close>

abbreviation yes_request :: Request where
  "yes_request \<equiv> plain_request ''NEED_INPUT'' ''y'' []"

text \<open>The client has been asked; an answer is on its way.\<close>

definition asked_to_resume :: "'j client_env \<Rightarrow> Client \<Rightarrow> bool" where
  "asked_to_resume E c \<longleftrightarrow> cl_state c = ClientState.NEED_INPUT_RESUME_TRANSFER \<and> \<not> cl_batch_active c \<and> \<not> te_exiting c \<and>
     \<not> oversize E yes_request"

definition says_yes :: "Client \<Rightarrow> Client \<Rightarrow> bool" where
  "says_yes c0 c \<longleftrightarrow> cl_state c = ClientState.PROCESSING \<and> \<not> cl_batch_active c \<and> \<not> te_exiting c \<and> cl_disk c = cl_disk c0 \<and>
     cl_partmeta c = cl_partmeta c0 \<and> cl_outbox c = cl_outbox c0 @ [Send_Request yes_request]"

lemma yes_sent:
  assumes "asked_to_resume E c"
  shows "\<exists>c1. client_handle_request E ''y'' c = Some c1 \<and> says_yes c c1"
  using assms by (simp add: asked_to_resume_def client_handle_request_def client_need_input_def to_lower_def less_eq_char_def Let_def
      send_command_def says_yes_def) (simp add: send_json_def send_text_def Let_def oversize_def)

section \<open>The session starts\<close>

text \<open>What a table knows of the transfer of a file with the content \<^verbatim>\<open>x\<close>.\<close>

definition describes :: "sodium \<Rightarrow> bytes \<Rightarrow> apath \<Rightarrow> TransferType \<Rightarrow> u32 \<Rightarrow> PartialMetadataEntry \<Rightarrow> bool" where
  "describes S x p ty i e \<longleftrightarrow> pe_id e = i \<and> pe_type e = ty \<and> pe_absolute_path e = Abs p \<and> pe_file_hash e = hash_chunk S x \<and>
     pe_chunks e = plan S x \<and> length (pe_chunk_state e) = chunks_of x"

text \<open>A session that has asked about its last unfinished transfer \<^verbatim>\<open>e\<close>.\<close>

definition can_resume :: "'j env \<Rightarrow> world \<Rightarrow> apath \<Rightarrow> PartialMetadataEntry \<Rightarrow> bool" where
  "can_resume E w M e \<longleftrightarrow> w_state w = NEED_INPUT_RESUME_TREANSFER \<and> se_resuming (w_session w) \<and> \<not> se_exiting (w_session w) \<and>
     se_resume_queue (w_session w) = [e] \<and> (\<exists>st. try_acquire_user_lock E (w_storage w) (w_user w) = Some (True, st)) \<and>
     wf_disk (w_disk w) \<and> list_all plain_name (cwd (w_disk w)) \<and>
     (\<exists>pm. the_pm w = Some pm \<and> spells (cwd (w_disk w)) (pm_metadata_file pm) M \<and> map_of (pm_entries pm) (pe_id e) = Some e)"

definition go_response :: "PartialMetadataEntry \<Rightarrow> string \<Rightarrow> Response" where
  "go_response e name = response ''RESUME'' code_OK (type_to_string (pe_type e) @ '' '' @ name) (dec (unat (pe_id e)))"

text \<open>The session with the transfer loaded from its table, holding the lock.\<close>

definition loaded :: "world \<Rightarrow> apath \<Rightarrow> PartialMetadataEntry \<Rightarrow> world \<Rightarrow> bool" where
  "loaded w0 M e w \<longleftrightarrow> se_resuming (w_session w) \<and> se_resume_queue (w_session w) = [] \<and> \<not> se_exiting (w_session w) \<and> w_user w = w_user w0 \<and>
     locked (w_storage w) = insert (w_user w0) (locked (w_storage w0)) \<and> w_disk w = w_disk w0 \<and> the_pm w = the_pm w0 \<and>
     at_transfer_id (se_transfer (w_session w)) = pe_id e \<and> fm_absolute_path (at_fmeta (se_transfer (w_session w))) = pe_absolute_path e \<and>
     fm_hash (at_fmeta (se_transfer (w_session w))) = pe_file_hash e \<and> at_partial_path (se_transfer (w_session w)) = Abs (part_of M (pe_id e)) \<and>
     at_chunks (se_transfer (w_session w)) = pe_chunks e \<and> at_chunk_state (se_transfer (w_session w)) = pe_chunk_state e"

lemma answer_taken:
  assumes c: "can_resume E w0 M e" and J: "json_laws (env_json E)"
  shows "\<exists>w name. handle_request E (request_to_json (env_json E) yes_request) w0 =
      (if pe_type e = TransferType.UPLOAD then Some (set_state SessionState.UPLOADING w) else downloading (set_state SessionState.DOWNLOADING w)) \<and>
    loaded w0 M e w \<and> se_outbox (w_session w) = se_outbox (w_session w0) @ [Json (go_response e name)]"
proof -
  obtain st pm where l: "try_acquire_user_lock E (w_storage w0) (w_user w0) = Some (True, st)"
    and pm: "the_pm w0 = Some pm" "spells (cwd (w_disk w0)) (pm_metadata_file pm) M" "map_of (pm_entries pm) (pe_id e) = Some e"
    using c by (auto simp: can_resume_def)
  have d: "wf_disk (w_disk w0)" "list_all plain_name (cwd (w_disk w0))" "se_resume_queue (w_session w0) = [e]"
    "w_state w0 = NEED_INPUT_RESUME_TREANSFER"
    using c by (simp_all add: can_resume_def)
  note fr = try_acquire_spec [OF l]
  define w1 where "w1 = w0\<lparr>w_session := (w_session w0)\<lparr>se_resume_queue := []\<rparr>, w_storage := st\<rparr>"
  have "the_pm w1 = the_pm w0" using fr(4) by (simp add: w1_def the_pm_def split: option.split)
  with fr pm(1) have w1: "w_disk w1 = w_disk w0" "the_pm w1 = Some pm" "locked (w_storage w1) = insert (w_user w0) (locked (w_storage w0))"
    by (simp_all add: w1_def)
  have pp: "get_partial_path (w_disk w1) pm (pe_id e) = Abs (part_of M (pe_id e))"
    using partial_path_is [OF d(1,2) pm(2), of "pe_id e"] pm(3) w1(1) by simp
  define name where "name = rel_name w1 (se_user_dir (w_session w1)) (pe_absolute_path e)"
  define t where "t = \<lparr>at_transfer_id = pe_id e, at_fmeta = (at_fmeta (se_transfer (w_session w1)))\<lparr>fm_absolute_path := pe_absolute_path e,
      fm_size := pe_size e, fm_hash := pe_file_hash e\<rparr>, at_partial_path = Abs (part_of M (pe_id e)), at_chunks = pe_chunks e, at_chunk_state = pe_chunk_state e\<rparr>"
  define w where "w = send_msg (Json (go_response e name)) (set_transfer t w1)"
  have "handle_request E (request_to_json (env_json E) yes_request) w0 = need_input_cmd E yes_request w0"
    by (simp add: handle_request_def request_roundtrip [OF J] execute_def Let_def) (simp add: plain_request_def)
  also have "\<dots> = resume_transfer e w1"
    using d(3,4) l by (simp add: need_input_cmd_def need_input_resume_def pop_resume_def w1_def) (simp add: plain_request_def)
  also have "\<dots> = (if pe_type e = TransferType.UPLOAD then Some (set_state SessionState.UPLOADING w) else downloading (set_state SessionState.DOWNLOADING w))"
    using w1(2) pp by (simp add: resume_transfer_def Let_def send_res_def w_def t_def go_response_def name_def) (simp add: response_def)
  finally have h: "handle_request E (request_to_json (env_json E) yes_request) w0 =
      (if pe_type e = TransferType.UPLOAD then Some (set_state SessionState.UPLOADING w) else downloading (set_state SessionState.DOWNLOADING w))" .
  have "se_resuming (w_session w1)" "\<not> se_exiting (w_session w1)" "se_resume_queue (w_session w1) = []" "w_user w1 = w_user w0"
      "se_outbox (w_session w1) = se_outbox (w_session w0)"
    using c by (simp_all add: w1_def can_resume_def)
  then have "loaded w0 M e w" "se_outbox (w_session w) = se_outbox (w_session w0) @ [Json (go_response e name)]"
    using w1 pm(1) by (simp_all add: loaded_def w_def t_def)
  with h show ?thesis by blast
qed

section \<open>The client goes on\<close>

lemma stoul_dec: "n < 4294967296 \<Longrightarrow> stoul (dec n) = Some (of_nat n)"
proof -
  assume n: "n < 4294967296"
  obtain a as where a: "dec n = a # as" "is_digit a" using dec_digits [of n] by (cases "dec n") auto
  then have "\<not> is_space a" "a \<noteq> CHR ''-''" "a \<noteq> CHR ''+''" by (auto simp: is_digit_def is_space_def less_eq_char_def)
  then have sign: "read_sign (dropWhile is_space (dec n)) = (False, dec n)" using a by (simp add: read_sign_def)
  have ds: "takeWhile is_digit (dec n) = dec n" using dec_digits [of n] by (simp add: takeWhile_eq_all_conv)
  have "dec n \<noteq> []" using a(1) by simp
  then show ?thesis unfolding stoul_def sign prod.case Let_def ds using n by simp
qed

lemma words_head: "w \<noteq> [] \<Longrightarrow> list_all (\<lambda>c. \<not> is_space c) w \<Longrightarrow> \<exists>ws. words (w @ '' '' @ s) = w # ws"
proof -
  assume w: "w \<noteq> []" "list_all (\<lambda>c. \<not> is_space c) w"
  then have "dropWhile is_space (w @ '' '' @ s) = w @ '' '' @ s" by (cases w) simp_all
  moreover have "takeWhile (\<lambda>c. \<not> is_space c) (w @ '' '' @ s) = w"
    using w(2) by (subst takeWhile_append2) (auto simp: list_all_iff is_space_def)
  ultimately have "words (w @ '' '' @ s) = w # words (dropWhile (\<lambda>c. \<not> is_space c) (w @ '' '' @ s))"
    using w(1) by (subst words.simps) (simp only: Let_def append_is_Nil_conv simp_thms if_False)
  then show ?thesis by blast
qed

lemma type_words: "\<exists>ws. words (type_to_string ty @ '' '' @ s) = type_to_string ty # ws"
  by (rule words_head) (cases ty; simp add: type_to_string_def is_space_def)+

text \<open>The client with the transfer loaded from its own table.\<close>

definition picked_up :: "Client \<Rightarrow> PartialMetadataEntry \<Rightarrow> Client \<Rightarrow> bool" where
  "picked_up c0 e c \<longleftrightarrow> \<not> cl_batch_active c \<and> \<not> te_exiting c \<and> cl_disk c = cl_disk c0 \<and> cl_partmeta c = cl_partmeta c0 \<and>
     fm_absolute_path (at_fmeta (cl_transfer c)) = pe_absolute_path e \<and> fm_hash (at_fmeta (cl_transfer c)) = pe_file_hash e \<and>
     at_chunks (cl_transfer c) = pe_chunks e \<and> at_chunk_state (cl_transfer c) = pe_chunk_state e"

lemma resume_read:
  assumes c: "says_yes c0 c" and i: "map_of (pm_entries (cl_partmeta c0)) (pe_id e) = Some ec" and J: "json_laws (env_json E)"
    and ty: "pe_type e = (if up then TransferType.UPLOAD else TransferType.DOWNLOAD)"
  shows "\<exists>c1. handle_response E (response_to_json (env_json E) (go_response e name)) c =
      (if up then client_uploading (c1\<lparr>cl_state := ClientState.UPLOADING\<rparr>) else Some (c1\<lparr>cl_state := ClientState.DOWNLOADING\<rparr>)) \<and>
    picked_up c0 ec c1 \<and> cl_outbox c1 = cl_outbox c \<and> at_transfer_id (cl_transfer c1) = (if up then pe_id e else UINT32_MAX) \<and>
    (\<not> up \<longrightarrow> at_partial_path (cl_transfer c1) = get_partial_path (cl_disk c0) (cl_partmeta c0) (pe_id e))"
proof -
  define c2 where "c2 = print code_OK (res_message (go_response e name)) True
     (c\<lparr>cl_log := cl_log c @ [Incoming (jdump (env_json E) (response_to_json (env_json E) (go_response e name)))]\<rparr>)"
  have f: "cl_partmeta c2 = cl_partmeta c0" "cl_disk c2 = cl_disk c0" "\<not> cl_batch_active c2" "\<not> te_exiting c2" "cl_outbox c2 = cl_outbox c"
    using c by (simp_all add: c2_def says_yes_def print_def put_out_def)
  have n: "unat (pe_id e) < 4294967296" by (rule unat_u32_less)
  then have id: "stoul (res_file_hash (go_response e name)) = Some (of_nat (unat (pe_id e)))" by (simp add: go_response_def response_def stoul_dec)
  have id': "ucast (ucast v :: u64) = v" for v :: u32 by (rule bit_word_eqI) (simp add: bit_unsigned_iff)
  obtain ws where ws: "words (res_message (go_response e name)) = type_to_string (pe_type e) # ws"
    using type_words [of "pe_type e" name] by (auto simp: go_response_def response_def)
  have ne: "res_file_hash (go_response e name) \<noteq> []" using dec_digits by (simp add: go_response_def response_def)
  have st: "res_status (go_response e name) = ''RESUME''" "res_code (go_response e name) = code_OK" by (simp_all add: go_response_def response_def)
  have "handle_response E (response_to_json (env_json E) (go_response e name)) c = resume_transfer_client E (go_response e name) c2"
    using c ne st by (simp add: handle_response_def response_roundtrip [OF J] respond_def Let_def says_yes_def c2_def)
  moreover define c1 where "c1 = c2\<lparr>cl_transfer := (cl_transfer c2)\<lparr>at_fmeta := (at_fmeta (cl_transfer c2))\<lparr>fm_absolute_path := pe_absolute_path ec,
      fm_size := pe_size ec, fm_hash := pe_file_hash ec\<rparr>, at_chunks := pe_chunks ec, at_chunk_state := pe_chunk_state ec,
      at_transfer_id := (if up then pe_id e else UINT32_MAX),
      at_partial_path := (if up then at_partial_path (cl_transfer c2) else get_partial_path (cl_disk c0) (cl_partmeta c0) (pe_id e))\<rparr>\<rparr>"
  ultimately show ?thesis
    using f ty by (intro exI [of _ c1], cases up) (simp_all add: resume_transfer_client_def id id' ws i get_entry_def Let_def type_to_string_def picked_up_def c1_def)
qed

text \<open>The last word of the session, after the queue has run empty.\<close>

lemma ready_read:
  assumes "at_prompt c" and "json_laws (env_json E)"
  shows "\<exists>c'. handle_response E (response_to_json (env_json E) (response ''OK'' code_OK ''Ready.'' [])) c = Some c' \<and> at_prompt c' \<and>
    cl_outbox c' = cl_outbox c \<and> cl_disk c' = cl_disk c"
  using assms(1) by (simp add: handle_response_def response_roundtrip [OF assms(2)] respond_def response_def Let_def handle_ok_def at_prompt_def
      command_finished_def read_line_def print_def put_out_def)

lemma last_word:
  assumes "at_prompt c" and "json_laws (env_json E)" and "se_outbox (w_session w) = rs @ all_resumed True"
  shows "\<exists>c'. link_step E Es (link_at c w 0 1) = Some (link_at c' w 0 0) \<and> at_prompt c' \<and> cl_disk c' = cl_disk c"
proof -
  obtain c' where c': "handle_response E (response_to_json (env_json E) (response ''OK'' code_OK ''Ready.'' [])) c = Some c'" "at_prompt c'"
      "cl_outbox c' = cl_outbox c" "cl_disk c' = cl_disk c"
    using ready_read [OF assms(1,2)] by blast
  have "client_read_next c = Expect_json" using assms(1) by (simp add: client_read_next_def at_prompt_def)
  then have "link_step E Es (link_at c w 0 1) = Some (link_at c' w 0 0)"
    using down_step [of w rs "Json (response ''OK'' code_OK ''Ready.'' [])" "[]" E c c' "[]" Es] assms(3) c'(1,3)
    by (simp add: all_resumed_def to_client_def)
  with c' show ?thesis by blast
qed

lemma resumed_run:
  assumes "link_run E Es 2 l = Some l1" and "link_run E Es (2 * Suc m) l1 = Some l2" and "link_step E Es l2 = Some l3" and "k + Suc m = n"
  shows "link_run E Es (2 * (n - k) + 3) l = Some l3"
proof -
  have "link_run E Es (2 + 2 * Suc m + 1) l = Some l3"
    by (simp only: link_run_add assms(1,2) bind.bind_lunit) (simp add: assms(3))
  moreover have "2 + 2 * Suc m + 1 = 2 * (n - k) + 3" using assms(4) by simp
  ultimately show ?thesis by (simp only:)
qed

section \<open>A resumed upload\<close>

text \<open>
  The client has the file \<^verbatim>\<open>q\<close> and an entry for its upload with \<^verbatim>\<open>k\<close> chunks acknowledged; the session has an
  entry for it and a partial file with at least these chunks.
\<close>

definition can_send_on :: "'j client_env \<Rightarrow> Client \<Rightarrow> apath \<Rightarrow> apath \<Rightarrow> bytes \<Rightarrow> u32 \<Rightarrow> nat \<Rightarrow> bool" where
  "can_send_on E c M q x i k \<longleftrightarrow> asked_to_resume E c \<and> sender_ok E c M q x \<and> k < chunks_of x \<and>
     (\<exists>e. map_of (pm_entries (cl_partmeta c)) i = Some e \<and> describes (env_sodium E) x q TransferType.UPLOAD i e \<and>
        pe_chunk_state e = marks (chunks_of x) k)"

definition can_store_on :: "'j env \<Rightarrow> world \<Rightarrow> apath \<Rightarrow> apath \<Rightarrow> bytes \<Rightarrow> u32 \<Rightarrow> nat \<Rightarrow> bool" where
  "can_store_on E w M dst x i k \<longleftrightarrow> may_store w M dst i \<and>
     (\<exists>e. can_resume E w M e \<and> describes (env_sodium E) x dst TransferType.UPLOAD i e) \<and>
     (\<exists>j\<ge>k. lookup (w_disk w) (part_of M i) = Some (File (take (j * 262144) x)))"

lemma upload_taken_up:
  assumes L: "link_laws E Es" and c: "can_send_on E c0 mc q x i k" and w: "can_store_on Es w0 M dst x i k" and y: "says_yes c0 c"
  shows "\<exists>l. link_run E Es 2 (link_at c w0 1 0) = Some l \<and> upload_turn E Es c0 mc q x i w0 M dst True k l"
proof -
  have J: "json_laws (env_json E)" "json_laws (env_json Es)" and e: "env_sodium Es = env_sodium E" "env_json Es = env_json E"
    using L by (simp_all add: link_laws_def)
  obtain e where r: "can_resume Es w0 M e" and ds: "describes (env_sodium E) x dst TransferType.UPLOAD i e"
    using w e by (auto simp: can_store_on_def)
  obtain ec where ec: "map_of (pm_entries (cl_partmeta c0)) i = Some ec" "describes (env_sodium E) x q TransferType.UPLOAD i ec"
      "pe_chunk_state ec = marks (chunks_of x) k" and k: "k < chunks_of x" and sn: "sender_ok E c0 mc q x"
    using c by (auto simp: can_send_on_def)
  have i: "pe_id e = i" "pe_type e = TransferType.UPLOAD" using ds by (simp_all add: describes_def)
  obtain w1 name where w1: "handle_request Es (request_to_json (env_json Es) yes_request) w0 = Some (set_state SessionState.UPLOADING w1)"
      "loaded w0 M e w1" "se_outbox (w_session w1) = se_outbox (w_session w0) @ [Json (go_response e name)]"
    using answer_taken [OF r J(2)] i(2) by auto
  define w2 where "w2 = set_state SessionState.UPLOADING w1"
  have o2: "se_outbox (w_session w2) = se_outbox (w_session w0) @ [Json (go_response e name)]" using w1(3) by (simp add: w2_def)
  have "read_next w0 = Expect_json" using r by (simp add: read_next_def can_resume_def)
  moreover have oc: "cl_outbox c = cl_outbox c0 @ [Send_Request yes_request]" using y by (simp add: says_yes_def)
  ultimately have going: "link_step E Es (link_at c w0 1 0) = Some (link_at c w2 0 1)"
    using up_step [OF oc, of Es w0 w2 "[Json (go_response e name)]" E] w1(1) o2 by (simp add: to_server_def w2_def)
  obtain c1 where c1: "handle_response E (response_to_json (env_json E) (go_response e name)) c = client_uploading (c1\<lparr>cl_state := ClientState.UPLOADING\<rparr>)"
      "picked_up c0 ec c1" "cl_outbox c1 = cl_outbox c" "at_transfer_id (cl_transfer c1) = i"
    using resume_read [OF y _ J(1), of e ec True name] ec(1) i by auto
  define c2 where "c2 = c1\<lparr>cl_state := ClientState.UPLOADING\<rparr>"
  have s2: "sending (env_sodium E) c0 q x i k c2"
    using c1(2,4) ec by (simp add: sending_def c2_def picked_up_def describes_def)
  define c3 where "c3 = client_send_chunk (data_header i x k) (slice x k) c2"
  have u: "client_uploading c2 = Some c3" using send_next [OF _ s2 k] sn by (simp add: sender_ok_def c3_def)
  have c3: "sending (env_sodium E) c0 q x i k c3" "cl_outbox c3 = cl_outbox c @ [Send_Chunk (data_header i x k) (slice x k)]"
    using s2 c1(3) by (simp_all add: sending_def c3_def c2_def client_send_chunk_def)
  have "client_read_next c = Expect_json" using y by (simp add: client_read_next_def says_yes_def)
  then have coming: "link_step E Es (link_at c w2 0 1) = Some (link_at c3 w2 1 0)"
    using down_step [OF o2, of E c c3 "[Send_Chunk (data_header i x k) (slice x k)]" Es] c1(1) u c3(2) by (simp add: to_client_def c2_def)
  have ms: "may_store w0 M dst i" using w by (simp add: can_store_on_def)
  have "storing (env_sodium Es) w0 dst x True w2" "filled w0 M x i k w2"
    using w1(2) ds r w e by (auto simp: storing_def filled_def loaded_def describes_def w2_def can_resume_def can_store_on_def
        may_store_def room_def part_filled_def)
  then have "upload_turn E Es c0 mc q x i w0 M dst True k (link_at c3 w2 1 0)"
    unfolding upload_turn_def using L sn ms c3 ready_filled [OF ms] by blast
  then show ?thesis using going coming by (simp add: numeral_2_eq_2)
qed

text \<open>
  Property (C6). An interrupted upload is completed: when the user answers \<^verbatim>\<open>y\<close> to the question of the
  session about its last unfinished transfer, client and session agree on it through the id and their two
  tables, the client sends the chunks from the first one without acknowledgement on, although the
  session may have some of them already, and each message arrives where its framing is expected. Then the
  client is back at its prompt, the session is ready with the lock released, the server has exactly
  the content of the local file at its place, the partial file is gone, and nothing else has changed
  there but the table of transfers.
\<close>

theorem upload_resumes:
  assumes "link_laws E Es" and "can_send_on E c mc q x i k" and "can_store_on Es w M dst x i k"
  shows "\<exists>c1 l. client_handle_request E ''y'' c = Some c1 \<and>
    link_run E Es (2 * (chunks_of x - k) + 3) (link_at c1 w 1 0) = Some l \<and> idle_link l \<and>
    cl_state (ln_client l) = ClientState.READY \<and> te_reading_line (ln_client l) \<and> w_state (ln_world l) = SessionState.READY \<and>
    locked (w_storage (ln_world l)) = locked (w_storage w) \<and> lookup (w_disk (ln_world l)) dst = Some (File x) \<and>
    lookup (w_disk (ln_world l)) (part_of M i) = None \<and>
    (\<forall>p. p \<notin> {dst, M, tmp_of M, part_of M i} \<longrightarrow> lookup (w_disk (ln_world l)) p = lookup (w_disk w) p)"
proof -
  have J: "json_laws (env_json E)" using assms(1) by (simp add: link_laws_def)
  have k: "k + Suc (chunks_of x - k - 1) = chunks_of x" using assms(2) by (auto simp: can_send_on_def)
  obtain c1 where c1: "client_handle_request E ''y'' c = Some c1" "says_yes c c1"
    using yes_sent assms(2) by (auto simp: can_send_on_def)
  obtain l1 where l1: "link_run E Es 2 (link_at c1 w 1 0) = Some l1" "upload_turn E Es c mc q x i w M dst True k l1"
    using upload_taken_up [OF assms c1(2)] by blast
  obtain l2 where l2: "link_run E Es (2 * Suc (chunks_of x - k - 1)) l1 = Some l2" "upload_final w M dst x i True l2"
    using up.remaining_turns [OF l1(2) k] by blast
  obtain c2 w2 rs where f: "l2 = link_at c2 w2 0 1" "at_prompt c2" "stored w M dst x i w2" "se_outbox (w_session w2) = rs @ all_resumed True"
    using l2(2) by (auto simp: upload_final_def all_resumed_def)
  obtain c3 where c3: "link_step E Es l2 = Some (link_at c3 w2 0 0)" "at_prompt c3"
    using last_word [OF f(2) J f(4)] f(1) by blast
  show ?thesis using resumed_run [OF l1(1) l2(1) c3(1) k] c1(1) c3(2) f(3)
    by (intro exI [of _ c1] exI [of _ "link_at c3 w2 0 0"]) (simp only: link_at_parts idle_at at_prompt_def stored_def simp_thms, blast)
qed

section \<open>A resumed download\<close>

definition can_fetch_on :: "'j client_env \<Rightarrow> Client \<Rightarrow> apath \<Rightarrow> apath \<Rightarrow> bytes \<Rightarrow> u32 \<Rightarrow> nat \<Rightarrow> bool" where
  "can_fetch_on E c M dst x i k \<longleftrightarrow> asked_to_resume E c \<and> may_fetch c M dst i \<and> spells (cwd (cl_disk c)) (pm_metadata_file (cl_partmeta c)) M \<and>
     (\<exists>e. map_of (pm_entries (cl_partmeta c)) i = Some e \<and> describes (env_sodium E) x dst TransferType.DOWNLOAD i e) \<and>
     (\<exists>j\<ge>k. lookup (cl_disk c) (part_of M i) = Some (File (take (j * 262144) x)))"

definition can_serve_on :: "'j env \<Rightarrow> world \<Rightarrow> apath \<Rightarrow> apath \<Rightarrow> bytes \<Rightarrow> u32 \<Rightarrow> nat \<Rightarrow> bool" where
  "can_serve_on E w M q x i k \<longleftrightarrow> may_serve E w M q x \<and> k < chunks_of x \<and>
     (\<exists>e. can_resume E w M e \<and> describes (env_sodium E) x q TransferType.DOWNLOAD i e \<and> pe_chunk_state e = marks (chunks_of x) k)"

text \<open>The client names the transfer by the first chunk; the entry and the partial file are there already.\<close>

lemma adopt_existing:
  assumes c: "can_fetch_on E c0 M dst x i k" and f: "fetching (env_sodium E) dst x c" and u: "unnamed c0 c"
  shows "fetch_ready E c0 M dst x i k c"
proof -
  obtain e j where e: "map_of (pm_entries (cl_partmeta c0)) i = Some e" "length (pe_chunk_state e) = chunks_of x"
    and j: "j \<ge> k" "lookup (cl_disk c0) (part_of M i) = Some (File (take (j * 262144) x))"
    using c by (auto simp: can_fetch_on_def describes_def)
  have s: "spells (cwd (cl_disk c0)) (pm_metadata_file (cl_partmeta c0)) M" "i \<noteq> UINT32_MAX" "wf_disk (cl_disk c0)"
      "list_all plain_name (cwd (cl_disk c0))" "faults (cl_disk c0) = []"
    using c by (simp_all add: can_fetch_on_def may_fetch_def room_def)
  have u': "at_transfer_id (cl_transfer c) = UINT32_MAX" "cl_disk c = cl_disk c0" "cl_partmeta c = cl_partmeta c0"
    using u by (simp_all add: unnamed_def)
  have ad: "add_partial_metadata now (cl_partmeta c0) ty fm cs i = (i, cl_partmeta c0)" for now ty fm cs
    using s(2) e(1) by (simp add: add_partial_metadata_def emplace_def)
  have pp: "get_partial_path (cl_disk c0) (cl_partmeta c0) i = Abs (part_of M i)"
    using partial_path_is [OF s(3,4,1)] e(1) by simp
  have "is_file (cl_disk c0) (Abs (part_of M i))"
    using j(2) locate_plain_Abs [OF s(3), of "part_of M i"] by (simp add: is_file_def fs_is_regular_file_def status_def)
  then have "adopt_id E i c = Some (c\<lparr>cl_partmeta := cl_partmeta c0, cl_transfer := (cl_transfer c)\<lparr>at_transfer_id := i, at_partial_path := Abs (part_of M i)\<rparr>\<rparr>)"
    using u' by (simp add: adopt_id_def download_prepare_partmeta_def set_id_def Let_def ad pp path_empty_def)
  moreover have "part_filled (cl_disk c0) M x i k (cl_disk c0)" using j s(3,5) by (auto simp: part_filled_def)
  ultimately show ?thesis using f e s(1) u' by (simp add: fetch_ready_def fetching_def gathered_def)
qed

lemma download_taken_up:
  assumes L: "link_laws E Es" and c: "can_fetch_on E c0 mc dst x i k" and w: "can_serve_on Es w0 M q x i k" and y: "says_yes c0 c"
  shows "\<exists>l. link_run E Es 2 (link_at c w0 1 0) = Some l \<and> download_turn E Es c0 mc dst i w0 M q x True k l"
proof -
  have J: "json_laws (env_json E)" "json_laws (env_json Es)" and same: "env_sodium Es = env_sodium E"
    using L by (simp_all add: link_laws_def)
  obtain e where r: "can_resume Es w0 M e" and ds: "describes (env_sodium E) x q TransferType.DOWNLOAD i e"
    and mk: "pe_chunk_state e = marks (chunks_of x) k" and sv: "may_serve Es w0 M q x" and k: "k < chunks_of x"
    using w same by (auto simp: can_serve_on_def)
  obtain ec where ec: "map_of (pm_entries (cl_partmeta c0)) i = Some ec" "describes (env_sodium E) x dst TransferType.DOWNLOAD i ec"
    using c by (auto simp: can_fetch_on_def)
  have i: "pe_id e = i" "pe_type e = TransferType.DOWNLOAD" using ds by (simp_all add: describes_def)
  obtain w1 name where w1: "handle_request Es (request_to_json (env_json Es) yes_request) w0 = downloading (set_state SessionState.DOWNLOADING w1)"
      "loaded w0 M e w1" "se_outbox (w_session w1) = se_outbox (w_session w0) @ [Json (go_response e name)]"
    using answer_taken [OF r J(2)] i(2) by auto
  define w2 where "w2 = send_msg (Chunk (data_header i x k) (slice x k)) (set_state SessionState.DOWNLOADING w1)"
  have s1: "serving (env_sodium E) w0 M q x i True k (set_state SessionState.DOWNLOADING w1)"
    using w1(2) ds mk r by (auto simp: serving_def loaded_def describes_def can_resume_def)
  have "sendable (env_sodium E) (w_disk w0) q x" using sv same by (simp add: may_serve_def)
  from serve_next [OF this s1 k] have h: "handle_request Es (request_to_json (env_json Es) yes_request) w0 = Some w2" by (simp add: w1(1) w2_def)
  have s2: "serving (env_sodium E) w0 M q x i True k w2" using s1 by (simp add: w2_def)
  have o2: "se_outbox (w_session w2) = se_outbox (w_session w0) @ [Json (go_response e name), Chunk (data_header i x k) (slice x k)]"
    using w1(3) by (simp add: w2_def)
  have "read_next w0 = Expect_json" using r by (simp add: read_next_def can_resume_def)
  moreover have oc: "cl_outbox c = cl_outbox c0 @ [Send_Request yes_request]" using y by (simp add: says_yes_def)
  ultimately have going: "link_step E Es (link_at c w0 1 0) = Some (link_at c w2 0 2)"
    using up_step [OF oc, of Es w0 w2 "[Json (go_response e name), Chunk (data_header i x k) (slice x k)]" E] h o2
    by (simp add: to_server_def numeral_2_eq_2)
  obtain c1 where c1: "handle_response E (response_to_json (env_json E) (go_response e name)) c = Some (c1\<lparr>cl_state := ClientState.DOWNLOADING\<rparr>)"
      "picked_up c0 ec c1" "cl_outbox c1 = cl_outbox c" "at_transfer_id (cl_transfer c1) = UINT32_MAX"
    using resume_read [OF y _ J(1), of e ec False name] ec(1) i by auto
  define c2 where "c2 = c1\<lparr>cl_state := ClientState.DOWNLOADING\<rparr>"
  have "client_read_next c = Expect_json" using y by (simp add: client_read_next_def says_yes_def)
  then have coming: "link_step E Es (link_at c w2 0 2) = Some (link_at c2 w2 0 1)"
    using down_step [OF o2, of E c c2 "[]" Es] c1(1,3) by (simp add: to_client_def numeral_2_eq_2 c2_def)
  have "fetching (env_sodium E) dst x c2" "unnamed c0 c2"
    using c1(2,4) ec(2) by (simp_all add: fetching_def unnamed_def picked_up_def describes_def c2_def)
  then have "fetch_ready E c0 mc dst x i k c2" by (rule adopt_existing [OF c])
  moreover have "se_outbox (w_session w2) = (se_outbox (w_session w0) @ [Json (go_response e name)]) @ [Chunk (data_header i x k) (slice x k)]"
    using o2 by simp
  moreover have "may_fetch c0 mc dst i" using c by (simp add: can_fetch_on_def)
  ultimately have "download_turn E Es c0 mc dst i w0 M q x True k (link_at c2 w2 0 1)"
    unfolding download_turn_def using L sv s2 by blast
  then show ?thesis using going coming by (simp add: numeral_2_eq_2)
qed

text \<open>
  Property (C7). An interrupted download is completed in the same way: the session goes on with the first
  chunk without acknowledgement, the client keeps its partial file and writes again what comes again.
  Then the client is back at its prompt and has exactly the content of the remote file at its
  place, the session is ready with the lock released, and on neither side anything else has changed but
  the partial file, which is gone, and the tables of transfers.
\<close>

theorem download_resumes:
  assumes "link_laws E Es" and "can_fetch_on E c mc dst x i k" and "can_serve_on Es w M q x i k"
  shows "\<exists>c1 l. client_handle_request E ''y'' c = Some c1 \<and>
    link_run E Es (2 * (chunks_of x - k) + 3) (link_at c1 w 1 0) = Some l \<and> idle_link l \<and>
    cl_state (ln_client l) = ClientState.READY \<and> te_reading_line (ln_client l) \<and> lookup (cl_disk (ln_client l)) dst = Some (File x) \<and>
    (\<forall>p. p \<notin> {dst, mc, tmp_of mc, part_of mc i} \<longrightarrow> lookup (cl_disk (ln_client l)) p = lookup (cl_disk c) p) \<and>
    w_state (ln_world l) = SessionState.READY \<and> locked (w_storage (ln_world l)) = locked (w_storage w) \<and>
    (\<forall>p. p \<notin> {M, tmp_of M} \<longrightarrow> lookup (w_disk (ln_world l)) p = lookup (w_disk w) p)"
proof -
  have J: "json_laws (env_json E)" using assms(1) by (simp add: link_laws_def)
  have k: "k + Suc (chunks_of x - k - 1) = chunks_of x" using assms(3) by (auto simp: can_serve_on_def)
  obtain c1 where c1: "client_handle_request E ''y'' c = Some c1" "says_yes c c1"
    using yes_sent assms(2) by (auto simp: can_fetch_on_def)
  obtain l1 where l1: "link_run E Es 2 (link_at c1 w 1 0) = Some l1" "download_turn E Es c mc dst i w M q x True k l1"
    using download_taken_up [OF assms c1(2)] by blast
  obtain l2 where l2: "link_run E Es (2 * Suc (chunks_of x - k - 1)) l1 = Some l2" "download_final c mc dst x i w M True l2"
    using down.remaining_turns [OF l1(2) k] by blast
  obtain c2 w2 rs where f: "l2 = link_at c2 w2 0 1" "fetched c mc dst x i c2" "served w M w2" "se_outbox (w_session w2) = rs @ all_resumed True"
    using l2(2) by (auto simp: download_final_def all_resumed_def)
  have "at_prompt c2" using f(2) by (simp add: fetched_def)
  then obtain c3 where c3: "link_step E Es l2 = Some (link_at c3 w2 0 0)" "at_prompt c3" "cl_disk c3 = cl_disk c2"
    using last_word [OF _ J f(4)] f(1) by blast
  show ?thesis using resumed_run [OF l1(1) l2(1) c3(1) k] c1(1) c3(2) f(2,3)
    by (intro exI [of _ c1] exI [of _ "link_at c3 w2 0 0"]) (simp only: link_at_parts idle_at at_prompt_def fetched_def served_def c3(3) simp_thms, blast)
qed

section \<open>Examples\<close>

text \<open>A transfer of two bytes, acknowledged by nobody although the receiver has them.\<close>

definition demo_entry :: "TransferType \<Rightarrow> apath \<Rightarrow> PartialMetadataEntry" where
  "demo_entry ty p = \<lparr>pe_id = 1, pe_absolute_path = Abs p, pe_size = 2, pe_file_hash = hash_chunk sodium_ref [1, 2], pe_type = ty,
     pe_chunks = plan sodium_ref [1, 2], pe_chunk_state = [False], pe_last_activity = 0\<rparr>"

definition demo_table :: "apath \<Rightarrow> TransferType \<Rightarrow> apath \<Rightarrow> PartialMetadata" where
  "demo_table M ty p = \<lparr>pm_metadata_file = Abs M, pm_entries = [(1, demo_entry ty p)], pm_next_id = 2, pm_free_ids = []\<rparr>"

definition demo_asked :: "(apath \<times> node) list \<Rightarrow> apath \<Rightarrow> TransferType \<Rightarrow> apath \<Rightarrow> Client" where
  "demo_asked ns M ty p = demo_client\<lparr>cl_state := ClientState.NEED_INPUT_RESUME_TRANSFER, cl_disk := disk_of ns, cl_partmeta := demo_table M ty p\<rparr>"

abbreviation demo_M :: apath where "demo_M \<equiv> [''p'', ''.partial'', ''partmeta.json'']"

definition demo_asking :: "(apath \<times> node) list \<Rightarrow> TransferType \<Rightarrow> apath \<Rightarrow> world" where
  "demo_asking ns ty p = \<lparr>w_storage = (demo_storage (demo_nodes @ ns))\<lparr>sto_partmetas := [demo_table demo_M ty p], sto_user_lock := [(''bob'', False)]\<rparr>,
     w_session = new_session\<lparr>se_state := NEED_INPUT_RESUME_TREANSFER, se_username := ''bob'', se_partmeta := Some 0,
       se_resuming := True, se_resume_queue := [demo_entry ty p]\<rparr>\<rparr>"

lemma demo_part: "part_of M 1 = butlast M @ [''1.part'']"
proof -
  have "dec (unat (1 :: u32)) = ''1''" by code_simp
  then show ?thesis by (simp add: part_of_def)
qed

lemma demo_describes: "describes sodium_ref [1, 2] p ty 1 (demo_entry ty p)" "chunks_of [1, 2 :: u8] = 1" "[False] = marks 1 0"
  by (simp_all add: describes_def demo_entry_def chunks_of_def marks_def)

lemma demo_asked_resume: "asked_to_resume demo_sender (demo_asked ns M ty p)"
  by (simp add: asked_to_resume_def demo_asked_def demo_client_def oversize_def demo_sender_def demo_link_json_def)

lemma demo_can_resume:
  assumes "wf_disk (disk_of (demo_nodes @ ns))"
  shows "can_resume demo_receiver (demo_asking ns ty p) demo_M (demo_entry ty p)"
  using assms by (simp add: can_resume_def demo_asking_def new_session_def demo_storage_def try_acquire_user_lock_def the_pm_def demo_table_def
      spells_def plain_name_def) (simp add: demo_entry_def)

theorem upload_resumes_witness:
  "\<exists>c1 l. client_handle_request demo_sender ''y'' (demo_asked [([], Dir), ([''f''], File [1, 2])] [''m''] TransferType.UPLOAD [''f'']) = Some c1 \<and>
     link_run demo_sender demo_receiver 5 (link_at c1 (demo_asking [([''p'', ''.partial'', ''1.part''], File [1, 2])] TransferType.UPLOAD [''p'', ''files'', ''g'']) 1 0) = Some l \<and>
     lookup (w_disk (ln_world l)) [''p'', ''files'', ''g''] = Some (File [1, 2])"
proof -
  let ?c = "demo_asked [([], Dir), ([''f''], File [1, 2])] [''m''] TransferType.UPLOAD [''f'']"
  let ?ns = "[([''p'', ''.partial'', ''1.part''], File [1, 2])]"
  let ?w = "demo_asking ?ns TransferType.UPLOAD [''p'', ''files'', ''g'']"
  have wf: "wf_disk (disk_of (demo_nodes @ ?ns))" by (rule wf_disk_of) (simp_all add: demo_nodes_def plain_name_def)
  have "sender_ok demo_sender ?c [''m''] [''f''] [1, 2]"
    using demo_sendable by (simp add: sender_ok_def demo_envs)
      (simp add: demo_asked_def demo_client_def demo_table_def file_slot_def isdir_def tmp_of_def plain_name_def spells_def)
  then have c: "can_send_on demo_sender ?c [''m''] [''f''] [1, 2] 1 0"
    using demo_asked_resume demo_describes by (simp add: can_send_on_def demo_envs) (simp add: demo_asked_def demo_table_def, simp add: demo_entry_def)
  have "lookup (w_disk ?w) (part_of demo_M 1) = Some (File (take (1 * 262144) [1, 2]))"
    by (simp add: demo_part demo_asking_def demo_storage_def demo_nodes_def)
  moreover have "may_store ?w demo_M [''p'', ''files'', ''g''] 1"
    using wf by (simp add: may_store_def room_def demo_asking_def demo_storage_def locked_def demo_part file_slot_def isdir_def tmp_of_def free_place_def
        plain_name_def) (simp add: demo_nodes_def)
  ultimately have w: "can_store_on demo_receiver ?w demo_M [''p'', ''files'', ''g''] [1, 2] 1 0"
    unfolding can_store_on_def demo_envs using demo_can_resume [OF wf] demo_describes(1) le0 by blast
  from upload_resumes [OF demo_laws c w] show ?thesis by (auto simp: demo_describes(2))
qed

theorem download_resumes_witness:
  "\<exists>c1 l. client_handle_request demo_sender ''y'' (demo_asked [([], Dir), ([''t''], Dir), ([''t'', ''1.part''], File [1, 2])]
       [''t'', ''partmeta.json''] TransferType.DOWNLOAD [''h'']) = Some c1 \<and>
     link_run demo_sender demo_receiver 5 (link_at c1 (demo_asking [([''p'', ''files'', ''h''], File [1, 2])] TransferType.DOWNLOAD [''p'', ''files'', ''h'']) 1 0) = Some l \<and>
     lookup (cl_disk (ln_client l)) [''h''] = Some (File [1, 2])"
proof -
  let ?nc = "[([], Dir), ([''t''], Dir), ([''t'', ''1.part''], File [1, 2])]" and ?mc = "[''t'', ''partmeta.json'']"
  let ?c = "demo_asked ?nc ?mc TransferType.DOWNLOAD [''h'']"
  let ?ns = "[([''p'', ''files'', ''h''], File [1, 2])]"
  let ?w = "demo_asking ?ns TransferType.DOWNLOAD [''p'', ''files'', ''h'']"
  have wf: "wf_disk (disk_of (demo_nodes @ ?ns))" by (rule wf_disk_of) (simp_all add: demo_nodes_def plain_name_def)
  have wc: "wf_disk (disk_of ?nc)" by (rule wf_disk_of) (simp_all add: plain_name_def)
  have "lookup (cl_disk ?c) (part_of ?mc 1) = Some (File (take (1 * 262144) [1, 2]))"
    by (simp add: demo_part demo_asked_def)
  moreover have "may_fetch ?c ?mc [''h''] 1"
    using wc by (simp add: may_fetch_def room_def demo_asked_def demo_part file_slot_def isdir_def tmp_of_def free_place_def plain_name_def)
  moreover have "spells (cwd (cl_disk ?c)) (pm_metadata_file (cl_partmeta ?c)) ?mc"
    "map_of (pm_entries (cl_partmeta ?c)) 1 = Some (demo_entry TransferType.DOWNLOAD [''h''])"
    by (simp_all add: demo_asked_def demo_table_def spells_def plain_name_def)
  ultimately have c: "can_fetch_on demo_sender ?c ?mc [''h''] [1, 2] 1 0"
    unfolding can_fetch_on_def demo_envs using demo_asked_resume demo_describes(1) le0 by blast
  have "may_serve demo_receiver ?w demo_M [''p'', ''files'', ''h''] [1, 2]"
    using wf by (simp add: may_serve_def sendable_def demo_envs demo_hash demo_asking_def demo_storage_def locked_def file_slot_def isdir_def tmp_of_def
        plain_name_def) (simp add: demo_nodes_def)
  moreover have "pe_chunk_state (demo_entry TransferType.DOWNLOAD [''p'', ''files'', ''h'']) = marks (chunks_of [1, 2]) 0"
    using demo_describes(2,3) by (simp add: demo_entry_def)
  ultimately have w: "can_serve_on demo_receiver ?w demo_M [''p'', ''files'', ''h''] [1, 2] 1 0"
    unfolding can_serve_on_def demo_envs demo_describes(2) using demo_can_resume [OF wf] demo_describes(1) zero_less_one by blast
  from download_resumes [OF demo_laws c w] show ?thesis by (auto simp: demo_describes(2))
qed

end
