(* ===== verification/SyncLaws.thy ===== *)
theory SyncLaws
  imports SyncDiff
begin

text \<open>
  What the plan of \<^verbatim>\<open>compute_sync_plan\<close> does when its operations are carried out one by one with
  the contract of the single-item commands of the server.
\<close>

section \<open>Keys\<close>

text \<open>A key of a tree: the names below the synchronised directory, joined by slashes.\<close>

definition wf_key :: "string \<Rightarrow> bool" where
  "wf_key k \<longleftrightarrow> list_all proper_name (split_slash k)"

lemma join_split_slash [simp]: "join_slash (split_slash k) = k"
proof (induction k)
  case (Cons c k)
  obtain w ws where "split_slash k = w # ws" by (metis split_slash_nonempty neq_Nil_conv)
  with Cons show ?case by (cases ws) auto
qed simp

lemma wf_key_nonempty: "wf_key k \<Longrightarrow> k \<noteq> []"
  by (auto simp: wf_key_def proper_name_def)

lemma wf_key_path: "wf_key k \<Longrightarrow> path_of_string k = Rel (split_slash k)"
proof -
  assume k: "wf_key k"
  then have "\<forall>w\<in>set (split_slash k). w \<noteq> [] \<and> CHR ''/'' \<notin> set w"
    by (simp add: wf_key_def list_all_iff proper_name_def)
  then have wf: "wf_elements (split_slash k)"
    unfolding wf_elements_def by (metis in_set_butlastD list.set_intros(1))
  obtain c cs where c: "k = c # cs" using wf_key_nonempty [OF k] by (cases k) auto
  have "c \<noteq> CHR ''/''"
    using k c by (auto simp: wf_key_def proper_name_def)
  moreover have "elements k = split_slash k" using elements_join [OF wf] by simp
  ultimately show ?thesis using c by (simp add: path_of_string_def del: split_slash.simps)
qed

lemma remote_of_inj: "remote_of V j = remote_of V k \<longleftrightarrow> j = k"
  by (auto simp: remote_of_def join_remote_def Let_def)

lemma local_of_inj:
  assumes "wf_key j" and "wf_key k"
  shows "local_of V j = local_of V k \<longleftrightarrow> j = k"
proof -
  have "split_slash j = split_slash k \<longleftrightarrow> j = k" by (metis join_split_slash)
  moreover have "append_names a (split_slash j) = append_names a (split_slash k) \<longleftrightarrow> split_slash j = split_slash k" for a
    by (simp add: append_names_def)
  ultimately show ?thesis
    using assms by (auto simp: local_of_def wf_key_path path_append_def split: fpath.splits)
qed

definition under :: "string \<Rightarrow> string \<Rightarrow> bool" where
  "under d k \<longleftrightarrow> prefix (d @ ''/'') k"

lemma under_remote_of: "j \<noteq> [] \<Longrightarrow> under (remote_of V j) (remote_of V k) \<longleftrightarrow> under j k"
  by (auto simp: under_def remote_of_def join_remote_def Let_def)

lemma prefix_lexord_between:
  fixes p :: string
  assumes "p \<le> j" and "j \<le> k" and "prefix p k"
  shows "prefix p j"
  using assms
proof (induction p arbitrary: j k)
  case (Cons c p)
  obtain k' where k: "k = c # k'" "prefix p k'" using Cons.prems(3) by (cases k) auto
  then obtain d j' where j: "j = d # j'" using Cons.prems(1) by (cases j) auto
  then show ?case using Cons k by (auto simp: Cons_le_Cons)
qed simp

lemma prefix_le: "prefix p k \<Longrightarrow> p \<le> (k :: string)"
proof (induction p arbitrary: k)
  case (Cons c p)
  then show ?case by (cases k) (auto simp: Cons_le_Cons)
qed simp

lemma take_eq_prefix: "take (length p) k = p \<longleftrightarrow> prefix p k"
  by (metis append_eq_conv_conj prefix_def take_is_prefix)

lemma has_local_children_iff:
  assumes "omap_wf t"
  shows "has_local_children t d \<longleftrightarrow> (\<exists>k\<in>set (map fst t). under d k)"
proof -
  let ?p = "d @ ''/''"
  have take: "take (length d + 1) k = ?p \<longleftrightarrow> prefix ?p k" for k
    using take_eq_prefix [of ?p k] by simp
  have "(case dropWhile (\<lambda>(j, v). j < ?p) t of [] \<Rightarrow> False | (k, _) # _ \<Rightarrow> prefix ?p k) \<longleftrightarrow>
      (\<exists>k\<in>set (map fst t). prefix ?p k)" using assms
  proof (induction t)
    case (Cons e t)
    obtain k v where e: "e = (k, v)" by (cases e)
    show ?case
    proof (cases "k < ?p")
      case True
      then have "\<not> prefix ?p k"
        using prefix_le [of ?p k] by auto
      then show ?thesis using Cons e True by simp
    next
      case False
      then have "prefix ?p k" if "j \<in> set (map fst t)" "prefix ?p j" for j
        using that Cons.prems e prefix_lexord_between [of ?p k j] by auto
      then show ?thesis using e False by auto
    qed
  qed simp
  then show ?thesis unfolding has_local_children_def lower_bound_def take under_def .
qed

lemma all_keys_set: "set (all_keys l r b) = set (map fst l) \<union> set (map fst r) \<union> set (map fst b)"
proof -
  have "set (map fst (fold (\<lambda>(k, _). omap_put k ()) xs m)) = set (map fst xs) \<union> set (map fst m)"
    for xs :: "(string \<times> SyncEntry) list" and m
    by (induction xs arbitrary: m) (simp_all add: split_beta)
  then show ?thesis by (auto simp: all_keys_def)
qed

lemma all_keys_distinct: "distinct (all_keys l r b)"
proof -
  have "omap_wf (fold (\<lambda>(k, _). omap_put k ()) xs m)" if "omap_wf m" for xs :: "(string \<times> SyncEntry) list" and m
    using that by (induction xs arbitrary: m) auto
  then show ?thesis by (simp add: all_keys_def omap_wf_distinct)
qed


section \<open>The three-way merge\<close>

text \<open>What is at a path: a folder, or a file with a content, given by its hash.\<close>

datatype item = Folder | Body string

definition item_of :: "SyncEntry \<Rightarrow> item" where
  "item_of e = (if sy_is_directory e then Folder else Body (sy_hash e))"

definition at :: "tree \<Rightarrow> string \<Rightarrow> item option" where
  "at t k = map_option item_of (map_of t k)"

text \<open>
  The abstract specification: a side that still is what the baseline says takes the other side's
  value; when both changed differently the local value wins, except that a deletion never wins
  against a change. A local folder always stays.
\<close>

definition merged :: "item option \<Rightarrow> item option \<Rightarrow> item option \<Rightarrow> item option" where
  "merged l r b =
     (if l = Some Folder \<or> l = r then l
      else if l = b then r
      else if r = b then l
      else if l = None then r else l)"

datatype verdict = Skip | Replace | Reput | Get | Clash | Delete_Local | New | Removed | Forget
  | Keep_Dir | Make_Remote | Drop_Remote | Make_Local | Nothing

definition judge :: "tree \<Rightarrow> tree \<Rightarrow> tree \<Rightarrow> string \<Rightarrow> verdict" where
  "judge local remote baseline k =
     (case (map_of local k, map_of remote k, map_of baseline k) of
        (Some l, Some r, b) \<Rightarrow>
          if sy_is_directory l then Keep_Dir else if sy_hash l = sy_hash r then Skip
          else (case b of None \<Rightarrow> Clash
                | Some e \<Rightarrow> if sy_hash l = sy_hash e then Get else if sy_hash r = sy_hash e then Replace else Clash)
      | (Some l, None, b) \<Rightarrow>
          if sy_is_directory l then Make_Remote
          else (case b of None \<Rightarrow> New | Some e \<Rightarrow> if sy_hash l = sy_hash e then Delete_Local else Reput)
      | (None, Some r, b) \<Rightarrow>
          if sy_is_directory r
          then (case b of None \<Rightarrow> Make_Local | Some _ \<Rightarrow> if has_local_children local k then Nothing else Drop_Remote)
          else (case b of None \<Rightarrow> Get | Some e \<Rightarrow> if sy_hash r = sy_hash e then Removed else Get)
      | (None, None, Some _) \<Rightarrow> Forget
      | (None, None, None) \<Rightarrow> Nothing)"

text \<open>No path is a file in one tree and a folder in another.\<close>

definition same_kind :: "tree \<Rightarrow> tree \<Rightarrow> string \<Rightarrow> bool" where
  "same_kind s t k = (case (map_of s k, map_of t k) of
     (Some x, Some y) \<Rightarrow> sy_is_directory x = sy_is_directory y | _ \<Rightarrow> True)"

definition no_type_clash :: "tree \<Rightarrow> tree \<Rightarrow> tree \<Rightarrow> string \<Rightarrow> bool" where
  "no_type_clash local remote baseline k \<longleftrightarrow>
     same_kind local remote k \<and> same_kind local baseline k \<and> same_kind remote baseline k"

section \<open>The buckets\<close>

lemma fold_bucket:
  assumes "\<And>k st. k \<in> set ks \<Longrightarrow> g (f k st) = g st @ (if P k then [h k] else [])"
  shows "g (fold f ks st) = g st @ map h (filter P ks)"
  using assms by (induction ks arbitrary: st) auto

lemmas emit_defs = emit_upload_def emit_download_def emit_conflict_def note_conflict_def mkdir_remote_def
  keep_def skip_def drop_key_def

lemmas classify_defs = classify_def classify_dir_def classify_file_def emit_defs no_type_clash_def same_kind_def
  is_dir_entry_def judge_def Let_def

lemma classify_pre_deletes:
  "no_type_clash l r b k \<Longrightarrow> pl_pre_deletes (classify V l r b k st) = pl_pre_deletes st"
  by (auto simp: classify_defs split: option.splits)

lemma classify_mkdirs:
  "no_type_clash l r b k \<Longrightarrow> pl_mkdirs (classify V l r b k st) = pl_mkdirs st @
     (if judge l r b k = Make_Remote
      then [(sync_op MKDIR_REMOTE (remote_of V k))\<lparr>so_relative_path := k, so_entry := the (map_of l k)\<rparr>] else [])"
  by (auto simp: classify_defs split: option.splits)

lemma classify_deletes:
  "no_type_clash l r b k \<Longrightarrow> pl_deletes (classify V l r b k st) = pl_deletes st @
     (if judge l r b k \<in> {Replace, Clash} then [delete_op V k] else [])"
  by (auto simp: classify_defs split: option.splits)

lemma classify_rmdirs:
  "no_type_clash l r b k \<Longrightarrow> pl_rmdirs (classify V l r b k st) = pl_rmdirs st @
     (if judge l r b k = Drop_Remote
      then [(sync_op RMDIR_REMOTE (remote_of V k))\<lparr>so_relative_path_from := k\<rparr>] else [])"
  by (auto simp: classify_defs split: option.splits)

lemma classify_transfers:
  "no_type_clash l r b k \<Longrightarrow> pl_transfers (classify V l r b k st) = pl_transfers st @
     (if judge l r b k \<in> {Replace, Clash, Reput, Get}
      then [if judge l r b k = Get then file_op DOWNLOAD V k (the (map_of r k)) else file_op UPLOAD V k (the (map_of l k))]
      else [])"
  by (auto simp: classify_defs split: option.splits)

lemma classify_new:
  "no_type_clash l r b k \<Longrightarrow> pl_new_local_files (classify V l r b k st) = pl_new_local_files st @
     (if judge l r b k = New then [(k, the (map_of l k))] else [])"
  by (auto simp: classify_defs split: option.splits)

lemma classify_removed:
  "no_type_clash l r b k \<Longrightarrow> pl_removed_remote_files (classify V l r b k st) = pl_removed_remote_files st @
     (if judge l r b k = Removed then [(k, the (map_of r k))] else [])"
  by (auto simp: classify_defs split: option.splits)

lemma classify_local_mkdirs:
  "no_type_clash l r b k \<Longrightarrow> sp_local_mkdirs (classify V l r b k st) = sp_local_mkdirs st @
     (if judge l r b k = Make_Local then [local_of V k] else [])"
  by (auto simp: classify_defs split: option.splits)

lemma classify_local_deletes:
  "no_type_clash l r b k \<Longrightarrow> sp_local_deletes (classify V l r b k st) = sp_local_deletes st @
     (if judge l r b k = Delete_Local then [local_of V k] else [])"
  by (auto simp: classify_defs split: option.splits)

lemma classify_conflict_downloads:
  "no_type_clash l r b k \<Longrightarrow> pl_conflict_downloads (classify V l r b k st) = pl_conflict_downloads st @
     (if judge l r b k = Clash
      then [(sync_op CONFLICT_DOWNLOAD (remote_of V k))\<lparr>so_local_path := conflict_copy V k st\<rparr>] else [])"
  by (auto simp: classify_defs conflict_copy_def split: option.splits)

lemma merged_judge:
  assumes "no_type_clash l r b k" and "\<not> (judge l r b k = Nothing \<and> map_of r k \<noteq> None)"
  shows "merged (at l k) (at r k) (at b k) =
    (case judge l r b k of Drop_Remote \<Rightarrow> None | Delete_Local \<Rightarrow> None | Removed \<Rightarrow> None | Forget \<Rightarrow> None | Nothing \<Rightarrow> None
     | Get \<Rightarrow> at r k | Make_Local \<Rightarrow> at r k | _ \<Rightarrow> at l k)"
  using assms
  by (cases "map_of l k"; cases "map_of r k"; cases "map_of b k")
    (simp_all add: no_type_clash_def same_kind_def judge_def merged_def at_def item_of_def)

section \<open>Detected moves\<close>

lemma removed_by_hash_lookup:
  "map_of (removed_by_hash removed) h =
     (case filter (\<lambda>i. sy_hash (snd (removed ! i)) = h) [0..<length removed] of [] \<Rightarrow> None | is \<Rightarrow> Some is)"
proof -
  define f where "f = (\<lambda>i m. let h = sy_hash (snd (removed ! i)) in
         omap_put h ((case map_of m h of None \<Rightarrow> [] | Some is \<Rightarrow> is) @ [i]) m)"
  have "omap_wf (fold f ks []) \<and> map_of (fold f ks []) h =
      (case filter (\<lambda>i. sy_hash (snd (removed ! i)) = h) ks of [] \<Rightarrow> None | is \<Rightarrow> Some is)" for ks
    by (induction ks rule: rev_induct) (auto simp: f_def Let_def split: list.splits)
  then show ?thesis by (simp add: removed_by_hash_def f_def)
qed

text \<open>
  The detection pairs each moved new file with a removed file of the same content, uses no file
  twice, and the marks tell which ones it used.
\<close>

definition paired :: "sync_env \<Rightarrow> (string \<times> SyncEntry) list \<Rightarrow> (string \<times> SyncEntry) list \<Rightarrow> detection \<Rightarrow>
    (nat \<times> nat) list \<Rightarrow> bool" where
  "paired V removed new dt ps \<longleftrightarrow>
     distinct (map fst ps) \<and> distinct (map snd ps) \<and>
     (\<forall>(i, s)\<in>set ps. i < length new \<and> s < length removed \<and> sy_hash (snd (new ! i)) = sy_hash (snd (removed ! s))) \<and>
     dt_moves dt = map (\<lambda>(i, s). move_op V (new ! i) (fst (removed ! s))) ps \<and>
     length (dt_removed_consumed dt) = length removed \<and> length (dt_new_consumed dt) = length new \<and>
     (\<forall>s < length removed. dt_removed_consumed dt ! s \<longleftrightarrow> s \<in> snd ` set ps) \<and>
     (\<forall>i < length new. dt_new_consumed dt ! i \<longleftrightarrow> i \<in> fst ` set ps)"

lemma detect_move_paired:
  assumes "paired V removed new dt ps" and "i < length new" and "i \<notin> fst ` set ps"
  shows "\<exists>qs. paired V removed new (detect_move V removed new i dt) (ps @ qs) \<and> fst ` set qs \<subseteq> {i}"
proof (cases "map_of (removed_by_hash removed) (sy_hash (snd (new ! i)))")
  case None
  then show ?thesis using assms by (intro exI [of _ "[]"]) (simp add: detect_move_def)
next
  case (Some cs)
  show ?thesis
  proof (cases "find (\<lambda>c. \<not> dt_removed_consumed dt ! c) cs")
    case None
    then show ?thesis using assms Some by (intro exI [of _ "[]"]) (simp add: detect_move_def)
  next
    case (Some s)
    from Some have s: "s \<in> set cs" "\<not> dt_removed_consumed dt ! s"
      by (auto simp: find_Some_iff)
    have "cs = filter (\<lambda>j. sy_hash (snd (removed ! j)) = sy_hash (snd (new ! i))) [0..<length removed]"
      using \<open>map_of _ _ = Some cs\<close> unfolding removed_by_hash_lookup by (auto split: list.splits)
    with s(1) have "s < length removed" "sy_hash (snd (removed ! s)) = sy_hash (snd (new ! i))" by auto
    with assms s Some \<open>map_of _ _ = Some cs\<close> show ?thesis
      by (intro exI [of _ "[(i, s)]"]) (auto simp: detect_move_def paired_def nth_list_update)
  qed
qed

lemma detect_moves_paired: "\<exists>ps. paired V removed new (detect_moves V removed new) ps"
proof -
  let ?d0 = "\<lparr>dt_removed_consumed = replicate (length removed) False,
    dt_new_consumed = replicate (length new) False, dt_moves = []\<rparr>"
  let ?f = "detect_move V removed new"
  have "\<exists>ps. paired V removed new (fold ?f [0..<n] ?d0) ps \<and> fst ` set ps \<subseteq> {..<n}" if "n \<le> length new" for n
    using that
  proof (induction n)
    case 0
    then show ?case by (intro exI [of _ "[]"]) (simp add: paired_def)
  next
    case (Suc n)
    then obtain ps where ps: "paired V removed new (fold ?f [0..<n] ?d0) ps" "fst ` set ps \<subseteq> {..<n}" by auto
    then have "n \<notin> fst ` set ps" by blast
    with detect_move_paired [OF ps(1), of n] Suc.prems obtain qs where
      qs: "paired V removed new (?f n (fold ?f [0..<n] ?d0)) (ps @ qs)" "fst ` set qs \<subseteq> {n}" by auto
    from qs(2) ps(2) have "fst ` set (ps @ qs) \<subseteq> {..<Suc n}" by force
    with qs(1) show ?case by (intro exI [of _ "ps @ qs"]) simp
  qed
  from this [of "length new"] show ?thesis by (auto simp: detect_moves_def)
qed

section \<open>The order of the moves\<close>

lemma by_source_lookup:
  assumes "map_of (by_source moves) p = Some j"
  shows "j < length moves \<and> so_remote_path_from (moves ! j) = p"
proof -
  define f where "f = (\<lambda>i m. omap_put (so_remote_path_from (moves ! i)) i m)"
  have f: "f i m = omap_put (so_remote_path_from (moves ! i)) i m" for i m by (simp add: f_def)
  define Q where "Q j \<longleftrightarrow> so_remote_path_from (moves ! j) = p" for j
  have "omap_wf (fold f ks []) \<and> (\<forall>j. map_of (fold f ks []) p = Some j \<longrightarrow> j \<in> set ks \<and> Q j)" for ks
  proof (induction ks rule: rev_induct)
    case (snoc i ks)
    have "p = so_remote_path_from (moves ! i) \<longleftrightarrow> Q i" by (auto simp: Q_def)
    with snoc show ?case by (auto simp: f)
  qed simp
  with assms have "j \<in> set [0..<length moves] \<and> Q j" unfolding by_source_def f_def [symmetric] by blast
  then show ?thesis by (simp add: Q_def)
qed

lemma occupant_range: "occupant moves i = Some j \<Longrightarrow> j < length moves"
  by (auto simp: occupant_def dest: by_source_lookup split: option.splits if_splits)

lemma kahn_init_value:
  fixes moves :: "SyncOp list"
  defines "n \<equiv> length moves"
  shows "kahn_init moves =
    (map (\<lambda>j. filter (\<lambda>i. occupant moves i = Some j) [0..<n]) [0..<n],
     map (\<lambda>i. if occupant moves i = None then 0 else 1) [0..<n])"
proof -
  define f where "f = (\<lambda>i (succs, indeg :: nat list). case occupant moves i of None \<Rightarrow> (succs, indeg)
         | Some j \<Rightarrow> (succs[j := succs ! j @ [i]], indeg[i := indeg ! i + 1]))"
  have f: "f i (succs, indeg) = (case occupant moves i of None \<Rightarrow> (succs, indeg)
         | Some j \<Rightarrow> (succs[j := succs ! j @ [i]], indeg[i := indeg ! i + 1]))" for i succs indeg
    by (simp add: f_def)
  have "fold f [0..<m] (replicate n [], replicate n 0) =
    (map (\<lambda>j. filter (\<lambda>i. occupant moves i = Some j) [0..<m]) [0..<n],
     map (\<lambda>i. if i < m \<and> occupant moves i \<noteq> None then 1 else (0::nat)) [0..<n])" if "m \<le> n" for m
    using that
  proof (induction m)
    case 0
    then show ?case by (simp add: map_replicate_const)
  next
    case (Suc m)
    then have IH: "fold f [0..<m] (replicate n [], replicate n 0) =
      (map (\<lambda>j. filter (\<lambda>i. occupant moves i = Some j) [0..<m]) [0..<n],
       map (\<lambda>i. if i < m \<and> occupant moves i \<noteq> None then 1 else (0::nat)) [0..<n])" by simp
    show ?case
    proof (cases "occupant moves m")
      case None
      with IH show ?thesis by (auto simp: f less_Suc_eq)
    next
      case (Some j)
      with occupant_range [OF Some] Suc.prems IH show ?thesis
        by (auto simp: f nth_list_update less_Suc_eq n_def intro!: nth_equalityI)
    qed
  qed
  from this [of n] show ?thesis
    by (auto simp: kahn_init_def f_def n_def [symmetric])
qed

lemma fold_release:
  assumes "distinct js" and "\<forall>j\<in>set js. j < length d \<and> d ! j = 1"
  shows "fold release js (r, d) = (r @ js, map (\<lambda>i. if i \<in> set js then 0 else d ! i) [0..<length d])"
  using assms
proof (induction js arbitrary: r d)
  case (Cons j js)
  then have "fold release js (r @ [j], d[j := 0]) =
      (r @ [j] @ js, map (\<lambda>i. if i \<in> set js then 0 else d[j := 0] ! i) [0..<length d])"
    by (subst Cons.IH) (auto simp: nth_list_update)
  moreover have "release j (r, d) = (r @ [j], d[j := 0])" using Cons.prems by (simp add: release_def)
  ultimately show ?case using Cons.prems by (auto simp: nth_list_update)
qed (simp add: map_nth)

text \<open>The state of the loop: a pending move is ready exactly when its occupant, if any, was emitted.\<close>

definition kahn_inv :: "SyncOp list \<Rightarrow> nat list \<Rightarrow> nat list \<Rightarrow> nat list \<Rightarrow> bool" where
  "kahn_inv moves ready indeg ordered \<longleftrightarrow>
     distinct (ready @ ordered) \<and> set (ready @ ordered) \<subseteq> {..<length moves} \<and> length indeg = length moves \<and>
     (\<forall>i < length moves. indeg ! i = (case occupant moves i of None \<Rightarrow> 0 | Some j \<Rightarrow> if j \<in> set ordered then 0 else 1)) \<and>
     (\<forall>i < length moves. i \<in> set (ready @ ordered) \<longleftrightarrow> indeg ! i = 0) \<and>
     (\<forall>p < length ordered. case occupant moves (ordered ! p) of None \<Rightarrow> True | Some j \<Rightarrow> j \<in> set (take p ordered))"

lemma kahn_inv_step:
  assumes inv: "kahn_inv moves (ready @ [node]) indeg ordered"
    and js: "js = filter (\<lambda>i. occupant moves i = Some node) [0..<length moves]"
    and res: "fold release js (ready, indeg) = (ready', indeg')"
  shows "kahn_inv moves ready' indeg' (ordered @ [node])"
proof -
  let ?n = "length moves"
  have node: "node < ?n" "node \<notin> set ordered" "indeg ! node = 0" using inv by (auto simp: kahn_inv_def)
  have one: "\<forall>j\<in>set js. j < length indeg \<and> indeg ! j = 1" using inv js node by (auto simp: kahn_inv_def)
  have "distinct js" using js by simp
  from fold_release [OF this one, of ready] res have r: "ready' = ready @ js"
    and d: "indeg' = map (\<lambda>i. if i \<in> set js then 0 else indeg ! i) [0..<?n]"
    using inv by (auto simp: kahn_inv_def)
  have fresh: "j \<notin> set (ready @ [node] @ ordered)" if "j \<in> set js" for j
    using that one inv by (auto simp: kahn_inv_def)
  have prev: "case occupant moves node of None \<Rightarrow> True | Some j \<Rightarrow> j \<in> set ordered"
    using inv node by (auto simp: kahn_inv_def split: option.splits if_splits)
  have d_nth: "indeg' ! i = (if i \<in> set js then 0 else indeg ! i)" if "i < ?n" for i using that d by simp
  show ?thesis unfolding kahn_inv_def
  proof (intro conjI allI impI)
    show "distinct (ready' @ ordered @ [node])" using r fresh inv js by (auto simp: kahn_inv_def)
    show "set (ready' @ ordered @ [node]) \<subseteq> {..<?n}" using r js inv by (auto simp: kahn_inv_def)
    show "length indeg' = ?n" using d by simp
    show "indeg' ! i = (case occupant moves i of None \<Rightarrow> 0 | Some j \<Rightarrow> if j \<in> set (ordered @ [node]) then 0 else 1)"
      if "i < ?n" for i
      using that inv js by (auto simp: d_nth kahn_inv_def split: option.splits)
    show "i \<in> set (ready' @ ordered @ [node]) \<longleftrightarrow> indeg' ! i = 0" if "i < ?n" for i
      using that inv r by (auto simp: d_nth kahn_inv_def)
    show "case occupant moves ((ordered @ [node]) ! p) of None \<Rightarrow> True | Some j \<Rightarrow> j \<in> set (take p (ordered @ [node]))"
      if "p < length (ordered @ [node])" for p
      using that inv prev by (cases "p < length ordered") (auto simp: kahn_inv_def nth_append less_Suc_eq split: option.splits)
  qed
qed

lemma kahn_loop_ends:
  assumes "kahn_inv moves ready indeg ordered" and "length moves \<le> n + length ordered"
    and "succs = map (\<lambda>j. filter (\<lambda>i. occupant moves i = Some j) [0..<length moves]) [0..<length moves]"
  shows "\<exists>out indeg'. kahn_loop n succs ready indeg ordered = ([], out) \<and> kahn_inv moves [] indeg' out"
  using assms
proof (induction n arbitrary: ready indeg ordered)
  case 0
  have "length (ready @ ordered) \<le> length moves"
    using 0(1) by (metis kahn_inv_def card_lessThan card_mono distinct_card finite_lessThan)
  with 0(2) have "length ready = 0" unfolding length_append by linarith
  with 0(1) show ?case by auto
next
  case (Suc n)
  show ?case
  proof (cases ready rule: rev_cases)
    case Nil
    with Suc.prems(1) show ?thesis by auto
  next
    case (snoc r node)
    obtain ready' indeg' where res: "fold release (succs ! node) (r, indeg) = (ready', indeg')" by (metis surj_pair)
    have "node < length moves" using Suc.prems(1) snoc by (simp add: kahn_inv_def)
    then have "kahn_inv moves ready' indeg' (ordered @ [node])"
      using kahn_inv_step [OF Suc.prems(1) [unfolded snoc] refl] res Suc.prems(3) by simp
    from Suc.IH [OF this _ Suc.prems(3)] Suc.prems(2) snoc res show ?thesis by simp
  qed
qed

lemma kahn_run_ends: "\<exists>indeg. fst (kahn_run moves) = [] \<and> kahn_inv moves [] indeg (kahn moves)"
proof -
  let ?n = "length moves"
  let ?d = "map (\<lambda>i. if occupant moves i = None then 0 else (1::nat)) [0..<?n]"
  have "kahn_inv moves (filter (\<lambda>i. ?d ! i = 0) [0..<?n]) ?d []"
    by (auto simp: kahn_inv_def split: option.splits)
  from kahn_loop_ends [OF this _ refl, of ?n] show ?thesis
    by (auto simp: kahn_def kahn_run_def kahn_init_value)
qed

end
