(* ===== verification/SyncRun.thy ===== *)
theory SyncRun
  imports SyncLaws
begin

text \<open>
  The plan of a synchronisation carried out: the contract of the single-item commands on the two
  replicas, and that a plan takes both replicas to the three-way merge of the trees.
\<close>

section \<open>The commands\<close>

record replica =
  rp_local :: "fpath \<Rightarrow> item option"
  rp_remote :: "string \<Rightarrow> item option"

definition run_op :: "SyncOp \<Rightarrow> replica \<Rightarrow> replica option" where
  "run_op q S =
     (case so_type q of
        MKDIR_REMOTE \<Rightarrow>
          if rp_remote S (so_remote_path q) = None
          then Some (S\<lparr>rp_remote := (rp_remote S)(so_remote_path q \<mapsto> Folder)\<rparr>) else None
      | RMDIR_REMOTE \<Rightarrow>
          if rp_remote S (so_remote_path q) = Some Folder
          then Some (S\<lparr>rp_remote := (\<lambda>p. if p = so_remote_path q \<or> under (so_remote_path q) p then None else rp_remote S p)\<rparr>)
          else None
      | DELETE_REMOTE \<Rightarrow>
          (case rp_remote S (so_remote_path q) of
             Some (Body h) \<Rightarrow> Some (S\<lparr>rp_remote := (rp_remote S)(so_remote_path q := None)\<rparr>) | _ \<Rightarrow> None)
      | MOVE_REMOTE \<Rightarrow>
          (case rp_remote S (so_remote_path_from q) of
             Some (Body h) \<Rightarrow>
               if rp_remote S (so_remote_path q) = None
               then Some (S\<lparr>rp_remote := (rp_remote S)(so_remote_path_from q := None, so_remote_path q \<mapsto> Body h)\<rparr>) else None
           | _ \<Rightarrow> None)
      | COPY_REMOTE \<Rightarrow>
          (case rp_remote S (so_remote_path_from q) of
             Some (Body h) \<Rightarrow>
               if rp_remote S (so_remote_path q) = None
               then Some (S\<lparr>rp_remote := (rp_remote S)(so_remote_path q \<mapsto> Body h)\<rparr>) else None
           | _ \<Rightarrow> None)
      | UPLOAD \<Rightarrow>
          (case rp_local S (so_local_path q) of
             Some (Body h) \<Rightarrow>
               if rp_remote S (so_remote_path q) = None
               then Some (S\<lparr>rp_remote := (rp_remote S)(so_remote_path q \<mapsto> Body h)\<rparr>) else None
           | _ \<Rightarrow> None)
      | DOWNLOAD \<Rightarrow>
          (case rp_remote S (so_remote_path q) of
             Some (Body h) \<Rightarrow>
               if rp_local S (so_local_path q) \<noteq> Some Folder
               then Some (S\<lparr>rp_local := (rp_local S)(so_local_path q \<mapsto> Body h)\<rparr>) else None
           | _ \<Rightarrow> None)
      | CONFLICT_DOWNLOAD \<Rightarrow>
          (case rp_remote S (so_remote_path q) of
             Some (Body h) \<Rightarrow>
               if rp_local S (so_local_path q) = None
               then Some (S\<lparr>rp_local := (rp_local S)(so_local_path q \<mapsto> Body h)\<rparr>) else None
           | _ \<Rightarrow> None))"

fun run_ops :: "SyncOp list \<Rightarrow> replica \<Rightarrow> replica option" where
  "run_ops [] S = Some S"
| "run_ops (q # qs) S = (case run_op q S of None \<Rightarrow> None | Some T \<Rightarrow> run_ops qs T)"

text \<open>The local work that needs no command, done before the first operation.\<close>

definition local_work :: "SyncPlan \<Rightarrow> replica \<Rightarrow> replica" where
  "local_work plan S = S\<lparr>rp_local := (\<lambda>p. if p \<in> set (sp_local_deletes plan) then None
     else if p \<in> set (sp_local_mkdirs plan) then Some Folder else rp_local S p)\<rparr>"

definition run_plan :: "SyncPlan \<Rightarrow> replica \<Rightarrow> replica option" where
  "run_plan plan S = run_ops (sp_ops plan) (local_work plan S)"

lemma run_ops_append: "run_ops (qs @ qs') S = (case run_ops qs S of None \<Rightarrow> None | Some T \<Rightarrow> run_ops qs' T)"
  by (induction qs arbitrary: S) (auto split: option.splits)

lemma run_ops_compose: "run_ops qs S = Some T \<Longrightarrow> run_ops qs' T = Some U \<Longrightarrow> run_ops (qs @ qs') S = Some U"
  by (simp add: run_ops_append)

lemma run_seq:
  assumes "\<And>xs k ys T. ks = xs @ k # ys \<Longrightarrow> I xs T \<Longrightarrow> \<exists>T'. run_op (f k) T = Some T' \<and> I (xs @ [k]) T'"
    and "I [] S"
  shows "\<exists>T. run_ops (map f ks) S = Some T \<and> I ks T"
  using assms(1)
proof (induction ks rule: rev_induct)
  case Nil
  then show ?case using assms(2) by simp
next
  case (snoc k ks)
  have "\<exists>T. run_ops (map f ks) S = Some T \<and> I ks T" by (rule snoc.IH) (auto intro: snoc.prems)
  then obtain T where "run_ops (map f ks) S = Some T" "I ks T" by blast
  with snoc.prems [of ks k "[]" T] show ?case by (auto simp: run_ops_append)
qed

section \<open>Replicas seen through the keys\<close>

definition looks :: "string set \<Rightarrow> sync_env \<Rightarrow> (string \<Rightarrow> item option) \<Rightarrow> (string \<Rightarrow> item option) \<Rightarrow> (fpath \<Rightarrow> item option) \<Rightarrow>
    replica \<Rightarrow> bool" where
  "looks K V L R X T \<longleftrightarrow> (\<forall>k\<in>K. wf_key k) \<and> (\<forall>k\<in>K. rp_remote T (remote_of V k) = R k) \<and>
     (\<forall>k\<in>K. rp_local T (local_of V k) = L k) \<and>
     (\<forall>p. p \<notin> local_of V ` K \<longrightarrow> rp_local T p = X p)"

lemma looks_wf: "looks K V L R X T \<Longrightarrow> k \<in> K \<Longrightarrow> wf_key k \<and> k \<noteq> []"
  by (auto simp: looks_def wf_key_nonempty)

lemma looks_outside: "looks K V L R X T \<Longrightarrow> p \<notin> local_of V ` K \<Longrightarrow> rp_local T p = X p"
  unfolding looks_def by blast

lemma looks_inside: "looks K V L R X T \<Longrightarrow> k \<in> K \<Longrightarrow> rp_local T (local_of V k) = L k \<and> rp_remote T (remote_of V k) = R k"
  unfolding looks_def by blast

lemmas op_simps = run_op_def sync_op_def file_op_def delete_op_def move_op_def

lemma looks_mkdir:
  assumes "looks K V L R X T" and "R k = None" and "k \<in> K"
  shows "\<exists>T'. run_op ((sync_op MKDIR_REMOTE (remote_of V k))\<lparr>so_relative_path := rp, so_entry := e\<rparr>) T = Some T' \<and>
    looks K V L (R(k \<mapsto> Folder)) X T'"
  using assms by (auto simp: op_simps looks_def remote_of_inj)

lemma looks_delete:
  assumes "looks K V L R X T" and "R k = Some (Body h)" and "k \<in> K"
  shows "\<exists>T'. run_op ((delete_op V k)\<lparr>so_relative_path_from := rp\<rparr>) T = Some T' \<and> looks K V L (R(k := None)) X T'"
  using assms by (auto simp: op_simps looks_def remote_of_inj)

lemma looks_rmdir:
  assumes "looks K V L R X T" and "R k = Some Folder" and "k \<in> K"
  shows "\<exists>T'. run_op ((sync_op RMDIR_REMOTE (remote_of V k))\<lparr>so_relative_path_from := rp\<rparr>) T = Some T' \<and>
    looks K V L (\<lambda>j. if j = k \<or> under k j then None else R j) X T'"
  using assms by (auto simp: op_simps looks_def remote_of_inj under_remote_of wf_key_nonempty)

lemma looks_move:
  assumes "looks K V L R X T" and "R s = Some (Body h)" and "R (fst n) = None" and "s \<in> K" and "fst n \<in> K"
  shows "\<exists>T'. run_op (move_op V n s) T = Some T' \<and> looks K V L (R(s := None, fst n \<mapsto> Body h)) X T'"
  using assms by (auto simp: op_simps looks_def remote_of_inj)

lemma looks_copy:
  assumes "looks K V L R X T" and "R j = Some (Body h)" and "R k = None" and "j \<in> K" and "k \<in> K"
  shows "\<exists>T'. run_op ((file_op COPY_REMOTE V k e)\<lparr>so_remote_path_from := remote_of V j\<rparr>) T = Some T' \<and>
    looks K V L (R(k \<mapsto> Body h)) X T'"
  using assms by (auto simp: op_simps looks_def remote_of_inj)

lemma looks_upload:
  assumes "looks K V L R X T" and "L k = Some (Body h)" and "R k = None" and "k \<in> K"
  shows "\<exists>T'. run_op (file_op UPLOAD V k e) T = Some T' \<and> looks K V L (R(k \<mapsto> Body h)) X T'"
  using assms by (auto simp: op_simps looks_def remote_of_inj)

lemma looks_download:
  assumes "looks K V L R X T" and "R k = Some (Body h)" and "L k \<noteq> Some Folder" and "k \<in> K"
  shows "\<exists>T'. run_op (file_op DOWNLOAD V k e) T = Some T' \<and> looks K V (L(k \<mapsto> Body h)) R X T'"
  using assms by (auto simp: op_simps looks_def local_of_inj)

lemma looks_conflict:
  assumes "looks K V L R X T" and "R k = Some (Body h)" and "k \<in> K" and "p \<notin> local_of V ` K" and "X p = None"
  shows "\<exists>T'. run_op ((sync_op CONFLICT_DOWNLOAD (remote_of V k))\<lparr>so_local_path := p\<rparr>) T = Some T' \<and>
    looks K V L R (X(p \<mapsto> Body h)) T'"
proof -
  have "local_of V j \<noteq> p" if "j \<in> K" for j using assms(4) that by blast
  with assms show ?thesis by (auto simp: op_simps looks_def)
qed

section \<open>The phases\<close>

lemma looks_cong: "looks K V L R X T \<Longrightarrow> L = L' \<Longrightarrow> R = R' \<Longrightarrow> X = X' \<Longrightarrow> looks K V L' R' X' T"
  by simp

lemma phase_mkdirs:
  assumes "looks K V L R X T" and "distinct ks" and "\<forall>k\<in>set ks. R k = None \<and> k \<in> K"
  shows "\<exists>T'. run_ops (map (\<lambda>k. (sync_op MKDIR_REMOTE (remote_of V k))\<lparr>so_relative_path := k, so_entry := e k\<rparr>) ks) T = Some T' \<and>
    looks K V L (\<lambda>k. if k \<in> set ks then Some Folder else R k) X T'"
proof (rule run_seq [where I = "\<lambda>xs. looks K V L (\<lambda>k. if k \<in> set xs then Some Folder else R k) X"])
  show "looks K V L (\<lambda>k. if k \<in> set [] then Some Folder else R k) X T" using assms(1) by simp
next
  fix xs k ys S assume ks: "ks = xs @ k # ys" and "looks K V L (\<lambda>k. if k \<in> set xs then Some Folder else R k) X S"
  from looks_mkdir [OF this(2), where k = k and rp = k and e = "e k"] obtain S' where
    "run_op ((sync_op MKDIR_REMOTE (remote_of V k))\<lparr>so_relative_path := k, so_entry := e k\<rparr>) S = Some S'"
    "looks K V L ((\<lambda>k. if k \<in> set xs then Some Folder else R k)(k \<mapsto> Folder)) X S'"
    using assms(2,3) ks by auto
  then show "\<exists>S'. run_op ((sync_op MKDIR_REMOTE (remote_of V k))\<lparr>so_relative_path := k, so_entry := e k\<rparr>) S = Some S' \<and>
      looks K V L (\<lambda>j. if j \<in> set (xs @ [k]) then Some Folder else R j) X S'"
    by (auto intro!: exI [of _ S'] elim!: looks_cong)
qed

lemma phase_deletes:
  assumes "looks K V L R X T" and "distinct (map fst ks)" and "\<forall>k\<in>fst ` set ks. k \<in> K \<and> (\<exists>h. R k = Some (Body h))"
  shows "\<exists>T'. run_ops (map (\<lambda>(k, p). (delete_op V k)\<lparr>so_relative_path_from := p\<rparr>) ks) T = Some T' \<and>
    looks K V L (\<lambda>k. if k \<in> fst ` set ks then None else R k) X T'"
proof (rule run_seq [where I = "\<lambda>xs. looks K V L (\<lambda>k. if k \<in> fst ` set xs then None else R k) X"])
  show "looks K V L (\<lambda>k. if k \<in> fst ` set [] then None else R k) X T" using assms(1) by simp
next
  fix xs y ys S assume ks: "ks = xs @ y # ys" and S: "looks K V L (\<lambda>k. if k \<in> fst ` set xs then None else R k) X S"
  obtain k p where y: "y = (k, p)" by fastforce
  obtain h where "R k = Some (Body h)" "k \<in> K" using assms(3) ks y by auto
  moreover have "k \<notin> fst ` set xs" using assms(2) ks y by auto
  ultimately obtain S' where "run_op ((delete_op V k)\<lparr>so_relative_path_from := p\<rparr>) S = Some S'"
    "looks K V L ((\<lambda>k. if k \<in> fst ` set xs then None else R k)(k := None)) X S'"
    using looks_delete [OF S, of k h p] by auto
  then show "\<exists>S'. run_op (case y of (k, p) \<Rightarrow> (delete_op V k)\<lparr>so_relative_path_from := p\<rparr>) S = Some S' \<and>
      looks K V L (\<lambda>j. if j \<in> fst ` set (xs @ [y]) then None else R j) X S'"
    using y by (auto intro!: exI [of _ S'] elim!: looks_cong)
qed

text \<open>Directories are removed from the deepest to the shallowest, so that each is still there.\<close>

lemma phase_rmdirs:
  assumes "looks K V L R X T" and "distinct ks" and "\<forall>k\<in>set ks. R k = Some Folder \<and> k \<in> K"
    and "sorted_wrt (\<lambda>i k. path_depth (remote_of V i) \<ge> path_depth (remote_of V k)) ks"
    and "\<forall>d\<in>set ks. \<forall>k. under d k \<longrightarrow> k \<in> set ks \<or> R k = None"
  shows "\<exists>T'. run_ops (map (\<lambda>k. (sync_op RMDIR_REMOTE (remote_of V k))\<lparr>so_relative_path_from := k\<rparr>) ks) T = Some T' \<and>
    looks K V L (\<lambda>k. if k \<in> set ks then None else R k) X T'"
proof -
  let ?gone = "\<lambda>xs k. k \<in> set xs \<or> (\<exists>d\<in>set xs. under d k)"
  have deeper: "path_depth (remote_of V d) < path_depth (remote_of V k)" if "under d k" "d \<noteq> []" for d k
  proof -
    have "under (remote_of V d) (remote_of V k)" using that by (simp add: under_remote_of)
    then obtain z where "remote_of V k = remote_of V d @ ''/'' @ z" by (auto simp: under_def prefix_def)
    then show ?thesis by (simp add: path_depth_def)
  qed
  have "\<exists>T'. run_ops (map (\<lambda>k. (sync_op RMDIR_REMOTE (remote_of V k))\<lparr>so_relative_path_from := k\<rparr>) ks) T = Some T' \<and>
      looks K V L (\<lambda>k. if ?gone ks k then None else R k) X T'"
  proof (rule run_seq [where I = "\<lambda>xs. looks K V L (\<lambda>k. if ?gone xs k then None else R k) X"])
    show "looks K V L (\<lambda>k. if ?gone [] k then None else R k) X T" using assms(1) by simp
  next
    fix xs k ys S assume ks: "ks = xs @ k # ys" and S: "looks K V L (\<lambda>k. if ?gone xs k then None else R k) X S"
    have k: "R k = Some Folder" "k \<in> K" using assms(3) ks by auto
    have "\<not> under d k" if "d \<in> set xs" for d
      using assms(3,4) that ks deeper [of d k] looks_wf [OF assms(1), of d] by (fastforce simp: sorted_wrt_append)
    moreover have "k \<notin> set xs" using assms(2) ks by auto
    ultimately obtain S' where "run_op ((sync_op RMDIR_REMOTE (remote_of V k))\<lparr>so_relative_path_from := k\<rparr>) S = Some S'"
      "looks K V L (\<lambda>j. if j = k \<or> under k j then None else if ?gone xs j then None else R j) X S'"
      using looks_rmdir [OF S, of k k] k by auto
    then show "\<exists>S'. run_op ((sync_op RMDIR_REMOTE (remote_of V k))\<lparr>so_relative_path_from := k\<rparr>) S = Some S' \<and>
        looks K V L (\<lambda>j. if ?gone (xs @ [k]) j then None else R j) X S'"
      by (auto intro!: exI [of _ S'] elim!: looks_cong)
  qed
  moreover have "(\<lambda>k. if ?gone ks k then None else R k) = (\<lambda>k. if k \<in> set ks then None else R k)"
    using assms(5) by fastforce
  ultimately show ?thesis by simp
qed

lemma phase_moves:
  assumes "looks K V L R X T" and "distinct (map fst ms)" and "distinct (map snd ms)"
    and "\<forall>(k, s)\<in>set ms. R k = None \<and> R s = Some (Body (h k)) \<and> k \<in> K \<and> s \<in> K"
  shows "\<exists>T'. run_ops (map (\<lambda>(k, s). move_op V (k, e k) s) ms) T = Some T' \<and>
    looks K V L (\<lambda>k. if k \<in> fst ` set ms then Some (Body (h k)) else if k \<in> snd ` set ms then None else R k) X T'"
proof (rule run_seq [where I = "\<lambda>xs. looks K V L
    (\<lambda>k. if k \<in> fst ` set xs then Some (Body (h k)) else if k \<in> snd ` set xs then None else R k) X"])
  show "looks K V L (\<lambda>k. if k \<in> fst ` set [] then Some (Body (h k)) else if k \<in> snd ` set [] then None else R k) X T"
    using assms(1) by simp
next
  let ?R = "\<lambda>xs k. if k \<in> fst ` set xs then Some (Body (h k)) else if k \<in> snd ` set xs then None else R k"
  fix xs y ys S assume ks: "ms = xs @ y # ys" and S: "looks K V L (?R xs) X S"
  obtain k s where y: "y = (k, s)" by fastforce
  have ks': "R k = None" "R s = Some (Body (h k))" "k \<in> K" "s \<in> K" using assms(4) ks y by auto
  have "k \<notin> fst ` set xs" "s \<notin> snd ` set xs" using assms(2,3) ks y by auto
  moreover have "\<forall>z\<in>set xs. R (fst z) = None \<and> R (snd z) \<noteq> None" using assms(4) ks by (auto simp: split_beta)
  with ks' have "k \<notin> snd ` set xs" "s \<notin> fst ` set xs" by force+
  ultimately obtain S' where "run_op (move_op V (k, e k) s) S = Some S'"
    "looks K V L ((?R xs)(s := None, k \<mapsto> Body (h k))) X S'"
    using looks_move [OF S, of s "h k" "(k, e k)"] ks' by auto
  moreover have "(?R xs)(s := None, k \<mapsto> Body (h k)) = ?R (xs @ [y])"
    using y \<open>s \<notin> fst ` set xs\<close> ks' by (auto simp: fun_eq_iff)
  ultimately show "\<exists>S'. run_op (case y of (k, s) \<Rightarrow> move_op V (k, e k) s) S = Some S' \<and> looks K V L (?R (xs @ [y])) X S'"
    using y by auto
qed

lemma phase_transfers:
  assumes "looks K V L R X T" and "distinct ks" and "\<forall>k\<in>set ks. k \<in> K"
    and "\<forall>k\<in>set ks. if down k then R k = Some (Body (h k)) \<and> L k \<noteq> Some Folder else R k = None \<and> L k = Some (Body (h k))"
  shows "\<exists>T'. run_ops (map (\<lambda>k. if down k then file_op DOWNLOAD V k (e k) else file_op UPLOAD V k (e' k)) ks) T = Some T' \<and>
    looks K V (\<lambda>k. if k \<in> set ks \<and> down k then Some (Body (h k)) else L k)
      (\<lambda>k. if k \<in> set ks \<and> \<not> down k then Some (Body (h k)) else R k) X T'"
proof (rule run_seq [where I = "\<lambda>xs. looks K V (\<lambda>k. if k \<in> set xs \<and> down k then Some (Body (h k)) else L k)
      (\<lambda>k. if k \<in> set xs \<and> \<not> down k then Some (Body (h k)) else R k) X"])
  show "looks K V (\<lambda>k. if k \<in> set [] \<and> down k then Some (Body (h k)) else L k)
      (\<lambda>k. if k \<in> set [] \<and> \<not> down k then Some (Body (h k)) else R k) X T" using assms(1) by simp
next
  let ?L = "\<lambda>xs k. if k \<in> set xs \<and> down k then Some (Body (h k)) else L k"
  let ?R = "\<lambda>xs k. if k \<in> set xs \<and> \<not> down k then Some (Body (h k)) else R k"
  fix xs k ys S assume ks: "ks = xs @ k # ys" and S: "looks K V (?L xs) (?R xs) X S"
  have k: "k \<notin> set xs" "k \<in> K" using assms(2,3) ks by auto
  show "\<exists>S'. run_op (if down k then file_op DOWNLOAD V k (e k) else file_op UPLOAD V k (e' k)) S = Some S' \<and>
      looks K V (?L (xs @ [k])) (?R (xs @ [k])) X S'"
  proof (cases "down k")
    case True
    then obtain S' where "run_op (file_op DOWNLOAD V k (e k)) S = Some S'"
      "looks K V ((?L xs)(k \<mapsto> Body (h k))) (?R xs) X S'"
      using looks_download [OF S, of k "h k"] assms(4) ks k by auto
    with True show ?thesis by (auto intro!: exI [of _ S'] elim!: looks_cong)
  next
    case False
    then obtain S' where "run_op (file_op UPLOAD V k (e' k)) S = Some S'"
      "looks K V (?L xs) ((?R xs)(k \<mapsto> Body (h k))) X S'"
      using looks_upload [OF S, of k "h k"] assms(4) ks k by auto
    with False show ?thesis by (auto intro!: exI [of _ S'] elim!: looks_cong)
  qed
qed

lemma phase_copies:
  assumes "looks K V L R X T" and "distinct (map fst ks)"
    and "\<forall>(k, j)\<in>set ks. R k = None \<and> R j = Some (Body (h k)) \<and> k \<in> K \<and> j \<in> K"
  shows "\<exists>T'. run_ops (map (\<lambda>(k, j). (file_op COPY_REMOTE V k (e k))\<lparr>so_remote_path_from := remote_of V j\<rparr>) ks) T = Some T' \<and>
    looks K V L (\<lambda>k. if k \<in> fst ` set ks then Some (Body (h k)) else R k) X T'"
proof (rule run_seq [where I = "\<lambda>xs. looks K V L (\<lambda>k. if k \<in> fst ` set xs then Some (Body (h k)) else R k) X"])
  show "looks K V L (\<lambda>k. if k \<in> fst ` set [] then Some (Body (h k)) else R k) X T" using assms(1) by simp
next
  let ?R = "\<lambda>xs k. if k \<in> fst ` set xs then Some (Body (h k)) else R k"
  fix xs y ys S assume ks: "ks = xs @ y # ys" and S: "looks K V L (?R xs) X S"
  obtain k j where y: "y = (k, j)" by fastforce
  have kj: "R k = None" "R j = Some (Body (h k))" "k \<in> K" "j \<in> K" using assms(3) ks y by auto
  have "k \<notin> fst ` set xs" using assms(2) ks y by auto
  moreover have "\<forall>z\<in>set xs. R (fst z) = None" using assms(3) ks by auto
  with kj have "j \<notin> fst ` set xs" by force
  ultimately obtain S' where
    "run_op ((file_op COPY_REMOTE V k (e k))\<lparr>so_remote_path_from := remote_of V j\<rparr>) S = Some S'"
    "looks K V L ((?R xs)(k \<mapsto> Body (h k))) X S'"
    using looks_copy [OF S, of j "h k" k "e k"] kj by auto
  then show "\<exists>S'. run_op (case y of (k, j) \<Rightarrow> (file_op COPY_REMOTE V k (e k))\<lparr>so_remote_path_from := remote_of V j\<rparr>) S
      = Some S' \<and> looks K V L (?R (xs @ [y])) X S'"
    using y by (auto intro!: exI [of _ S'] elim!: looks_cong)
qed

lemma phase_conflicts:
  assumes "looks K V L R X T" and "distinct (map snd ks)"
    and "\<forall>(k, p)\<in>set ks. R k = Some (Body (h p)) \<and> k \<in> K \<and> p \<notin> local_of V ` K \<and> X p = None"
  shows "\<exists>T'. run_ops (map (\<lambda>(k, p). (sync_op CONFLICT_DOWNLOAD (remote_of V k))\<lparr>so_local_path := p\<rparr>) ks) T = Some T' \<and>
    looks K V L R (\<lambda>p. if p \<in> snd ` set ks then Some (Body (h p)) else X p) T'"
proof (rule run_seq [where I = "\<lambda>xs. looks K V L R (\<lambda>p. if p \<in> snd ` set xs then Some (Body (h p)) else X p)"])
  show "looks K V L R (\<lambda>p. if p \<in> snd ` set [] then Some (Body (h p)) else X p) T" using assms(1) by simp
next
  let ?X = "\<lambda>xs p. if p \<in> snd ` set xs then Some (Body (h p)) else X p"
  fix xs y ys S assume ks: "ks = xs @ y # ys" and S: "looks K V L R (?X xs) S"
  obtain k p where y: "y = (k, p)" by fastforce
  have "p \<notin> snd ` set xs" using assms(2) ks y by auto
  then obtain S' where "run_op ((sync_op CONFLICT_DOWNLOAD (remote_of V k))\<lparr>so_local_path := p\<rparr>) S = Some S'"
    "looks K V L R ((?X xs)(p \<mapsto> Body (h p))) S'"
    using looks_conflict [OF S, of k "h p" p] assms(3) ks y by auto
  then show "\<exists>S'. run_op (case y of (k, p) \<Rightarrow> (sync_op CONFLICT_DOWNLOAD (remote_of V k))\<lparr>so_local_path := p\<rparr>) S
      = Some S' \<and> looks K V L R (?X (xs @ [y])) S'"
    using y by (auto intro!: exI [of _ S'] elim!: looks_cong)
qed

end
