(* ===== verification/SyncShape.thy ===== *)
theory SyncShape
  imports SyncRun "HOL-Library.Multiset"
begin

text \<open>
  The shape of the plan for trees that can be merged: which keys each phase works on, that every
  server-side copy has a source with the right content, and that no rename waits for another.
\<close>

section \<open>The shape of a plan\<close>

text \<open>
  The inputs for which a plan is a merge: no path changes between file and folder, the local tree
  lists the folders of its entries, and below a folder that was deleted locally the server holds
  nothing that the last synchronisation did not know.
\<close>

definition mergeable :: "tree \<Rightarrow> tree \<Rightarrow> tree \<Rightarrow> bool" where
  "mergeable l r b \<longleftrightarrow> omap_wf l \<and> omap_wf r \<and> omap_wf b \<and>
     (\<forall>k\<in>set (all_keys l r b). wf_key k \<and> no_type_clash l r b k \<and>
        (has_local_children l k \<longrightarrow> map_of l k \<noteq> None) \<and>
        (judge l r b k = Drop_Remote \<longrightarrow>
           (\<forall>j\<in>set (map fst r). under k j \<longrightarrow> judge l r b j = Removed \<or> judge l r b j = Drop_Remote)))"

definition picked :: "tree \<Rightarrow> tree \<Rightarrow> tree \<Rightarrow> verdict set \<Rightarrow> string list" where
  "picked l r b vs = filter (\<lambda>k. judge l r b k \<in> vs) (all_keys l r b)"

lemma all_keys_iff: "k \<in> set (all_keys l r b) \<longleftrightarrow> map_of l k \<noteq> None \<or> map_of r k \<noteq> None \<or> map_of b k \<noteq> None"
  by (auto simp: all_keys_set map_of_eq_None_iff)

lemma judge_key: "judge l r b k \<noteq> Nothing \<Longrightarrow> k \<in> set (all_keys l r b)"
  by (auto simp: all_keys_iff judge_def split: option.splits)

lemma picked_set: "Nothing \<notin> vs \<Longrightarrow> set (picked l r b vs) = {k. judge l r b k \<in> vs}"
  by (auto simp: picked_def intro: judge_key)

lemma picked_distinct [simp]: "distinct (picked l r b vs)"
  by (simp add: picked_def all_keys_distinct)

lemma mergeable_key:
  assumes "mergeable l r b" and "judge l r b k \<noteq> Nothing"
  shows "wf_key k" and "no_type_clash l r b k"
  using assms judge_key [of l r b k] by (auto simp: mergeable_def)

lemma mergeable_clash: "mergeable l r b \<Longrightarrow> no_type_clash l r b k"
proof (cases "k \<in> set (all_keys l r b)")
  case False
  then show "no_type_clash l r b k" by (auto simp: all_keys_iff no_type_clash_def same_kind_def)
qed (auto simp: mergeable_def)

lemma mergeable_nothing:
  assumes "mergeable l r b" and "judge l r b k = Nothing"
  shows "map_of r k = None"
proof (rule ccontr)
  assume "map_of r k \<noteq> None"
  moreover from this have "has_local_children l k \<longrightarrow> map_of l k \<noteq> None"
    using assms(1) all_keys_iff [of k l r b] by (simp add: mergeable_def)
  ultimately show False using assms(2)
    by (cases "map_of l k"; cases "map_of b k") (auto simp: judge_def split: if_splits)
qed

lemma bucket:
  assumes "\<And>k. no_type_clash l r b k"
    and "\<And>k st. no_type_clash l r b k \<Longrightarrow> g (classify V l r b k st) = g st @ (if judge l r b k \<in> vs then [h k] else [])"
  shows "g (classify_all V l r b) = g empty_planner @ map h (picked l r b vs)"
  unfolding classify_all_def picked_def
  by (rule fold_bucket) (simp add: assms)

lemma plan_buckets:
  assumes "\<And>k. no_type_clash l r b k"
  shows "pl_pre_deletes (classify_all V l r b) = []"
    and "pl_mkdirs (classify_all V l r b) =
      map (\<lambda>k. (sync_op MKDIR_REMOTE (remote_of V k))\<lparr>so_relative_path := k, so_entry := the (map_of l k)\<rparr>) (picked l r b {Make_Remote})"
    and "pl_deletes (classify_all V l r b) = map (delete_op V) (picked l r b {Replace, Clash})"
    and "pl_rmdirs (classify_all V l r b) =
      map (\<lambda>k. (sync_op RMDIR_REMOTE (remote_of V k))\<lparr>so_relative_path_from := k\<rparr>) (picked l r b {Drop_Remote})"
    and "pl_transfers (classify_all V l r b) =
      map (\<lambda>k. if judge l r b k = Get then file_op DOWNLOAD V k (the (map_of r k)) else file_op UPLOAD V k (the (map_of l k)))
        (picked l r b {Replace, Clash, Reput, Get})"
    and "pl_new_local_files (classify_all V l r b) = map (\<lambda>k. (k, the (map_of l k))) (picked l r b {New})"
    and "pl_removed_remote_files (classify_all V l r b) = map (\<lambda>k. (k, the (map_of r k))) (picked l r b {Removed})"
    and "sp_local_mkdirs (classify_all V l r b) = map (local_of V) (picked l r b {Make_Local})"
    and "sp_local_deletes (classify_all V l r b) = map (local_of V) (picked l r b {Delete_Local})"
  using bucket [OF assms, of pl_pre_deletes V "{}"] bucket [OF assms, of pl_mkdirs V "{Make_Remote}"]
    bucket [OF assms, of pl_deletes V "{Replace, Clash}"] bucket [OF assms, of pl_rmdirs V "{Drop_Remote}"]
    bucket [OF assms, of pl_transfers V "{Replace, Clash, Reput, Get}"] bucket [OF assms, of pl_new_local_files V "{New}"]
    bucket [OF assms, of pl_removed_remote_files V "{Removed}"] bucket [OF assms, of sp_local_mkdirs V "{Make_Local}"]
    bucket [OF assms, of sp_local_deletes V "{Delete_Local}"]
  by (simp_all add: classify_pre_deletes classify_mkdirs classify_deletes classify_rmdirs classify_transfers
      classify_new classify_removed classify_local_mkdirs classify_local_deletes empty_planner_def picked_def)

lemma plan_conflicts:
  assumes "\<And>k. no_type_clash l r b k"
  shows "\<exists>ps. pl_conflict_downloads (classify_all V l r b) =
      map (\<lambda>(k, p). (sync_op CONFLICT_DOWNLOAD (remote_of V k))\<lparr>so_local_path := p\<rparr>) ps \<and>
    map fst ps = picked l r b {Clash}"
proof -
  have "\<exists>ps. pl_conflict_downloads (fold (classify V l r b) ks empty_planner) =
      map (\<lambda>(k, p). (sync_op CONFLICT_DOWNLOAD (remote_of V k))\<lparr>so_local_path := p\<rparr>) ps \<and>
      map fst ps = filter (\<lambda>k. judge l r b k \<in> {Clash}) ks" for ks
  proof (induction ks rule: rev_induct)
    case Nil
    then show ?case by (simp add: empty_planner_def)
  next
    case (snoc k ks)
    then obtain ps where ps: "pl_conflict_downloads (fold (classify V l r b) ks empty_planner) =
      map (\<lambda>(k, p). (sync_op CONFLICT_DOWNLOAD (remote_of V k))\<lparr>so_local_path := p\<rparr>) ps"
      "map fst ps = filter (\<lambda>k. judge l r b k \<in> {Clash}) ks" by blast
    let ?p = "(k, conflict_copy V k (fold (classify V l r b) ks empty_planner))"
    show ?case
      using ps by (intro exI [of _ "ps @ (if judge l r b k = Clash then [?p] else [])"])
        (simp add: classify_conflict_downloads assms)
  qed
  then show ?thesis by (simp add: classify_all_def picked_def)
qed

lemma sort_key_map: "sort_key g (map f ks) = map f (sort_key (\<lambda>k. g (f k)) ks)"
proof -
  have "insort_key g (f k) (map f ks) = map f (insort_key (\<lambda>k. g (f k)) k ks)" for k ks
    by (induction ks) auto
  then show ?thesis by (induction ks) auto
qed

text \<open>The moves: each takes a removed file to a new one, and no move waits for another.\<close>

lemma distinct_map_nth: "distinct xs \<Longrightarrow> distinct is \<Longrightarrow> \<forall>i\<in>set is. i < length xs \<Longrightarrow> distinct (map ((!) xs) is)"
  by (auto simp: distinct_map inj_on_def nth_eq_iff_index_eq)

lemma plan_moves:
  fixes V :: sync_env and l r b :: tree
  assumes "mergeable l r b"
  defines "nk \<equiv> picked l r b {New}" and "rk \<equiv> picked l r b {Removed}"
  defines "dt \<equiv> detect_moves V (map (\<lambda>k. (k, the (map_of r k))) rk) (map (\<lambda>k. (k, the (map_of l k))) nk)"
  obtains M where "dt_moves dt = map (\<lambda>(k, s). move_op V (k, the (map_of l k)) s) M"
    and "distinct (map fst M)" and "distinct (map snd M)"
    and "\<forall>(k, s)\<in>set M. judge l r b k = New \<and> judge l r b s = Removed \<and>
       sy_hash (the (map_of l k)) = sy_hash (the (map_of r s))"
    and "map ((!) nk) (filter (\<lambda>i. \<not> dt_new_consumed dt ! i) [0..<length nk]) = filter (\<lambda>k. k \<notin> fst ` set M) nk"
    and "map ((!) rk) (filter (\<lambda>i. \<not> dt_removed_consumed dt ! i) [0..<length rk]) = filter (\<lambda>k. k \<notin> snd ` set M) rk"
proof -
  let ?new = "map (\<lambda>k. (k, the (map_of l k))) nk" and ?rem = "map (\<lambda>k. (k, the (map_of r k))) rk"
  obtain ps where "paired V ?rem ?new dt ps" using detect_moves_paired [of V ?rem ?new] by (auto simp: dt_def)
  then have d: "distinct (map fst ps)" "distinct (map snd ps)"
    and range: "\<forall>(i, s)\<in>set ps. i < length nk \<and> s < length rk \<and>
      sy_hash (the (map_of l (nk ! i))) = sy_hash (the (map_of r (rk ! s)))"
    and moves: "dt_moves dt = map (\<lambda>(i, s). move_op V (?new ! i) (fst (?rem ! s))) ps"
    and rc: "\<And>s. s < length rk \<Longrightarrow> dt_removed_consumed dt ! s \<longleftrightarrow> s \<in> snd ` set ps"
    and nc: "\<And>i. i < length nk \<Longrightarrow> dt_new_consumed dt ! i \<longleftrightarrow> i \<in> fst ` set ps"
    unfolding paired_def by (auto simp: split_beta)
  have range': "\<forall>x\<in>set ps. fst x < length nk \<and> snd x < length rk" using range by auto
  define M where "M = map (\<lambda>(i, s). (nk ! i, rk ! s)) ps"
  have dk: "distinct nk" "distinct rk" by (simp_all add: nk_def rk_def)
  have fM: "map fst M = map ((!) nk) (map fst ps)" "map snd M = map ((!) rk) (map snd ps)"
    by (simp_all add: M_def split_beta comp_def)
  have filt: "map ((!) xs) (filter (\<lambda>i. \<not> c ! i) [0..<length xs]) = filter (\<lambda>k. k \<notin> (!) xs ` I) xs"
    if "distinct xs" "\<And>i. i < length xs \<Longrightarrow> c ! i \<longleftrightarrow> i \<in> I" "I \<subseteq> {..<length xs}" for xs :: "string list" and c I
  proof -
    have "filter (\<lambda>i. \<not> c ! i) [0..<length xs] = filter (\<lambda>i. xs ! i \<notin> (!) xs ` I) [0..<length xs]"
      using that by (intro filter_cong) (auto simp: nth_eq_iff_index_eq subset_iff)
    then show ?thesis by (metis (no_types, lifting) filter_map comp_def map_nth filter_cong)
  qed
  show thesis
  proof (rule that [of M])
    show "dt_moves dt = map (\<lambda>(k, s). move_op V (k, the (map_of l k)) s) M"
      using moves range by (auto simp: M_def)
    show "distinct (map fst M)" "distinct (map snd M)"
      unfolding fM using d range' dk by (auto intro!: distinct_map_nth simp del: map_map)
    show "\<forall>(k, s)\<in>set M. judge l r b k = New \<and> judge l r b s = Removed \<and>
       sy_hash (the (map_of l k)) = sy_hash (the (map_of r s))"
      using range nth_mem [of _ nk] nth_mem [of _ rk] by (auto simp: M_def nk_def rk_def picked_set split_beta)
    have "fst ` set M = (!) nk ` fst ` set ps" "snd ` set M = (!) rk ` snd ` set ps"
      using fM by (metis image_set)+
    moreover have "fst ` set ps \<subseteq> {..<length nk}" "snd ` set ps \<subseteq> {..<length rk}" using range by auto
    ultimately show "map ((!) nk) (filter (\<lambda>i. \<not> dt_new_consumed dt ! i) [0..<length nk]) = filter (\<lambda>k. k \<notin> fst ` set M) nk"
      and "map ((!) rk) (filter (\<lambda>i. \<not> dt_removed_consumed dt ! i) [0..<length rk]) = filter (\<lambda>k. k \<notin> snd ` set M) rk"
      using filt [OF dk(1) nc] filt [OF dk(2) rc] by simp_all
  qed
qed

lemma order_moves_free:
  assumes "\<forall>(k, s)\<in>set M. judge l r b k = New \<and> judge l r b s = Removed"
  obtains M' where "order_moves V (map (\<lambda>(k, s). move_op V (k, e k) s) M) st = (map (\<lambda>(k, s). move_op V (k, e k) s) M', st)"
    and "mset M' = mset M"
proof -
  let ?ms = "map (\<lambda>(k, s). move_op V (k, e k) s) M"
  have paths: "so_remote_path (?ms ! i) = remote_of V (fst (M ! i))"
    "so_remote_path_from (?ms ! i) = remote_of V (snd (M ! i))" if "i < length M" for i
    using that by (auto simp: move_op_def file_op_def sync_op_def split_beta)
  have free: "occupant ?ms i = None" if i: "i < length M" for i
  proof -
    have "judge l r b (fst (M ! i)) = New" using assms nth_mem [OF i] by (auto simp: split_beta)
    moreover have "judge l r b (snd (M ! j)) = Removed" if "j < length M" for j
      using assms nth_mem [OF that] by (auto simp: split_beta)
    ultimately have apart: "fst (M ! i) \<noteq> snd (M ! j)" if "j < length M" for j using that by force
    have "map_of (by_source ?ms) (so_remote_path (?ms ! i)) \<noteq> Some j" for j
      using by_source_lookup [of ?ms "so_remote_path (?ms ! i)" j] i paths(1) [of i] paths(2) [of j] apart [of j]
      by (auto simp: remote_of_inj)
    then show ?thesis by (auto simp: occupant_def split: option.splits)
  qed
  obtain d where "kahn_inv ?ms [] d (kahn ?ms)" using kahn_run_ends by blast
  then have all: "set (kahn ?ms) = {..<length M}" "distinct (kahn ?ms)"
    using free by (auto simp: kahn_inv_def split: option.splits)
  then have "mset (kahn ?ms) = mset [0..<length M]"
    by (metis atLeast0LessThan distinct_upt set_eq_iff_mset_eq_distinct set_upt)
  then have "mset (map ((!) M) (kahn ?ms)) = mset (map ((!) M) [0..<length M])" by (metis mset_map)
  then have "mset (map ((!) M) (kahn ?ms)) = mset M" by (simp only: map_nth)
  moreover have "filter (\<lambda>i. i \<notin> set (kahn ?ms)) [0..<length ?ms] = []" using all by simp
  moreover have "map ((!) ?ms) (kahn ?ms) = map (\<lambda>(k, s). move_op V (k, e k) s) (map ((!) M) (kahn ?ms))"
    using all by auto
  ultimately show thesis using that [of "map ((!) M) (kahn ?ms)"] by (simp add: order_moves_def)
qed

text \<open>The sources of the server-side copies hold the content they are listed for.\<close>

definition valid_sources :: "sync_env \<Rightarrow> (string \<Rightarrow> item option) \<Rightarrow> (string, string) omap \<Rightarrow> bool" where
  "valid_sources V B m \<longleftrightarrow> omap_wf m \<and>
     (\<forall>h p. map_of m h = Some p \<longrightarrow> (\<exists>j. p = remote_of V j \<and> B j = Some (Body h)))"

lemma valid_sources_put:
  "valid_sources V B m \<Longrightarrow> B j = Some (Body h) \<Longrightarrow> valid_sources V B (omap_put h (remote_of V j) m)"
  by (auto simp: valid_sources_def)

lemma valid_sources_emplace:
  "valid_sources V B m \<Longrightarrow> B j = Some (Body h) \<Longrightarrow> valid_sources V B (omap_emplace h (remote_of V j) m)"
  by (auto simp: valid_sources_def)

lemma valid_sources_fold:
  assumes "\<And>x m. x \<in> set xs \<Longrightarrow> valid_sources V B m \<Longrightarrow> valid_sources V B (f x m)" and "valid_sources V B m"
  shows "valid_sources V B (fold f xs m)"
  using assms by (induction xs arbitrary: m) auto

lemma copy_sources_valid:
  assumes "\<And>k e. (k, e) \<in> set remote \<Longrightarrow> stays_remote local baseline k e \<Longrightarrow> B k = Some (Body (sy_hash e))"
    and "\<And>q. q \<in> set moves \<Longrightarrow> \<exists>j. so_remote_path q = remote_of V j \<and> B j = Some (Body (sy_hash (so_entry q)))"
    and "\<And>q. q \<in> set transfers \<Longrightarrow> so_type q = UPLOAD \<Longrightarrow>
      \<exists>j. so_remote_path q = remote_of V j \<and> B j = Some (Body (sy_hash (so_entry q)))"
  shows "valid_sources V B (copy_sources V local remote baseline moves transfers)"
proof -
  let ?m0 = "fold (\<lambda>(key, entry) m.
    if stays_remote local baseline key entry then omap_emplace (sy_hash entry) (remote_of V key) m else m) remote []"
  let ?m1 = "fold (\<lambda>q. omap_put (sy_hash (so_entry q)) (so_remote_path q)) moves ?m0"
  have "valid_sources V B ?m0"
    by (rule valid_sources_fold) (auto simp: assms(1) valid_sources_emplace, simp add: valid_sources_def)
  then have "valid_sources V B ?m1"
    by (rule valid_sources_fold [rotated]) (use assms(2) in \<open>metis valid_sources_put\<close>)
  then show ?thesis unfolding copy_sources_def
    by (rule valid_sources_fold [rotated]) (use assms(3) in \<open>metis valid_sources_emplace\<close>)
qed

lemma place_new_all:
  assumes "valid_sources V B src" and "\<forall>k\<in>set ks. B k = None"
  shows "\<exists>ups cps. mset (ups @ map fst cps) = mset ks \<and>
    (\<forall>(k, j)\<in>set cps. B j = Some (Body (sy_hash (e k))) \<or> j \<in> set ups \<and> sy_hash (e j) = sy_hash (e k)) \<and>
    (\<exists>src'. fold (place_new V) (map (\<lambda>k. (k, e k)) ks) \<lparr>cp_planner = st, cp_copies = [], cp_sources = src\<rparr> =
       \<lparr>cp_planner = st\<lparr>pl_transfers := pl_transfers st @ map (\<lambda>k. file_op UPLOAD V k (e k)) ups\<rparr>,
        cp_copies = map (\<lambda>(k, j). (file_op COPY_REMOTE V k (e k))\<lparr>so_remote_path_from := remote_of V j\<rparr>) cps,
        cp_sources = src'\<rparr> \<and>
       valid_sources V (\<lambda>j. if j \<in> set ups then Some (Body (sy_hash (e j))) else B j) src')"
  using assms(2)
proof (induction ks rule: rev_induct)
  case Nil
  show ?case using assms(1) by (intro exI [of _ "[]"]) simp
next
  case (snoc k ks)
  then obtain ups cps src' where ms: "mset (ups @ map fst cps) = mset ks"
    and cps: "\<forall>(k, j)\<in>set cps. B j = Some (Body (sy_hash (e k))) \<or> j \<in> set ups \<and> sy_hash (e j) = sy_hash (e k)"
    and res: "fold (place_new V) (map (\<lambda>k. (k, e k)) ks) \<lparr>cp_planner = st, cp_copies = [], cp_sources = src\<rparr> =
       \<lparr>cp_planner = st\<lparr>pl_transfers := pl_transfers st @ map (\<lambda>k. file_op UPLOAD V k (e k)) ups\<rparr>,
        cp_copies = map (\<lambda>(k, j). (file_op COPY_REMOTE V k (e k))\<lparr>so_remote_path_from := remote_of V j\<rparr>) cps,
        cp_sources = src'\<rparr>"
    and src': "valid_sources V (\<lambda>j. if j \<in> set ups then Some (Body (sy_hash (e j))) else B j) src'" by auto
  show ?case
  proof (cases "map_of src' (sy_hash (e k))")
    case None
    let ?B = "\<lambda>j. if j \<in> set (ups @ [k]) then Some (Body (sy_hash (e j))) else B j"
    have "B k = None" using snoc.prems by simp
    then have "valid_sources V ?B src'" using src' unfolding valid_sources_def by (fastforce split: if_splits)
    then have "valid_sources V ?B (omap_emplace (sy_hash (e k)) (remote_of V k) src')"
      by (rule valid_sources_emplace) simp
    moreover have "place_new V (k, e k) \<lparr>cp_planner = st', cp_copies = c, cp_sources = src'\<rparr> =
        \<lparr>cp_planner = st'\<lparr>pl_transfers := pl_transfers st' @ [file_op UPLOAD V k (e k)]\<rparr>, cp_copies = c,
         cp_sources = omap_emplace (sy_hash (e k)) (remote_of V k) src'\<rparr>" for st' c
      using None by (simp add: place_new_def emit_upload_def)
    ultimately show ?thesis using ms cps res
      by (intro exI [of _ "ups @ [k]"] exI [of _ cps]) auto
  next
    case (Some p)
    with src' obtain j where "p = remote_of V j" "j \<in> set ups \<and> sy_hash (e j) = sy_hash (e k) \<or> B j = Some (Body (sy_hash (e k)))"
      by (auto simp: valid_sources_def split: if_splits)
    moreover have "place_new V (k, e k) \<lparr>cp_planner = st', cp_copies = c, cp_sources = src'\<rparr> =
        \<lparr>cp_planner = st', cp_copies = c @ [(file_op COPY_REMOTE V k (e k))\<lparr>so_remote_path_from := p\<rparr>],
         cp_sources = src'\<rparr>" for st' c
      using Some by (simp add: place_new_def)
    ultimately show ?thesis using ms cps res src'
      by (intro exI [of _ ups] exI [of _ "cps @ [(k, j)]"]) auto
  qed
qed

text \<open>What the server holds when the first transfers are done, before the new files are placed.\<close>

definition settled :: "tree \<Rightarrow> tree \<Rightarrow> tree \<Rightarrow> (string \<times> string) list \<Rightarrow> string \<Rightarrow> item option" where
  "settled l r b M k =
     (if judge l r b k \<in> {Replace, Clash, Reput, Make_Remote} \<or> k \<in> fst ` set M then at l k
      else if judge l r b k \<in> {Removed, Drop_Remote} then None else at r k)"

definition delete_keys :: "tree \<Rightarrow> tree \<Rightarrow> tree \<Rightarrow> (string \<times> string) list \<Rightarrow> (string \<times> string) list" where
  "delete_keys l r b M = map (\<lambda>k. (k, [])) (picked l r b {Replace, Clash})
     @ map (\<lambda>k. (k, k)) (filter (\<lambda>k. k \<notin> snd ` set M) (picked l r b {Removed}))"

definition shape :: "sync_env \<Rightarrow> tree \<Rightarrow> tree \<Rightarrow> tree \<Rightarrow> (string \<times> fpath) list \<Rightarrow> string list \<Rightarrow> (string \<times> string) list \<Rightarrow>
    string list \<Rightarrow> string list \<Rightarrow> (string \<times> string) list \<Rightarrow> SyncOp list" where
  "shape V l r b C mks M rks ups cps =
     map (\<lambda>(k, p). (sync_op CONFLICT_DOWNLOAD (remote_of V k))\<lparr>so_local_path := p\<rparr>) C @
     map (\<lambda>k. (sync_op MKDIR_REMOTE (remote_of V k))\<lparr>so_relative_path := k, so_entry := the (map_of l k)\<rparr>) mks @
     map (\<lambda>(k, s). move_op V (k, the (map_of l k)) s) M @
     map (\<lambda>(k, p). (delete_op V k)\<lparr>so_relative_path_from := p\<rparr>) (delete_keys l r b M) @
     map (\<lambda>k. (sync_op RMDIR_REMOTE (remote_of V k))\<lparr>so_relative_path_from := k\<rparr>) rks @
     map (\<lambda>k. if judge l r b k = Get then file_op DOWNLOAD V k (the (map_of r k)) else file_op UPLOAD V k (the (map_of l k)))
       (picked l r b {Replace, Clash, Reput, Get} @ ups) @
     map (\<lambda>(k, j). (file_op COPY_REMOTE V k (the (map_of l k)))\<lparr>so_remote_path_from := remote_of V j\<rparr>) cps"

lemma judge_facts:
  assumes "no_type_clash l r b k"
  shows "judge l r b k \<in> {Replace, Clash, Reput, New} \<Longrightarrow> at l k = Some (Body (sy_hash (the (map_of l k))))"
    and "judge l r b k \<in> {Replace, Clash, Removed} \<Longrightarrow> \<exists>h. at r k = Some (Body h)"
    and "judge l r b k \<in> {Get, Removed} \<Longrightarrow> at r k = Some (Body (sy_hash (the (map_of r k))))"
    and "judge l r b k \<in> {Reput, New, Make_Remote, Delete_Local} \<Longrightarrow> at r k = None"
    and "judge l r b k \<in> {Drop_Remote, Make_Local} \<Longrightarrow> at l k = None \<and> at r k = Some Folder"
    and "judge l r b k = Make_Remote \<Longrightarrow> at l k = Some Folder"
    and "judge l r b k = Get \<Longrightarrow> at l k \<noteq> Some Folder"
    and "judge l r b k = Removed \<Longrightarrow> at l k = None"
  using assms unfolding judge_def at_def no_type_clash_def same_kind_def
  by (cases "map_of l k"; cases "map_of r k"; cases "map_of b k"; force simp: item_of_def split: if_splits)+

lemma stays_remote_settled:
  assumes "no_type_clash l r b k" and "map_of r k = Some e" and "stays_remote l b k e"
    and "\<forall>(k, s)\<in>set M. judge l r b k = New"
  shows "settled l r b M k = Some (Body (sy_hash e))"
proof -
  have "judge l r b k \<in> {Skip, Get}" using assms(1-3)
    by (cases "map_of l k"; cases "map_of b k")
      (auto simp: stays_remote_def judge_def no_type_clash_def same_kind_def)
  moreover from this have "k \<notin> fst ` set M" using assms(4) by force
  moreover have "at r k = Some (Body (sy_hash e))" using assms(2,3) by (simp add: at_def item_of_def stays_remote_def)
  ultimately show ?thesis by (auto simp: settled_def)
qed

lemma plan_sources:
  assumes m: "mergeable l r b" and new: "\<forall>(k, s)\<in>set M. judge l r b k = New"
  shows "valid_sources V (settled l r b M)
    (copy_sources V l r b (map (\<lambda>(k, s). move_op V (k, the (map_of l k)) s) M) (pl_transfers (classify_all V l r b)))"
proof (rule copy_sources_valid)
  let ?e = "\<lambda>k. the (map_of l k)"
  show "settled l r b M k = Some (Body (sy_hash e))" if "(k, e) \<in> set r" "stays_remote l b k e" for k e
    using stays_remote_settled [OF mergeable_clash [OF m] _ that(2) new] that(1) m
    by (simp add: mergeable_def omap_wf_in_set)
  show "\<exists>j. so_remote_path q = remote_of V j \<and> settled l r b M j = Some (Body (sy_hash (so_entry q)))" if q: "q \<in> set (map (\<lambda>(k, s). move_op V (k, the (map_of l k)) s) M)" for q
  proof -
    obtain k s where ks: "(k, s) \<in> set M" "q = move_op V (k, ?e k) s" using q by auto
    then have "judge l r b k = New" using new by auto
    then have "at l k = Some (Body (sy_hash (?e k)))" using judge_facts(1) [OF mergeable_clash [OF m]] by simp
    with ks show ?thesis by (intro exI [of _ k]) (force simp: settled_def move_op_def file_op_def sync_op_def)
  qed
  show "\<exists>j. so_remote_path q = remote_of V j \<and> settled l r b M j = Some (Body (sy_hash (so_entry q)))"
    if q: "q \<in> set (pl_transfers (classify_all V l r b))" "so_type q = UPLOAD" for q
  proof -
    obtain k where k: "judge l r b k \<in> {Replace, Clash, Reput}" "q = file_op UPLOAD V k (?e k)"
      using q plan_buckets(5) [OF mergeable_clash [OF m], of V] by (auto simp: picked_set file_op_def sync_op_def split: if_splits)
    then have "at l k = Some (Body (sy_hash (?e k)))" using judge_facts(1) [OF mergeable_clash [OF m]] by blast
    with k show ?thesis by (intro exI [of _ k]) (auto simp: settled_def file_op_def sync_op_def)
  qed
qed

lemma plan_shape:
  assumes m: "mergeable l r b"
  obtains C mks M rks ups cps where
    "sp_ops (compute_sync_plan V l r b) = shape V l r b C mks M rks ups cps"
    and "map fst C = picked l r b {Clash}"
    and "mset mks = mset (picked l r b {Make_Remote})" and "mset rks = mset (picked l r b {Drop_Remote})"
    and "sorted_wrt (\<lambda>i k. path_depth (remote_of V i) \<ge> path_depth (remote_of V k)) rks"
    and "distinct (map fst M)" and "distinct (map snd M)"
    and "\<forall>(k, s)\<in>set M. judge l r b k = New \<and> judge l r b s = Removed \<and>
       sy_hash (the (map_of l k)) = sy_hash (the (map_of r s))"
    and "mset (ups @ map fst cps) = mset (filter (\<lambda>k. k \<notin> fst ` set M) (picked l r b {New}))"
    and "\<forall>(k, j)\<in>set cps. settled l r b M j = Some (Body (sy_hash (the (map_of l k)))) \<or>
       j \<in> set ups \<and> sy_hash (the (map_of l j)) = sy_hash (the (map_of l k))"
    and "set (sp_local_mkdirs (compute_sync_plan V l r b)) = local_of V ` {k. judge l r b k = Make_Local}"
    and "set (sp_local_deletes (compute_sync_plan V l r b)) = local_of V ` {k. judge l r b k = Delete_Local}"
proof -
  let ?st0 = "classify_all V l r b" and ?e = "\<lambda>k. the (map_of l k)"
  let ?nk = "picked l r b {New}" and ?rk = "picked l r b {Removed}"
  let ?new = "map (\<lambda>k. (k, ?e k)) ?nk" and ?rem = "map (\<lambda>k. (k, the (map_of r k))) ?rk"
  let ?dt = "detect_moves V ?rem ?new"
  note bk = plan_buckets [OF mergeable_clash [OF m], of V]
  obtain C where C: "pl_conflict_downloads ?st0 =
      map (\<lambda>(k, p). (sync_op CONFLICT_DOWNLOAD (remote_of V k))\<lparr>so_local_path := p\<rparr>) C"
    "map fst C = picked l r b {Clash}" using plan_conflicts [OF mergeable_clash [OF m]] by blast
  obtain M0 where M0: "dt_moves ?dt = map (\<lambda>(k, s). move_op V (k, ?e k) s) M0"
    "distinct (map fst M0)" "distinct (map snd M0)"
    "\<forall>(k, s)\<in>set M0. judge l r b k = New \<and> judge l r b s = Removed \<and> sy_hash (?e k) = sy_hash (the (map_of r s))"
    "map ((!) ?nk) (filter (\<lambda>i. \<not> dt_new_consumed ?dt ! i) [0..<length ?nk]) = filter (\<lambda>k. k \<notin> fst ` set M0) ?nk"
    "map ((!) ?rk) (filter (\<lambda>i. \<not> dt_removed_consumed ?dt ! i) [0..<length ?rk]) = filter (\<lambda>k. k \<notin> snd ` set M0) ?rk"
    using plan_moves [OF m, of V] by blast
  define st1 where "st1 = ?st0\<lparr>pl_deletes := pl_deletes ?st0 @ leftover_deletes V ?rem (dt_removed_consumed ?dt)\<rparr>"
  have "\<forall>(k, s)\<in>set M0. judge l r b k = New \<and> judge l r b s = Removed" using M0(4) by auto
  then obtain M where "order_moves V (map (\<lambda>(k, s). move_op V (k, ?e k) s) M0) st1 =
      (map (\<lambda>(k, s). move_op V (k, ?e k) s) M, st1)" and M: "mset M = mset M0"
    by (rule order_moves_free)
  then have om: "order_moves V (dt_moves ?dt) st1 = (map (\<lambda>(k, s). move_op V (k, ?e k) s) M, st1)"
    by (simp only: M0(1))
  have sM: "set M = set M0" "distinct (map fst M)" "distinct (map snd M)"
    using mset_eq_setD [OF M] mset_eq_imp_distinct_iff [of "map fst M" "map fst M0"]
      mset_eq_imp_distinct_iff [of "map snd M" "map snd M0"] M M0(2,3) by simp_all
  define ms where "ms = map (\<lambda>(k, s). move_op V (k, ?e k) s) M"
  define src where "src = copy_sources V l r b ms (pl_transfers st1)"
  have new: "\<forall>(k, s)\<in>set M. judge l r b k = New" using M0(4) sM(1) by auto
  have "valid_sources V (settled l r b M) src"
    using plan_sources [OF m new, of V] by (simp add: src_def ms_def st1_def)
  moreover define uk where "uk = filter (\<lambda>k. k \<notin> fst ` set M) ?nk"
  have "\<forall>k\<in>set uk. settled l r b M k = None"
    using judge_facts(4) [OF mergeable_clash [OF m]] by (auto simp: uk_def picked_set settled_def)
  ultimately obtain ups cps src' where pl: "mset (ups @ map fst cps) = mset uk"
    "\<forall>(k, j)\<in>set cps. settled l r b M j = Some (Body (sy_hash (?e k))) \<or> j \<in> set ups \<and> sy_hash (?e j) = sy_hash (?e k)"
    "fold (place_new V) (map (\<lambda>k. (k, ?e k)) uk) \<lparr>cp_planner = st1, cp_copies = [], cp_sources = src\<rparr> =
       \<lparr>cp_planner = st1\<lparr>pl_transfers := pl_transfers st1 @ map (\<lambda>k. file_op UPLOAD V k (?e k)) ups\<rparr>,
        cp_copies = map (\<lambda>(k, j). (file_op COPY_REMOTE V k (?e k))\<lparr>so_remote_path_from := remote_of V j\<rparr>) cps,
        cp_sources = src'\<rparr>" using place_new_all [of V _ src uk ?e st1] by blast
  have idx: "fold (\<lambda>i. place_new V (?new ! i)) (filter (\<lambda>i. \<not> dt_new_consumed ?dt ! i) [0..<length ?new]) c =
      fold (place_new V) (map (\<lambda>k. (k, ?e k)) uk) c" for c
  proof -
    have "map ((!) ?new) (filter (\<lambda>i. \<not> dt_new_consumed ?dt ! i) [0..<length ?nk]) =
        map (\<lambda>k. (k, ?e k)) (map ((!) ?nk) (filter (\<lambda>i. \<not> dt_new_consumed ?dt ! i) [0..<length ?nk]))" by simp
    then have "map ((!) ?new) (filter (\<lambda>i. \<not> dt_new_consumed ?dt ! i) [0..<length ?nk]) = map (\<lambda>k. (k, ?e k)) uk"
      by (simp only: M0(5) uk_def sM(1))
    then show ?thesis
      using fold_map [of "place_new V" "(!) ?new" "filter (\<lambda>i. \<not> dt_new_consumed ?dt ! i) [0..<length ?nk]"]
      by (simp only: length_map comp_def)
  qed
  have left: "leftover_deletes V ?rem (dt_removed_consumed ?dt) =
      map (\<lambda>k. (delete_op V k)\<lparr>so_relative_path_from := k\<rparr>) (filter (\<lambda>k. k \<notin> snd ` set M) ?rk)"
  proof -
    have "leftover_deletes V ?rem (dt_removed_consumed ?dt) = map (\<lambda>k. (delete_op V k)\<lparr>so_relative_path_from := k\<rparr>)
        (map ((!) ?rk) (filter (\<lambda>i. \<not> dt_removed_consumed ?dt ! i) [0..<length ?rk]))"
      by (simp add: leftover_deletes_def)
    then show ?thesis by (simp only: M0(6) sM(1))
  qed
  define mks where "mks = sort_key (\<lambda>k. path_depth (remote_of V k)) (picked l r b {Make_Remote})"
  define rks where "rks = sort_key (\<lambda>k. - int (path_depth (remote_of V k))) (picked l r b {Drop_Remote})"
  define st2 where "st2 = st1\<lparr>pl_transfers := pl_transfers st1 @ map (\<lambda>k. file_op UPLOAD V k (?e k)) ups\<rparr>"
  define copies where "copies = map (\<lambda>(k, j). (file_op COPY_REMOTE V k (?e k))\<lparr>so_remote_path_from := remote_of V j\<rparr>) cps"
  have plan: "compute_sync_plan V l r b = finish_plan st2 ms copies"
    unfolding compute_sync_plan_def Let_def bk(6) bk(7) st1_def [symmetric] om prod.case ms_def [symmetric] src_def [symmetric] idx pl(3)
    by (simp add: st2_def copies_def)
  have del: "delete_op V = (\<lambda>k. (delete_op V k)\<lparr>so_relative_path_from := []\<rparr>)" by (auto simp: delete_op_def sync_op_def)
  have ups: "judge l r b k = New" if "k \<in> set ups" for k
  proof -
    have "k \<in> set uk" using that pl(1) by (metis Un_iff mset_eq_setD set_append)
    then show ?thesis by (simp add: uk_def picked_set)
  qed
  have ops: "sp_ops (compute_sync_plan V l r b) = shape V l r b C mks M rks ups cps"
    unfolding plan
    by (simp add: finish_plan_def phases_def shape_def st2_def st1_def bk(1-5) C(1) ms_def copies_def sort_key_map mks_def rks_def
        left delete_keys_def comp_def sync_op_def [of MKDIR_REMOTE] sync_op_def [of RMDIR_REMOTE] ups
        del [THEN fun_cong, symmetric] cong: map_cong)
  have rs: "sorted_wrt (\<lambda>i k. path_depth (remote_of V i) \<ge> path_depth (remote_of V k)) rks"
    using sorted_sort_key [of "\<lambda>k. - int (path_depth (remote_of V k))" "picked l r b {Drop_Remote}"]
    by (simp add: rks_def sorted_map)
  have "set (sp_local_mkdirs (compute_sync_plan V l r b)) = local_of V ` {k. judge l r b k = Make_Local}"
    "set (sp_local_deletes (compute_sync_plan V l r b)) = local_of V ` {k. judge l r b k = Delete_Local}"
    using bk(8,9) by (simp_all add: plan finish_plan_def st2_def st1_def picked_set)
  with ops C(2) rs sM M0(4) pl(1,2) show thesis
    by (intro that [of C mks M rks ups cps]) (simp_all add: mks_def rks_def uk_def)
qed

end
