(* ===== verification/SyncMerge.thy ===== *)
theory SyncMerge
  imports SyncShape
begin

text \<open>
  A plan carried out takes both replicas to the three-way merge of the trees; further properties of
  the plan.
\<close>

section \<open>Convergence\<close>

definition reflects :: "sync_env \<Rightarrow> tree \<Rightarrow> tree \<Rightarrow> tree \<Rightarrow> replica \<Rightarrow> bool" where
  "reflects V l r b S \<longleftrightarrow> (\<forall>k\<in>set (all_keys l r b).
     rp_remote S (remote_of V k) = at r k \<and> rp_local S (local_of V k) = at l k)"

text \<open>The names chosen for the conflict copies are new and differ from each other.\<close>

definition fresh_copies :: "sync_env \<Rightarrow> tree \<Rightarrow> tree \<Rightarrow> tree \<Rightarrow> replica \<Rightarrow> bool" where
  "fresh_copies V l r b S \<longleftrightarrow>
     (let cs = map so_local_path (filter (\<lambda>q. so_type q = CONFLICT_DOWNLOAD) (sp_ops (compute_sync_plan V l r b)))
      in distinct cs \<and> (\<forall>p\<in>set cs. rp_local S p = None \<and> p \<notin> local_of V ` set (all_keys l r b)))"

lemma local_work_looks:
  assumes "mergeable l r b" and "reflects V l r b S"
    and "set (sp_local_mkdirs plan) = local_of V ` {k. judge l r b k = Make_Local}"
    and "set (sp_local_deletes plan) = local_of V ` {k. judge l r b k = Delete_Local}"
  shows "looks (set (all_keys l r b)) V
    (\<lambda>k. case judge l r b k of Delete_Local \<Rightarrow> None | Make_Local \<Rightarrow> Some Folder | _ \<Rightarrow> at l k) (at r) (rp_local S) (local_work plan S)"
proof -
  let ?K = "set (all_keys l r b)"
  have wf: "\<forall>k\<in>?K. wf_key k" using assms(1) by (simp add: mergeable_def)
  have K: "k \<in> ?K" if "judge l r b k \<in> {Make_Local, Delete_Local}" for k using that by (auto intro: judge_key)
  have mem: "local_of V k \<in> local_of V ` {j. judge l r b j = v} \<longleftrightarrow> judge l r b k = v"
    if "k \<in> ?K" "v \<in> {Make_Local, Delete_Local}" for k v
  proof -
    have "k = j" if "local_of V k = local_of V j" "judge l r b j = v" for j
      using that wf \<open>k \<in> ?K\<close> \<open>v \<in> _\<close> K [of j] local_of_inj [of k j V] by auto
    then show ?thesis by auto
  qed
  have out: "p \<notin> local_of V ` {k. judge l r b k = v}" if "p \<notin> local_of V ` ?K" "v \<in> {Make_Local, Delete_Local}" for p v
    using that K by auto
  show ?thesis unfolding looks_def local_work_def assms(3,4)
    using wf assms(2) by (auto simp: mem out reflects_def split: verdict.splits)
qed

lemma judge_agrees:
  assumes "no_type_clash l r b k"
  shows "judge l r b k \<in> {Skip, Keep_Dir} \<Longrightarrow> at l k = at r k"
    and "judge l r b k \<in> {Forget, Nothing} \<Longrightarrow> at l k = None"
    and "judge l r b k = Forget \<Longrightarrow> at r k = None"
  using assms unfolding judge_def at_def no_type_clash_def same_kind_def
  by (cases "map_of l k"; cases "map_of r k"; cases "map_of b k"; force simp: item_of_def split: if_splits)+

lemma final_is_merged:
  assumes m: "mergeable l r b" and "\<forall>(k, s)\<in>set M. judge l r b k = New"
  shows "(if judge l r b k = New then at l k else settled l r b M k) = merged (at l k) (at r k) (at b k)"
    and "(case judge l r b k of Delete_Local \<Rightarrow> None | Make_Local \<Rightarrow> Some Folder | Get \<Rightarrow> at r k | _ \<Rightarrow> at l k) =
      merged (at l k) (at r k) (at b k)"
proof -
  note c = mergeable_clash [OF m, of k]
  have "at r k = None" if "judge l r b k = Nothing" using mergeable_nothing [OF m that] by (simp add: at_def)
  moreover have "k \<notin> fst ` set M" if "judge l r b k \<noteq> New" using assms(2) that by force
  moreover have "\<not> (judge l r b k = Nothing \<and> map_of r k \<noteq> None)" using mergeable_nothing [OF m] by auto
  ultimately show "(if judge l r b k = New then at l k else settled l r b M k) = merged (at l k) (at r k) (at b k)"
    "(case judge l r b k of Delete_Local \<Rightarrow> None | Make_Local \<Rightarrow> Some Folder | Get \<Rightarrow> at r k | _ \<Rightarrow> at l k) =
      merged (at l k) (at r k) (at b k)"
    using merged_judge [OF c] judge_facts [OF c] judge_agrees [OF c] unfolding settled_def
    by (cases "judge l r b k"; simp)+
qed

text \<open>The first five phases free the remote paths and bring the folders and renamed files.\<close>

definition cleared :: "tree \<Rightarrow> tree \<Rightarrow> tree \<Rightarrow> (string \<times> string) list \<Rightarrow> string \<Rightarrow> item option" where
  "cleared l r b M k =
     (if judge l r b k = Make_Remote \<or> k \<in> fst ` set M then at l k
      else if judge l r b k \<in> {Replace, Clash, Removed, Drop_Remote} then None else at r k)"

lemma below_dropped:
  assumes m: "mergeable l r b" and d: "judge l r b d = Drop_Remote" and "under d k"
  shows "map_of l k = None \<and> (map_of r k = None \<or> judge l r b k \<in> {Removed, Drop_Remote})"
proof -
  have dk: "d \<in> set (all_keys l r b)" using d by (simp add: judge_key)
  have "at l d = None" using judge_facts(5) [OF mergeable_clash [OF m], of d] d by simp
  then have "\<not> has_local_children l d" using m dk by (auto simp: mergeable_def at_def)
  then have "map_of l k = None"
    using m \<open>under d k\<close> by (auto simp: mergeable_def has_local_children_iff map_of_eq_None_iff)
  moreover have "judge l r b k \<in> {Removed, Drop_Remote}" if "map_of r k \<noteq> None"
    using m dk d \<open>under d k\<close> that by (auto simp: mergeable_def map_of_eq_None_iff)
  ultimately show ?thesis by blast
qed

lemma run_clearing:
  assumes m: "mergeable l r b" and T: "looks (set (all_keys l r b)) V L (at r) X T"
    and mks: "mset mks = mset (picked l r b {Make_Remote})" and rks: "mset rks = mset (picked l r b {Drop_Remote})"
    and sorted: "sorted_wrt (\<lambda>i k. path_depth (remote_of V i) \<ge> path_depth (remote_of V k)) rks"
    and dM: "distinct (map fst M)" "distinct (map snd M)"
    and M: "\<forall>(k, s)\<in>set M. judge l r b k = New \<and> judge l r b s = Removed \<and>
       sy_hash (the (map_of l k)) = sy_hash (the (map_of r s))"
  shows "\<exists>T'. run_ops (
     map (\<lambda>k. (sync_op MKDIR_REMOTE (remote_of V k))\<lparr>so_relative_path := k, so_entry := the (map_of l k)\<rparr>) mks @
     map (\<lambda>(k, s). move_op V (k, the (map_of l k)) s) M @
     map (\<lambda>(k, p). (delete_op V k)\<lparr>so_relative_path_from := p\<rparr>) (delete_keys l r b M) @
     map (\<lambda>k. (sync_op RMDIR_REMOTE (remote_of V k))\<lparr>so_relative_path_from := k\<rparr>) rks) T = Some T' \<and>
    looks (set (all_keys l r b)) V L (cleared l r b M) X T'"
proof -
  let ?K = "set (all_keys l r b)" and ?J = "judge l r b"
  note f = judge_facts [OF mergeable_clash [OF m]]
  have sets: "set mks = {k. ?J k = Make_Remote}" "set rks = {k. ?J k = Drop_Remote}" "distinct mks" "distinct rks"
    using mset_eq_setD [OF mks] mset_eq_setD [OF rks] mset_eq_imp_distinct_iff [OF mks] mset_eq_imp_distinct_iff [OF rks]
    by (simp_all add: picked_set)
  have K: "k \<in> ?K" if "?J k \<noteq> Nothing" for k using that by (rule judge_key)
  define R1 where "R1 = (\<lambda>k. if k \<in> set mks then Some Folder else at r k)"
  define R2 where "R2 = (\<lambda>k. if k \<in> fst ` set M then Some (Body (sy_hash (the (map_of l k)))) else if k \<in> snd ` set M then None else R1 k)"
  define R3 where "R3 = (\<lambda>k. if k \<in> fst ` set (delete_keys l r b M) then None else R2 k)"
  have dk: "fst ` set (delete_keys l r b M) = {k. ?J k \<in> {Replace, Clash} \<or> ?J k = Removed \<and> k \<notin> snd ` set M}"
    "distinct (map fst (delete_keys l r b M))"
    by (auto simp: delete_keys_def picked_set comp_def image_Un image_image)
  have Mj: "?J k = New" if "k \<in> fst ` set M" for k using M that by auto
  have Ms: "?J k = Removed" if "k \<in> snd ` set M" for k using M that by auto
  obtain T1 where T1: "run_ops (map (\<lambda>k. (sync_op MKDIR_REMOTE (remote_of V k))\<lparr>so_relative_path := k, so_entry := the (map_of l k)\<rparr>) mks) T = Some T1"
    "looks ?K V L R1 X T1"
    using phase_mkdirs [OF T sets(3)] f(4) K sets(1) unfolding R1_def by force
  have "\<forall>(k, s)\<in>set M. R1 k = None \<and> R1 s = Some (Body (sy_hash (the (map_of l k)))) \<and> k \<in> ?K \<and> s \<in> ?K"
    using M f(3,4) K sets(1) by (force simp: R1_def)
  then obtain T2 where T2: "run_ops (map (\<lambda>(k, s). move_op V (k, the (map_of l k)) s) M) T1 = Some T2" "looks ?K V L R2 X T2"
    using phase_moves [OF T1(2) dM, where h = "\<lambda>k. sy_hash (the (map_of l k))" and e = "\<lambda>k. the (map_of l k)"]
    unfolding R2_def by blast
  have "\<forall>k\<in>fst ` set (delete_keys l r b M). k \<in> ?K \<and> (\<exists>h. R2 k = Some (Body h))"
    using f(2) K Mj Ms unfolding dk R2_def R1_def sets(1) by force
  then obtain T3 where T3: "run_ops (map (\<lambda>(k, p). (delete_op V k)\<lparr>so_relative_path_from := p\<rparr>) (delete_keys l r b M)) T2 = Some T3"
    "looks ?K V L R3 X T3" using phase_deletes [OF T2(2) dk(2)] unfolding R3_def by blast
  have R3: "R3 k = (if ?J k \<in> {Replace, Clash, Removed} then None else if ?J k = Make_Remote \<or> k \<in> fst ` set M then at l k else at r k)" for k
    using Mj [of k] Ms [of k] f(1,6) [of k] unfolding R3_def R2_def R1_def dk sets(1) by auto
  have "\<forall>k\<in>set rks. R3 k = Some Folder \<and> k \<in> ?K" using sets(2) f(5) Mj K by (auto simp: R3)
  moreover have "\<forall>d\<in>set rks. \<forall>k. under d k \<longrightarrow> k \<in> set rks \<or> R3 k = None"
  proof (intro ballI allI impI)
    fix d k assume "d \<in> set rks" "under d k"
    then show "k \<in> set rks \<or> R3 k = None"
      using below_dropped [OF m, of d k] sets(2) Mj [of k] by (auto simp: R3 at_def)
  qed
  ultimately obtain T4 where T4: "run_ops (map (\<lambda>k. (sync_op RMDIR_REMOTE (remote_of V k))\<lparr>so_relative_path_from := k\<rparr>) rks) T3 = Some T4"
    "looks ?K V L (\<lambda>k. if k \<in> set rks then None else R3 k) X T4" using phase_rmdirs [OF T3(2) sets(4) _ sorted] by blast
  have "(\<lambda>k. if k \<in> set rks then None else R3 k) = cleared l r b M"
    using Mj by (auto simp: R3 cleared_def sets(2) fun_eq_iff)
  with T1(1) T2(1) T3(1) T4 show ?thesis by (simp add: run_ops_append)
qed

lemma run_filling:
  assumes m: "mergeable l r b"
    and T: "looks (set (all_keys l r b)) V
      (\<lambda>k. case judge l r b k of Delete_Local \<Rightarrow> None | Make_Local \<Rightarrow> Some Folder | _ \<Rightarrow> at l k) (cleared l r b M) X T"
    and M: "\<forall>(k, s)\<in>set M. judge l r b k = New"
    and new: "mset (ups @ map fst cps) = mset (filter (\<lambda>k. k \<notin> fst ` set M) (picked l r b {New}))"
    and cps: "\<forall>(k, j)\<in>set cps. settled l r b M j = Some (Body (sy_hash (the (map_of l k)))) \<or>
       j \<in> set ups \<and> sy_hash (the (map_of l j)) = sy_hash (the (map_of l k))"
  shows "\<exists>T'. run_ops (
     map (\<lambda>k. if judge l r b k = Get then file_op DOWNLOAD V k (the (map_of r k)) else file_op UPLOAD V k (the (map_of l k)))
       (picked l r b {Replace, Clash, Reput, Get} @ ups) @
     map (\<lambda>(k, j). (file_op COPY_REMOTE V k (the (map_of l k)))\<lparr>so_remote_path_from := remote_of V j\<rparr>) cps) T = Some T' \<and>
    looks (set (all_keys l r b)) V
     (\<lambda>k. case judge l r b k of Delete_Local \<Rightarrow> None | Make_Local \<Rightarrow> Some Folder | Get \<Rightarrow> at r k | _ \<Rightarrow> at l k)
     (\<lambda>k. if judge l r b k = New then at l k else settled l r b M k) X T'"
proof -
  let ?K = "set (all_keys l r b)" and ?J = "judge l r b"
  let ?ks = "picked l r b {Replace, Clash, Reput, Get} @ ups"
  let ?h = "\<lambda>k. if ?J k = Get then sy_hash (the (map_of r k)) else sy_hash (the (map_of l k))"
  note f = judge_facts [OF mergeable_clash [OF m]]
  have K: "k \<in> ?K" if "?J k \<noteq> Nothing" for k using that by (rule judge_key)
  have un: "set ups \<union> fst ` set cps = {k. ?J k = New} - fst ` set M" "distinct (ups @ map fst cps)"
    using mset_eq_setD [OF new] mset_eq_imp_distinct_iff [OF new] by (auto simp: picked_set)
  have upsN: "?J k = New \<and> k \<notin> fst ` set M" if "k \<in> set ups \<union> fst ` set cps" for k using un(1) that by auto
  have MN: "?J k = New" if "k \<in> fst ` set M" for k using M that by auto
  have kinds: "?J k \<in> {Replace, Clash, Reput, Get} \<or> ?J k = New" "k \<notin> fst ` set M" if "k \<in> set ?ks" for k
    using that upsN [of k] MN [of k] by (cases "k \<in> fst ` set M"; auto simp: picked_set)+
  have "distinct ?ks" using un(2) upsN by (auto simp: picked_set)
  moreover have "\<forall>k\<in>set ?ks. k \<in> ?K" using K upsN by (auto simp: picked_set)
  moreover have "\<forall>k\<in>set ?ks. if ?J k = Get
      then cleared l r b M k = Some (Body (?h k)) \<and> (case ?J k of Delete_Local \<Rightarrow> None | Make_Local \<Rightarrow> Some Folder | _ \<Rightarrow> at l k) \<noteq> Some Folder
      else cleared l r b M k = None \<and> (case ?J k of Delete_Local \<Rightarrow> None | Make_Local \<Rightarrow> Some Folder | _ \<Rightarrow> at l k) = Some (Body (?h k))"
  proof (rule ballI)
    fix k assume "k \<in> set ?ks"
    from kinds [OF this] f(1,3,4,7) [of k] show "if ?J k = Get
      then cleared l r b M k = Some (Body (?h k)) \<and> (case ?J k of Delete_Local \<Rightarrow> None | Make_Local \<Rightarrow> Some Folder | _ \<Rightarrow> at l k) \<noteq> Some Folder
      else cleared l r b M k = None \<and> (case ?J k of Delete_Local \<Rightarrow> None | Make_Local \<Rightarrow> Some Folder | _ \<Rightarrow> at l k) = Some (Body (?h k))"
      by (auto simp: cleared_def)
  qed
  ultimately obtain T1 where T1: "run_ops (map (\<lambda>k. if ?J k = Get then file_op DOWNLOAD V k (the (map_of r k))
        else file_op UPLOAD V k (the (map_of l k))) ?ks) T = Some T1"
    "looks ?K V (\<lambda>k. if k \<in> set ?ks \<and> ?J k = Get then Some (Body (?h k)) else
       (case ?J k of Delete_Local \<Rightarrow> None | Make_Local \<Rightarrow> Some Folder | _ \<Rightarrow> at l k))
      (\<lambda>k. if k \<in> set ?ks \<and> ?J k \<noteq> Get then Some (Body (?h k)) else cleared l r b M k) X T1"
    using phase_transfers [OF T, where h = ?h and ks = ?ks and down = "\<lambda>k. ?J k = Get"
        and e = "\<lambda>k. the (map_of r k)" and e' = "\<lambda>k. the (map_of l k)"] by blast
  define R1 where "R1 = (\<lambda>k. if k \<in> set ?ks \<and> ?J k \<noteq> Get then Some (Body (?h k)) else cleared l r b M k)"
  have R1: "R1 k = (if k \<in> set ups then at l k else settled l r b M k)" for k
    using f(1,4) [of k] upsN [of k] MN [of k]
    by (cases "k \<in> fst ` set M") (auto simp: R1_def settled_def cleared_def picked_set)
  have "R1 k = None \<and> R1 j = Some (Body (sy_hash (the (map_of l k)))) \<and> k \<in> ?K \<and> j \<in> ?K" if c: "(k, j) \<in> set cps" for k j
  proof -
    have kc: "k \<in> fst ` set cps" using c by force
    then have k: "?J k = New" "k \<notin> fst ` set M" using upsN [of k] by simp_all
    have "k \<notin> set ups" using un(2) kc by auto
    with k have "R1 k = None" using f(4) [of k] by (simp add: R1 settled_def)
    moreover have j: "R1 j = Some (Body (sy_hash (the (map_of l k))))"
    proof (cases "j \<in> set ups")
      case True
      with upsN [of j] f(4) [of j] have "settled l r b M j = None" by (simp add: settled_def)
      then show ?thesis using True cps c f(1) [of j] upsN [of j] by (auto simp: R1)
    next
      case False
      then show ?thesis using cps c by (auto simp: R1)
    qed
    moreover have "j \<in> ?K" using j by (auto simp: R1 settled_def at_def all_keys_iff split: if_splits)
    ultimately show ?thesis using k K by simp
  qed
  then have ready: "\<forall>(k, j)\<in>set cps. R1 k = None \<and> R1 j = Some (Body (sy_hash (the (map_of l k)))) \<and> k \<in> ?K \<and> j \<in> ?K"
    by auto
  have dc: "distinct (map fst cps)" using un(2) by simp
  obtain T2 where T2: "run_ops (map (\<lambda>(k, j). (file_op COPY_REMOTE V k (the (map_of l k)))\<lparr>so_remote_path_from := remote_of V j\<rparr>) cps) T1 = Some T2"
    "looks ?K V (\<lambda>k. if k \<in> set ?ks \<and> ?J k = Get then Some (Body (?h k)) else
       (case ?J k of Delete_Local \<Rightarrow> None | Make_Local \<Rightarrow> Some Folder | _ \<Rightarrow> at l k))
      (\<lambda>k. if k \<in> fst ` set cps then Some (Body (sy_hash (the (map_of l k)))) else R1 k) X T2"
    using phase_copies [OF T1(2) [folded R1_def] dc ready, where e = "\<lambda>k. the (map_of l k)"] by blast
  have "(\<lambda>k. if k \<in> fst ` set cps then Some (Body (sy_hash (the (map_of l k)))) else R1 k) =
      (\<lambda>k. if ?J k = New then at l k else settled l r b M k)"
  proof (rule ext)
    fix k
    have "k \<in> set ups \<or> k \<in> fst ` set cps \<or> k \<in> fst ` set M" if "?J k = New" using un(1) that by blast
    then show "(if k \<in> fst ` set cps then Some (Body (sy_hash (the (map_of l k)))) else R1 k) =
        (if ?J k = New then at l k else settled l r b M k)"
      using f(1) [of k] upsN [of k] by (auto simp: R1 settled_def)
  qed
  moreover have "(\<lambda>k. if k \<in> set ?ks \<and> ?J k = Get then Some (Body (?h k)) else
       (case ?J k of Delete_Local \<Rightarrow> None | Make_Local \<Rightarrow> Some Folder | _ \<Rightarrow> at l k)) =
     (\<lambda>k. case ?J k of Delete_Local \<Rightarrow> None | Make_Local \<Rightarrow> Some Folder | Get \<Rightarrow> at r k | _ \<Rightarrow> at l k)"
    using f(3) by (auto simp: picked_set fun_eq_iff split: verdict.splits)
  ultimately have "looks ?K V
     (\<lambda>k. case ?J k of Delete_Local \<Rightarrow> None | Make_Local \<Rightarrow> Some Folder | Get \<Rightarrow> at r k | _ \<Rightarrow> at l k)
     (\<lambda>k. if ?J k = New then at l k else settled l r b M k) X T2" using T2(2) by (simp only:)
  then show ?thesis unfolding run_ops_append T1(1) option.case T2(1) by blast
qed

lemma shape_conflicts:
  assumes "sp_ops (compute_sync_plan V l r b) = shape V l r b C mks M rks ups cps"
  shows "map so_local_path (filter (\<lambda>q. so_type q = CONFLICT_DOWNLOAD) (sp_ops (compute_sync_plan V l r b))) = map snd C"
proof -
  have all: "filter P (map g xs) = map g xs" if "\<And>x. P (g x)" for P :: "SyncOp \<Rightarrow> bool" and g and xs :: "(string \<times> fpath) list"
    using that by (simp add: filter_id_conv)
  have none: "filter P (map g xs) = []" if "\<And>x. \<not> P (g x)" for P :: "SyncOp \<Rightarrow> bool" and g :: "'x \<Rightarrow> SyncOp" and xs
    using that by (simp add: filter_empty_conv)
  show ?thesis unfolding assms shape_def filter_append
    by (simp add: all none op_simps split_beta comp_def)
qed

text \<open>The local side after the local work, and the content that a conflict copy keeps.\<close>

abbreviation worked :: "tree \<Rightarrow> tree \<Rightarrow> tree \<Rightarrow> string \<Rightarrow> item option" where
  "worked l r b \<equiv> (\<lambda>k. case judge l r b k of Delete_Local \<Rightarrow> None | Make_Local \<Rightarrow> Some Folder | _ \<Rightarrow> at l k)"

definition copy_hash :: "tree \<Rightarrow> (string \<times> fpath) list \<Rightarrow> fpath \<Rightarrow> string" where
  "copy_hash r C p = sy_hash (the (map_of r (the (map_of (map (\<lambda>(k, p). (p, k)) C) p))))"

abbreviation with_copies :: "tree \<Rightarrow> (string \<times> fpath) list \<Rightarrow> replica \<Rightarrow> fpath \<Rightarrow> item option" where
  "with_copies r C S \<equiv> (\<lambda>p. if p \<in> snd ` set C then Some (Body (copy_hash r C p)) else rp_local S p)"

lemma copied_clash:
  assumes m: "mergeable l r b" and C: "map fst C = picked l r b {Clash}" and d: "distinct (map snd C)" and kp: "(k, p) \<in> set C"
  shows "judge l r b k = Clash" and "at r k = Some (Body (copy_hash r C p))"
proof -
  have "k \<in> set (map fst C)" using kp by force
  then show J: "judge l r b k = Clash" unfolding C by (simp add: picked_set)
  have "map_of (map (\<lambda>(k, p). (p, k)) C) p = Some k"
    using d kp by (intro map_of_is_SomeI) (force simp: split_beta comp_def)+
  with J judge_facts(2) [OF mergeable_clash [OF m], of k] show "at r k = Some (Body (copy_hash r C p))"
    by (auto simp: copy_hash_def at_def item_of_def split: if_splits)
qed

lemma run_ops_chain:
  assumes "\<exists>T1. run_ops xs S = Some T1 \<and> P T1" and "\<And>T1. P T1 \<Longrightarrow> \<exists>T2. run_ops ys T1 = Some T2 \<and> Q T2"
  shows "\<exists>T2. run_ops (xs @ ys) S = Some T2 \<and> Q T2"
  using assms run_ops_compose by blast

lemma run_conflicts:
  assumes m: "mergeable l r b" and C: "map fst C = picked l r b {Clash}" and d: "distinct (map snd C)"
    and free: "\<forall>p\<in>set (map snd C). rp_local S p = None \<and> p \<notin> local_of V ` set (all_keys l r b)"
    and T: "looks (set (all_keys l r b)) V (worked l r b) (at r) (rp_local S) T"
  shows "\<exists>T1. run_ops (map (\<lambda>(k, p). (sync_op CONFLICT_DOWNLOAD (remote_of V k))\<lparr>so_local_path := p\<rparr>) C) T = Some T1 \<and>
    looks (set (all_keys l r b)) V (worked l r b) (at r) (with_copies r C S) T1"
proof -
  have "at r k = Some (Body (copy_hash r C p)) \<and> k \<in> set (all_keys l r b) \<and> p \<notin> local_of V ` set (all_keys l r b) \<and> rp_local S p = None"
    if "(k, p) \<in> set C" for k p
    using copied_clash [OF m C d that] bspec [OF free, of p] that judge_key [of l r b k] by force
  then show ?thesis using phase_conflicts [OF T d] by blast
qed


text \<open>A pair of folders with a conflict, a renamed file, a new folder and a file that is new on the server.\<close>

definition file_entry :: "string \<Rightarrow> SyncEntry" where
  "file_entry h = \<lparr>sy_hash = h, sy_mtime = 0, sy_size = 1, sy_is_directory = False\<rparr>"

definition folder_entry :: SyncEntry where
  "folder_entry = \<lparr>sy_hash = [], sy_mtime = 0, sy_size = 0, sy_is_directory = True\<rparr>"

definition demo_sync :: sync_env where
  "demo_sync = \<lparr>sn_local_dir = Abs [''h''], sn_remote_dir = ''r'',
     sn_clock = (\<lambda>_. \<lparr>tm_year = 125, tm_mon = 0, tm_mday = 3, tm_hour = 4, tm_min = 5, tm_sec = 6\<rparr>)\<rparr>"

definition demo_local :: tree where
  "demo_local = [(''a'', file_entry ''1''), (''d'', folder_entry), (''n'', file_entry ''9'')]"

definition demo_remote :: tree where
  "demo_remote = [(''a'', file_entry ''2''), (''o'', file_entry ''9''), (''s'', file_entry ''5'')]"

definition demo_baseline :: tree where
  "demo_baseline = [(''a'', file_entry ''0''), (''o'', file_entry ''9'')]"

definition demo_replica :: replica where
  "demo_replica = \<lparr>rp_local = map_of [(Abs [''h'', ''a''], Body ''1''), (Abs [''h'', ''d''], Folder), (Abs [''h'', ''n''], Body ''9'')],
     rp_remote = map_of [(''r/a'', Body ''2''), (''r/o'', Body ''9''), (''r/s'', Body ''5'')]\<rparr>"

lemmas demo_sync_defs = file_entry_def folder_entry_def demo_sync_def demo_local_def demo_remote_def demo_baseline_def demo_replica_def

lemma demo_mergeable: "mergeable demo_local demo_remote demo_baseline"
  by code_simp

lemma demo_reflects: "reflects demo_sync demo_local demo_remote demo_baseline demo_replica"
  by code_simp

lemma demo_fresh: "fresh_copies demo_sync demo_local demo_remote demo_baseline demo_replica"
  by code_simp

lemma demo_keys: "set (all_keys demo_local demo_remote demo_baseline) = {''a'', ''d'', ''n'', ''o'', ''s''}"
  by code_simp

definition demo_merged :: "string \<Rightarrow> item option" where
  "demo_merged k = merged (at demo_local k) (at demo_remote k) (at demo_baseline k)"

lemma demo_values:
  "demo_merged ''a'' = Some (Body ''1'')" "demo_merged ''n'' = Some (Body ''9'')" "demo_merged ''o'' = None"
  "demo_merged ''s'' = Some (Body ''5'')" "demo_merged ''d'' = Some Folder"
  "at demo_remote ''a'' = Some (Body ''2'')" "judge demo_local demo_remote demo_baseline ''a'' = Clash"
  "remote_of demo_sync ''a'' = ''r/a''" "remote_of demo_sync ''n'' = ''r/n''" "remote_of demo_sync ''o'' = ''r/o''"
  "remote_of demo_sync ''d'' = ''r/d''" "local_of demo_sync ''s'' = Abs [''h'', ''s'']"
  by code_simp+


section \<open>Further properties of the plan\<close>



text \<open>
  Property (C27). The loop that orders the renames ends within as many rounds as there are renames and
  leaves nothing on its stack. It emits every rename at most once, each after the rename that
  vacates the path it wants, and what it leaves out waits for another one that is left out.
\<close>

theorem renames_are_ordered:
  "fst (kahn_run moves) = [] \<and> distinct (kahn moves) \<and> set (kahn moves) \<subseteq> {..<length moves} \<and>
   (\<forall>p < length (kahn moves). case occupant moves (kahn moves ! p) of None \<Rightarrow> True | Some j \<Rightarrow> j \<in> set (take p (kahn moves))) \<and>
   (\<forall>i < length moves. i \<in> set (kahn moves) \<or> (\<exists>j. occupant moves i = Some j \<and> j \<notin> set (kahn moves)))"
proof -
  obtain d where "fst (kahn_run moves) = []" and inv: "kahn_inv moves [] d (kahn moves)" using kahn_run_ends by blast
  moreover have "i \<in> set (kahn moves) \<or> (\<exists>j. occupant moves i = Some j \<and> j \<notin> set (kahn moves))" if "i < length moves" for i
    using inv that by (auto simp: kahn_inv_def split: option.splits if_splits)
  ultimately show ?thesis by (auto simp: kahn_inv_def)
qed

text \<open>Two renames, the first into the place that the second vacates: the second runs first.\<close>

definition demo_moves :: "SyncOp list" where
  "demo_moves = [move_op demo_sync (''b'', file_entry ''1'') ''a'', move_op demo_sync (''c'', file_entry ''2'') ''b'']"

lemma demo_kahn: "kahn demo_moves = [1, 0]" "occupant demo_moves 0 = Some 1" "length demo_moves = 2"
  by code_simp+

theorem renames_are_ordered_witness: "fst (kahn_run demo_moves) = [] \<and> kahn demo_moves = [1, 0] \<and> 1 \<in> set (take 1 (kahn demo_moves))"
  using renames_are_ordered [of demo_moves] demo_kahn by (auto dest: spec [of _ 1])


end
