(* ===== verification/ClientSync.thy ===== *)
theory ClientSync
  imports ClientLaws SyncMerge
begin

text \<open>
  The baseline that the client records while it carries out a plan of synchronisation.
\<close>

section \<open>Which keys a plan records\<close>

lemma plan_keeps_baseline:
  "sp_baseline_set (compute_sync_plan V l r b) = sp_baseline_set (classify_all V l r b)"
  "sp_baseline_drop (compute_sync_plan V l r b) = sp_baseline_drop (classify_all V l r b)"
proof -
  define f where "f st = (sp_baseline_set st, sp_baseline_drop st)" for st :: planner
  have upload: "f (emit_upload V k e x st) = f st" for k e x st by (simp add: f_def emit_upload_def)
  have down: "f (fold (\<lambda>i. downgrade V (ms ! i)) is st) = f st" for ms "is" st
    by (induction "is" arbitrary: st) (simp_all add: downgrade_def upload, simp add: f_def)
  have place: "f (cp_planner (fold (\<lambda>i. place_new V (ns ! i)) is c)) = f (cp_planner c)" for ns "is" c
    by (induction "is" arbitrary: c) (simp_all add: place_new_def upload split: option.split)
  have om: "f (snd (order_moves V ms st)) = f st" for ms st by (simp add: order_moves_def Let_def down)
  have st: "f (st\<lparr>pl_deletes := ds\<rparr>) = f st" for st ds by (simp add: f_def)
  have "f (cp_planner (fold (\<lambda>i. place_new V (ns ! i)) is
      \<lparr>cp_planner = snd (order_moves V ms ((classify_all V l r b)\<lparr>pl_deletes := ds\<rparr>)), cp_copies = x, cp_sources = y\<rparr>)) =
      f (classify_all V l r b)" for ns "is" ms ds x y by (simp add: place om st)
  then have "(sp_baseline_set (compute_sync_plan V l r b), sp_baseline_drop (compute_sync_plan V l r b)) = f (classify_all V l r b)"
    by (simp add: compute_sync_plan_def finish_plan_def Let_def split_beta f_def)
  then show "sp_baseline_set (compute_sync_plan V l r b) = sp_baseline_set (classify_all V l r b)"
    "sp_baseline_drop (compute_sync_plan V l r b) = sp_baseline_drop (classify_all V l r b)" by (simp_all add: f_def)
qed

lemma classify_baseline_drop:
  "no_type_clash l r b k \<Longrightarrow> sp_baseline_drop (classify V l r b k st) = sp_baseline_drop st @
     (if judge l r b k \<in> {Delete_Local, Forget} then [k] else [])"
  by (auto simp: classify_defs split: option.splits)

lemma classify_baseline_set:
  "no_type_clash l r b k \<Longrightarrow> sp_baseline_set (classify V l r b k st) =
     (if judge l r b k \<in> {Skip, Keep_Dir} then omap_put k (the (map_of l k)) (sp_baseline_set st)
      else if judge l r b k = Make_Local then omap_put k (the (map_of r k)) (sp_baseline_set st) else sp_baseline_set st)"
  by (auto simp: classify_defs split: option.splits)

lemma plan_drop: assumes "mergeable l r b"
  shows "set (sp_baseline_drop (compute_sync_plan V l r b)) = {k. judge l r b k \<in> {Delete_Local, Forget}}"
  using bucket [OF mergeable_clash [OF assms] classify_baseline_drop, of V] picked_set [of "{Delete_Local, Forget}" l r b]
  by (simp add: plan_keeps_baseline empty_planner_def)

lemma plan_set:
  assumes "mergeable l r b"
  shows "set (sp_baseline_set (compute_sync_plan V l r b)) =
    {(k, e). judge l r b k \<in> {Skip, Keep_Dir} \<and> e = the (map_of l k) \<or> judge l r b k = Make_Local \<and> e = the (map_of r k)}"
proof -
  let ?e = "\<lambda>k. if judge l r b k = Make_Local then the (map_of r k) else the (map_of l k)"
  have "omap_wf (sp_baseline_set (fold (classify V l r b) ks empty_planner)) \<and>
    map_of (sp_baseline_set (fold (classify V l r b) ks empty_planner)) =
      (\<lambda>k. if k \<in> set ks \<and> judge l r b k \<in> {Skip, Keep_Dir, Make_Local} then Some (?e k) else None)" for ks
    by (induction ks rule: rev_induct)
      (auto simp: classify_baseline_set [OF mergeable_clash [OF assms]] empty_planner_def fun_eq_iff)
  then have w: "omap_wf (sp_baseline_set (classify_all V l r b))"
    and m: "map_of (sp_baseline_set (classify_all V l r b)) k =
      (if k \<in> set (all_keys l r b) \<and> judge l r b k \<in> {Skip, Keep_Dir, Make_Local} then Some (?e k) else None)" for k
    by (simp_all add: classify_all_def)
  show ?thesis unfolding plan_keeps_baseline
    using judge_key [of l r b] by (auto simp: omap_wf_in_set [OF w] m split: if_splits)
qed

section \<open>Recording\<close>

lemma baseline_tree_at:
  assumes "omap_wf (mf_entries mf)"
  shows "at (baseline_tree mf) k = map_option (\<lambda>e. if sm_is_directory e then Folder else Body (sm_hash e)) (map_of (mf_entries mf) k)"
proof -
  define g where "g e = \<lparr>sy_hash = sm_hash e, sy_mtime = sm_mtime e, sy_size = sm_size e, sy_is_directory = sm_is_directory e\<rparr>" for e :: SyncManifestEntry
  have "omap_wf (fold (\<lambda>(p, e). omap_put p (g e)) es m) \<and>
      map_of (fold (\<lambda>(p, e). omap_put p (g e)) es m) = map_of m ++ (map_option g \<circ> map_of (rev es))"
    if "omap_wf m" for es m using that
  proof (induction es arbitrary: m)
    case (Cons a es)
    then show ?case by (cases a) (auto simp: fun_eq_iff map_add_def split: option.split)
  qed (simp add: fun_eq_iff)
  from this [of "[]" "mf_entries mf"] have "map_of (baseline_tree mf) = map_option g \<circ> map_of (rev (mf_entries mf))"
    by (simp add: baseline_tree_def g_def)
  moreover have "map_of (rev (mf_entries mf)) = map_of (mf_entries mf)"
    using omap_wf_distinct [OF assms] by (metis distinct_map map_of_inject_set rev_map distinct_rev set_rev)
  ultimately show ?thesis by (cases "map_of (mf_entries mf) k") (simp_all add: at_def g_def item_of_def)
qed

text \<open>A manifest that has the new values on the keys worked on so far and the old ones elsewhere.\<close>

definition progress :: "(string \<Rightarrow> item option) \<Rightarrow> (string \<Rightarrow> item option) \<Rightarrow> string set \<Rightarrow> SyncManifest \<Rightarrow> bool" where
  "progress old new T mf \<longleftrightarrow> omap_wf (mf_entries mf) \<and> (\<forall>k. at (baseline_tree mf) k = (if k \<in> T then new k else old k))"

lemma progress_put:
  assumes "progress old new T mf" and "new k = Some (item_of e)"
  shows "progress old new (insert k T) (manifest_put k (manifest_entry e) mf)"
  using assms by (auto simp: progress_def baseline_tree_at manifest_put_def manifest_entry_def item_of_def)

lemma progress_remove:
  assumes "progress old new T mf" and "new k = None"
  shows "progress old new (insert k T) (manifest_remove k mf)"
  using assms by (auto simp: progress_def baseline_tree_at manifest_remove_def)

definition op_records :: "(string \<Rightarrow> item option) \<Rightarrow> SyncOp \<Rightarrow> bool" where
  "op_records new q \<longleftrightarrow> (so_relative_path q \<noteq> [] \<longrightarrow> new (so_relative_path q) = Some (item_of (so_entry q))) \<and>
     (so_relative_path_from q \<noteq> [] \<longrightarrow> new (so_relative_path_from q) = None)"

definition op_keys :: "SyncOp \<Rightarrow> string set" where
  "op_keys q = {so_relative_path q, so_relative_path_from q} - {[]}"

lemma progress_op:
  assumes "progress old new T mf" and "op_records new q"
  shows "progress old new (op_keys q \<union> T) (advance_baseline q mf)"
proof -
  let ?mf1 = "if so_relative_path_from q = [] then mf else manifest_remove (so_relative_path_from q) mf"
  have 1: "progress old new ({so_relative_path_from q} - {[]} \<union> T) ?mf1"
    using assms progress_remove [OF assms(1)] by (simp add: op_records_def)
  have "op_keys q \<union> T = (if so_relative_path q = [] then {so_relative_path_from q} - {[]} \<union> T
      else insert (so_relative_path q) ({so_relative_path_from q} - {[]} \<union> T))" by (auto simp: op_keys_def)
  then show ?thesis using 1 progress_put [OF 1, of "so_relative_path q" "so_entry q"] assms(2)
    by (simp add: advance_baseline_def op_records_def Let_def)
qed

lemma progress_ops:
  assumes "progress old new T mf" and "\<forall>q\<in>set qs. op_records new q"
  shows "progress old new (\<Union> (op_keys ` set qs) \<union> T) (fold advance_baseline qs mf)"
  using assms
proof (induction qs arbitrary: T mf)
  case (Cons q qs)
  then show ?case using Cons.IH [OF progress_op [OF Cons.prems(1)]] by (simp add: Un_assoc Un_left_commute)
qed simp

lemma progress_plan:
  assumes "progress old new T mf" and "\<forall>(k, e)\<in>set kes. new k = Some (item_of e)" and "\<forall>k\<in>set ks. new k = None"
  shows "progress old new (set ks \<union> fst ` set kes \<union> T) (fold manifest_remove ks (fold (\<lambda>(p, e). manifest_put p (manifest_entry e)) kes mf))"
proof -
  have 1: "progress old new (fst ` set kes \<union> T) (fold (\<lambda>(p, e). manifest_put p (manifest_entry e)) kes mf)"
    using assms(1,2) by (induction kes arbitrary: T mf) (auto dest: progress_put, use progress_put in fastforce)
  show ?thesis using 1 assms(3)
  proof (induction ks arbitrary: T mf rule: rev_induct)
    case (snoc k ks)
    then show ?case using progress_remove [of old new _ _ k] by fastforce
  qed simp
qed

section \<open>The recorded baseline\<close>

lemma plan_records:
  assumes m: "mergeable l r b" and q: "q \<in> set (sp_ops (compute_sync_plan V l r b))"
  shows "op_records (\<lambda>k. merged (at l k) (at r k) (at b k)) q"
proof -
  let ?v = "\<lambda>k. merged (at l k) (at r k) (at b k)"
  obtain C mks M rks ups cps where ops: "sp_ops (compute_sync_plan V l r b) = shape V l r b C mks M rks ups cps"
    and mks: "mset mks = mset (picked l r b {Make_Remote})" and rks: "mset rks = mset (picked l r b {Drop_Remote})"
    and M: "\<forall>(k, s)\<in>set M. judge l r b k = New \<and> judge l r b s = Removed \<and>
       sy_hash (the (map_of l k)) = sy_hash (the (map_of r s))"
    and new: "mset (ups @ map fst cps) = mset (filter (\<lambda>k. k \<notin> fst ` set M) (picked l r b {New}))"
    by (rule plan_shape [OF m, of V])
  have J: "?v k = (case judge l r b k of Drop_Remote \<Rightarrow> None | Delete_Local \<Rightarrow> None | Removed \<Rightarrow> None | Forget \<Rightarrow> None | Nothing \<Rightarrow> None
     | Get \<Rightarrow> at r k | Make_Local \<Rightarrow> at r k | _ \<Rightarrow> at l k)" for k
    using merged_judge [OF mergeable_clash [OF m]] mergeable_nothing [OF m] by blast
  have L: "judge l r b k \<in> {Make_Remote, New, Replace, Clash, Reput} \<Longrightarrow> at l k = Some (item_of (the (map_of l k)))" for k
    by (cases "map_of l k"; cases "map_of r k"; cases "map_of b k") (auto simp: judge_def at_def split: if_splits)
  have R: "judge l r b k = Get \<Longrightarrow> at r k = Some (item_of (the (map_of r k)))" for k
    by (cases "map_of l k"; cases "map_of r k"; cases "map_of b k") (auto simp: judge_def at_def split: if_splits)
  have sets: "set mks = {k. judge l r b k = Make_Remote}" "set rks = {k. judge l r b k = Drop_Remote}"
    "set ups \<union> fst ` set cps \<subseteq> {k. judge l r b k = New}"
    using mset_eq_setD [OF mks] mset_eq_setD [OF rks] mset_eq_setD [OF new] by (auto simp: picked_set)
  then have U: "k \<in> set ups \<Longrightarrow> judge l r b k = New" "(k, j) \<in> set cps \<Longrightarrow> judge l r b k = New" for k j by force+
  note ks = op_records_def sync_op_def file_op_def move_op_def delete_op_def
  have "op_records ?v ((sync_op CONFLICT_DOWNLOAD p)\<lparr>so_local_path := p'\<rparr>)" for p p' by (simp add: ks)
  moreover have "judge l r b k = Make_Remote \<Longrightarrow>
      op_records ?v ((sync_op MKDIR_REMOTE (remote_of V k))\<lparr>so_relative_path := k, so_entry := the (map_of l k)\<rparr>)" for k
    by (simp add: ks J L)
  moreover have "judge l r b k = New \<Longrightarrow> judge l r b s = Removed \<Longrightarrow> op_records ?v (move_op V (k, the (map_of l k)) s)" for k s
    by (simp add: ks J L)
  moreover have "p = [] \<or> judge l r b p = Removed \<Longrightarrow> op_records ?v ((delete_op V k)\<lparr>so_relative_path_from := p\<rparr>)" for k p
    by (auto simp: ks J)
  moreover have "judge l r b k = Drop_Remote \<Longrightarrow>
      op_records ?v ((sync_op RMDIR_REMOTE (remote_of V k))\<lparr>so_relative_path_from := k\<rparr>)" for k by (simp add: ks J)
  moreover have "judge l r b k = Get \<Longrightarrow> op_records ?v (file_op DOWNLOAD V k (the (map_of r k)))" for k by (simp add: ks J R)
  moreover have "judge l r b k \<in> {Replace, Clash, Reput, New} \<Longrightarrow> op_records ?v (file_op t V k (the (map_of l k)))"
    "judge l r b k \<in> {Replace, Clash, Reput, New} \<Longrightarrow> op_records ?v ((file_op t V k (the (map_of l k)))\<lparr>so_remote_path_from := z\<rparr>)" for k t z
    using L [of k] by (auto simp: ks J)
  ultimately show ?thesis using q M sets(1,2) U unfolding ops shape_def set_append Un_iff
    by (elim disjE) (auto simp: delete_keys_def picked_set)
qed

lemma plan_covers:
  assumes m: "mergeable l r b" and k: "judge l r b k \<in> {Replace, Clash, Reput, Get, New, Removed, Make_Remote, Drop_Remote}"
  shows "\<exists>q\<in>set (sp_ops (compute_sync_plan V l r b)). k \<in> op_keys q"
proof -
  obtain C mks M rks ups cps where ops: "sp_ops (compute_sync_plan V l r b) = shape V l r b C mks M rks ups cps"
    and mks: "mset mks = mset (picked l r b {Make_Remote})" and rks: "mset rks = mset (picked l r b {Drop_Remote})"
    and new: "mset (ups @ map fst cps) = mset (filter (\<lambda>k. k \<notin> fst ` set M) (picked l r b {New}))"
    by (rule plan_shape [OF m, of V])
  have ne: "k \<noteq> []" using mergeable_key(1) [OF m] wf_key_nonempty k by force
  have keys: "k \<in> op_keys ((sync_op MKDIR_REMOTE (remote_of V k))\<lparr>so_relative_path := k, so_entry := x\<rparr>)"
    "k \<in> op_keys (move_op V (k, x) s)" "k \<in> op_keys (move_op V (s, x) k)" "k \<in> op_keys ((delete_op V k)\<lparr>so_relative_path_from := k\<rparr>)"
    "k \<in> op_keys ((sync_op RMDIR_REMOTE (remote_of V k))\<lparr>so_relative_path_from := k\<rparr>)" "k \<in> op_keys (file_op t V k x)"
    "k \<in> op_keys ((file_op t V k x)\<lparr>so_remote_path_from := z\<rparr>)" for x s t z
    using ne by (simp_all add: op_keys_def sync_op_def move_op_def file_op_def delete_op_def)
  let ?t = "\<lambda>k. if judge l r b k = Get then file_op DOWNLOAD V k (the (map_of r k)) else file_op UPLOAD V k (the (map_of l k))"
  let ?s = "set (shape V l r b C mks M rks ups cps)"
  have inS: "i \<in> set mks \<Longrightarrow> (sync_op MKDIR_REMOTE (remote_of V i))\<lparr>so_relative_path := i, so_entry := the (map_of l i)\<rparr> \<in> ?s"
    "(i, j) \<in> set M \<Longrightarrow> move_op V (i, the (map_of l i)) j \<in> ?s"
    "(i, j) \<in> set (delete_keys l r b M) \<Longrightarrow> (delete_op V i)\<lparr>so_relative_path_from := j\<rparr> \<in> ?s"
    "i \<in> set rks \<Longrightarrow> (sync_op RMDIR_REMOTE (remote_of V i))\<lparr>so_relative_path_from := i\<rparr> \<in> ?s"
    "i \<in> set (picked l r b {Replace, Clash, Reput, Get} @ ups) \<Longrightarrow> ?t i \<in> ?s"
    "(i, j) \<in> set cps \<Longrightarrow> (file_op COPY_REMOTE V i (the (map_of l i)))\<lparr>so_remote_path_from := remote_of V j\<rparr> \<in> ?s" for i j
    unfolding shape_def set_append set_map by force+
  have t: "k \<in> op_keys (?t k)" using keys(6) by simp
  consider "k \<in> set mks" | s where "(k, s) \<in> set M" | s where "(s, k) \<in> set M" | "(k, k) \<in> set (delete_keys l r b M)" | "k \<in> set rks"
    | "k \<in> set (picked l r b {Replace, Clash, Reput, Get} @ ups)" | j where "(k, j) \<in> set cps"
  proof -
    have "judge l r b k = New \<Longrightarrow> k \<in> fst ` set M \<or> k \<in> set ups \<or> k \<in> fst ` set cps"
      using mset_eq_setD [OF new] by (auto simp: picked_set)
    moreover have "judge l r b k = Removed \<Longrightarrow> k \<in> snd ` set M \<or> (k, k) \<in> set (delete_keys l r b M)"
      by (auto simp: delete_keys_def picked_set)
    moreover have "set mks = {k. judge l r b k = Make_Remote}" "set rks = {k. judge l r b k = Drop_Remote}"
      using mset_eq_setD [OF mks] mset_eq_setD [OF rks] by (auto simp: picked_set)
    moreover have "judge l r b k \<in> {Replace, Clash, Reput, Get} \<Longrightarrow> k \<in> set (picked l r b {Replace, Clash, Reput, Get} @ ups)"
      by (simp add: picked_set)
    ultimately show thesis using k that by auto
  qed
  then show ?thesis
  proof cases
    case 1 show ?thesis unfolding ops by (rule bexI [OF _ inS(1) [OF 1]], rule keys(1))
  next case (2 s) show ?thesis unfolding ops by (rule bexI [OF _ inS(2) [OF 2]], rule keys(2))
  next case (3 s) show ?thesis unfolding ops by (rule bexI [OF _ inS(2) [OF 3]], rule keys(3))
  next case 4 show ?thesis unfolding ops by (rule bexI [OF _ inS(3) [OF 4]], rule keys(4))
  next case 5 show ?thesis unfolding ops by (rule bexI [OF _ inS(4) [OF 5]], rule keys(5))
  next case 6 show ?thesis unfolding ops by (rule bexI [OF _ inS(5) [OF 6]], rule t)
  next case (7 j) show ?thesis unfolding ops by (rule bexI [OF _ inS(6) [OF 7]], rule keys(7))
  qed
qed


text \<open>The folders of the example above: the conflict is recorded with the local content, the renamed file under its new name.\<close>

definition demo_manifest_of :: "tree \<Rightarrow> SyncManifest" where
  "demo_manifest_of t = \<lparr>mf_manifest_file = Abs [''m''], mf_remote_dir = ''r'', mf_entries = map (\<lambda>(k, e). (k, manifest_entry e)) t\<rparr>"


end
