(* ===== verification/Modes.thy ===== *)
theory Modes
  imports Prelude
begin

text \<open>
  The two guards that change the mode of the terminal for as long as they live
  (\<^verbatim>\<open>client/src/terminalRaw.cpp\<close>, \<^verbatim>\<open>client/src/terminalNoEcho.cpp\<close>). The device behind the standard input
  is \<^verbatim>\<open>Some\<close> mode when it is a terminal and \<^verbatim>\<open>None\<close> when it is a pipe or a file: there
  \<^verbatim>\<open>tcgetattr\<close> fails and leaves its argument as it was, and \<^verbatim>\<open>tcsetattr\<close> changes nothing.
\<close>

unbundle bit_operations_syntax

section \<open>Modes\<close>

record termios =
  c_iflag :: u32
  c_oflag :: u32
  c_cflag :: u32
  c_lflag :: u32
  c_cc :: "u8 list"

text \<open>The constants of \<^verbatim>\<open>termios.h\<close> on Linux.\<close>

definition ISIG :: u32 where "ISIG = 1"
definition ICANON :: u32 where "ICANON = 2"
definition ECHO :: u32 where "ECHO = 8"
definition VTIME :: nat where "VTIME = 5"
definition VMIN :: nat where "VMIN = 6"
definition NCCS :: nat where "NCCS = 32"

definition tcgetattr :: "termios option \<Rightarrow> termios \<Rightarrow> termios" where
  "tcgetattr tty t = (case tty of None \<Rightarrow> t | Some m \<Rightarrow> m)"

definition tcsetattr :: "termios option \<Rightarrow> termios \<Rightarrow> termios option" where
  "tcsetattr tty t = (case tty of None \<Rightarrow> None | Some _ \<Rightarrow> Some t)"

definition isatty :: "termios option \<Rightarrow> bool" where
  "isatty tty \<longleftrightarrow> tty \<noteq> None"

section \<open>Guards\<close>

text \<open>The members of a guard; \<^verbatim>\<open>mem\<close> is what the memory of the object held before its construction.\<close>

record guard =
  old_mode :: termios
  new_mode :: termios

definition TerminalNoEcho :: "guard \<Rightarrow> termios option \<Rightarrow> guard \<times> termios option" where
  "TerminalNoEcho mem tty =
     (let old = tcgetattr tty (old_mode mem); new = old\<lparr>c_lflag := c_lflag old AND NOT ECHO\<rparr>
      in (\<lparr>old_mode = old, new_mode = new\<rparr>, tcsetattr tty new))"

definition TerminalRaw :: "guard \<Rightarrow> termios option \<Rightarrow> guard \<times> termios option" where
  "TerminalRaw mem tty =
     (let old = tcgetattr tty (old_mode mem);
          new = old\<lparr>c_lflag := c_lflag old AND NOT (ICANON OR ECHO), c_cc := (c_cc old)[VMIN := 1, VTIME := 0]\<rparr>
      in (\<lparr>old_mode = old, new_mode = new\<rparr>, tcsetattr tty new))"

text \<open>Both destructors do the same.\<close>

definition end_guard :: "guard \<Rightarrow> termios option \<Rightarrow> termios option" where
  "end_guard g tty = tcsetattr tty (old_mode g)"

section \<open>What the guards guarantee\<close>

lemmas guard_defs = TerminalRaw_def TerminalNoEcho_def end_guard_def tcgetattr_def tcsetattr_def Let_def

text \<open>A guard gives back the mode it found, whatever the mode became during its life.\<close>

lemma guard_restores:
  "end_guard (fst (TerminalRaw mem tty)) (snd (TerminalRaw mem tty)) = tty"
  "end_guard (fst (TerminalNoEcho mem tty)) (snd (TerminalNoEcho mem tty)) = tty"
  "tty = Some m \<Longrightarrow> end_guard (fst (TerminalRaw mem tty)) (Some m') = tty"
  by (simp_all add: guard_defs split: option.split)

lemma and_not_bit: "bit (a AND NOT b) n \<longleftrightarrow> bit a n \<and> \<not> bit b n" for a b :: u32
  by (auto simp: bit_simps dest: bit_imp_le_length)

text \<open>Raw mode switches off canonical input and echo and nothing else, so signals keep their keys.\<close>

lemma raw_mode_flags:
  assumes "snd (TerminalRaw mem (Some m)) = Some m'"
  shows "bit (c_lflag m') n \<longleftrightarrow> bit (c_lflag m) n \<and> n \<noteq> 1 \<and> n \<noteq> 3"
    and "c_iflag m' = c_iflag m" "c_oflag m' = c_oflag m" "c_cflag m' = c_cflag m"
    and "length (c_cc m) = NCCS \<Longrightarrow> c_cc m' ! VMIN = 1 \<and> c_cc m' ! VTIME = 0 \<and>
      (\<forall>i. i \<noteq> VMIN \<longrightarrow> i \<noteq> VTIME \<longrightarrow> c_cc m' ! i = c_cc m ! i)"
proof -
  have m': "m' = m\<lparr>c_lflag := c_lflag m AND NOT (ICANON OR ECHO), c_cc := (c_cc m)[VMIN := 1, VTIME := 0]\<rparr>"
    using assms by (simp add: guard_defs)
  have flags: "ICANON OR ECHO = 10" by (simp add: ICANON_def ECHO_def)
  have "bit (10 :: u32) n \<longleftrightarrow> n = 1 \<or> n = 3"
    using bit_imp_le_length [of "10 :: u32" n] by (auto simp: bit_numeral_rec less_Suc_eq numeral_eq_Suc)
  then have "bit (c_lflag m AND NOT (ICANON OR ECHO)) n \<longleftrightarrow> bit (c_lflag m) n \<and> n \<noteq> 1 \<and> n \<noteq> 3"
    by (simp only: and_not_bit flags) blast
  then show "bit (c_lflag m') n \<longleftrightarrow> bit (c_lflag m) n \<and> n \<noteq> 1 \<and> n \<noteq> 3" by (simp add: m')
  show "c_iflag m' = c_iflag m" "c_oflag m' = c_oflag m" "c_cflag m' = c_cflag m" unfolding m' by simp_all
  show "length (c_cc m) = NCCS \<Longrightarrow> c_cc m' ! VMIN = 1 \<and> c_cc m' ! VTIME = 0 \<and>
      (\<forall>i. i \<noteq> VMIN \<longrightarrow> i \<noteq> VTIME \<longrightarrow> c_cc m' ! i = c_cc m ! i)"
    unfolding m' by (simp add: VMIN_def VTIME_def NCCS_def)
qed

text \<open>On a standard input that is not a terminal a guard has no effect at all.\<close>

lemma guard_without_terminal:
  "snd (TerminalNoEcho mem None) = None" "snd (TerminalRaw mem None) = None" "end_guard g None = None"
  by (simp_all add: guard_defs)

end
