(* ===== verification/Launch.thy ===== *)
theory Launch
  imports Server ClientFlow Modes
begin

text \<open>
  The two programs from their start to their end: logger and version
  (\<^verbatim>\<open>shared/src/minidrive/logging.cpp\<close>, \<^verbatim>\<open>shared/src/version.cpp\<close>), the rest of the two functions
  \<^verbatim>\<open>main\<close> after the command line was read, and the loop in which asio runs the handlers of the
  client. What the operating system and the libraries answer is the record \<^verbatim>\<open>platform\<close>.
\<close>

section \<open>Logger\<close>

datatype level_enum = L_trace | L_debug | L_info | L_warn | L_err | L_critical | L_off

fun to_spdlog :: "Level \<Rightarrow> level_enum" where
  "to_spdlog trace = L_trace"
| "to_spdlog debug = L_debug"
| "to_spdlog info = L_info"
| "to_spdlog warn = L_warn"
| "to_spdlog err_level = L_err"
| "to_spdlog critical = L_critical"
| "to_spdlog off = L_off"

definition ROTATING_FILE_MAX_SIZE :: nat where "ROTATING_FILE_MAX_SIZE = 5 * 1024 * 1024"
definition ROTATING_FILE_MAX_FILES :: nat where "ROTATING_FILE_MAX_FILES = 3"

datatype sink = Rotating_file string nat nat | Stdout_color

record logger =
  lg_name :: string
  lg_sinks :: "sink list"
  lg_level :: level_enum
  lg_flush_on :: level_enum

text \<open>The default logger after \<^verbatim>\<open>init\<close>; \<^verbatim>\<open>None\<close> when the sink of the file throws because the file cannot be opened.\<close>

definition log_init :: "(string \<Rightarrow> bool) \<Rightarrow> string \<Rightarrow> string \<Rightarrow> Level \<Rightarrow> bool \<Rightarrow> logger option" where
  "log_init opens name file level also_console =
     (if file \<noteq> [] \<and> \<not> opens file then None
      else let sinks = (if file \<noteq> [] then [Rotating_file file ROTATING_FILE_MAX_SIZE ROTATING_FILE_MAX_FILES] else []) @
                       (if also_console then [Stdout_color] else [])
           in Some \<lparr>lg_name = name, lg_sinks = sinks, lg_level = to_spdlog level, lg_flush_on = L_trace\<rparr>)"

section \<open>Platform\<close>

record platform =
  pf_version :: string
  pf_git_describe :: string
  pf_sodium_init :: int
  pf_log_opens :: "string \<Rightarrow> bool"
  pf_stat_dev :: "fpath \<Rightarrow> nat option"
  pf_port_free :: "u16 \<Rightarrow> bool"
  pf_hardware_concurrency :: u32
  pf_resolves :: "string \<Rightarrow> u16 \<Rightarrow> bool"

definition resolved_version :: "platform \<Rightarrow> string" where
  "resolved_version P = (if pf_git_describe P = [] then pf_version P else pf_git_describe P)"

text \<open>How a program ends before its loop starts, or what it starts with.\<close>

datatype 'a launch = Refused arg_error | Sodium_failed | Exception_uncaught | Launched 'a

section \<open>Server\<close>

definition same_device :: "platform \<Rightarrow> StorageTier \<Rightarrow> StorageTier \<Rightarrow> bool" where
  "same_device P a b =
     (case pf_stat_dev P (st_path a) of None \<Rightarrow> False
      | Some i \<Rightarrow> (case pf_stat_dev P (st_path b) of None \<Rightarrow> False | Some j \<Rightarrow> i = j))"

definition shared_warning :: "StorageTier \<Rightarrow> StorageTier \<Rightarrow> string" where
  "shared_warning a b = ''Tiers '' @ quoted (st_name a) @ '' and '' @ quoted (st_name b) @
     '' are on the same filesystem; they are not separate media.''"

fun warn_on_shared_devices :: "platform \<Rightarrow> StorageTier list \<Rightarrow> (level_enum \<times> string) list" where
  "warn_on_shared_devices P [] = []"
| "warn_on_shared_devices P (t # ts) =
     map (\<lambda>t'. (L_warn, shared_warning t t')) (filter (same_device P t) ts) @ warn_on_shared_devices P ts"

fun cmdline :: "string list \<Rightarrow> string" where
  "cmdline [] = []"
| "cmdline [a] = quote @ a @ quote"
| "cmdline (a # as) = quote @ a @ quote @ '' '' @ cmdline as"

definition tier_log :: "string \<Rightarrow> StorageTier \<Rightarrow> level_enum \<times> string" where
  "tier_log dt t = (L_info, ''Storage tier '' @ quoted (st_name t) @ '' -> '' @ string_of_path (st_path t) @
     (if st_name t = dt then '' (default)'' else []))"

record started_server =
  ss_server :: Server
  ss_logger :: logger
  ss_log :: "(level_enum \<times> string) list"
  ss_threads :: u32

text \<open>\<^verbatim>\<open>main\<close> up to the start of the threads; \<^verbatim>\<open>argv\<close> with the program name. Log lines are those given to spdlog.\<close>

definition server_launch :: "'j env \<Rightarrow> platform \<Rightarrow> disk \<Rightarrow> string list \<Rightarrow> started_server launch" where
  "server_launch E P d argv =
     (case parse_args d (tl argv) no_args of Inl e \<Rightarrow> Refused e
      | Inr a \<Rightarrow>
     (case check_args d a of Inl e \<Rightarrow> Refused e
      | Inr (port, cfg) \<Rightarrow>
          if pf_sodium_init P < 0 then Sodium_failed
          else case log_init (pf_log_opens P) ''server'' (sa_log_file a) (level_from_string (sa_log_level a) info) True of
                 None \<Rightarrow> Exception_uncaught
               | Some lg \<Rightarrow>
                   if \<not> pf_port_free P port then Exception_uncaught
                   else case server_start E (new_server d cfg) of
                          None \<Rightarrow> Exception_uncaught
                        | Some s \<Rightarrow> Launched
                            \<lparr>ss_server = s, ss_logger = lg,
                             ss_log = [(L_debug, ''[cmd] '' @ cmdline argv)] @ warn_on_shared_devices P (sc_tiers cfg) @
                               map (tier_log (sc_default_tier cfg)) (sc_tiers cfg) @
                               [(L_info, ''Starting async server (version '' @ resolved_version P @ '') on port '' @ dec (unat port))],
                             ss_threads = max 1 (pf_hardware_concurrency P)\<rparr>))"

section \<open>The loop of the client\<close>

text \<open>
  The client between two handlers: what it is waiting to read from the socket, as \<^verbatim>\<open>read_next\<close> decided
  when it was called, and whether the connection is still being made. A line or a key is read
  when \<^verbatim>\<open>te_reading_line\<close> is set.
\<close>

record process =
  cp_client :: Client
  cp_waits :: expected
  cp_connecting :: bool

datatype client_event =
    Connected | Connect_failed string | Read_line string | Read_key char | Input_failed | Run_posted
  | Got_json bytes | Got_frame ChunkHeader bytes | Net_failed string | Interrupt

text \<open>Which completions can come.\<close>

fun possible :: "client_event \<Rightarrow> process \<Rightarrow> bool" where
  "possible Connected p = cp_connecting p"
| "possible (Connect_failed msg) p = cp_connecting p"
| "possible (Read_line line) p = (te_reading_line (cp_client p) \<and> \<not> te_is_tty (cp_client p))"
| "possible (Read_key ch) p = (te_reading_line (cp_client p) \<and> te_is_tty (cp_client p))"
| "possible Input_failed p = te_reading_line (cp_client p)"
| "possible Run_posted p = (cl_posted (cp_client p) \<noteq> [])"
| "possible (Got_json msg) p = (cp_waits p = Expect_json)"
| "possible (Got_frame ch data) p = (cp_waits p = Expect_chunk \<and> length data = unat (ch_size ch))"
| "possible (Net_failed msg) p = (cp_waits p \<noteq> Nothing_more)"
| "possible Interrupt p = True"

text \<open>After a message the next read is started; \<^verbatim>\<open>read_next\<close> does nothing once the client is leaving.\<close>

definition then_read_next :: "process \<Rightarrow> Client \<Rightarrow> process" where
  "then_read_next p c = p\<lparr>cp_client := c, cp_waits := client_read_next c\<rparr>"

definition on_signal :: "'j client_env \<Rightarrow> Client \<Rightarrow> Client option" where
  "on_signal E c = client_exit E (put_out (endl @ ''Signal received, shutting down...'' @ endl) c)"

fun client_step :: "'j client_env \<Rightarrow> client_event \<Rightarrow> process \<Rightarrow> process option" where
  "client_step E Connected p =
     map_option (\<lambda>c. p\<lparr>cp_client := c, cp_connecting := False, cp_waits := Expect_json\<rparr>) (connected E (cp_client p))"
| "client_step E (Connect_failed msg) p =
     map_option (\<lambda>c. p\<lparr>cp_client := c, cp_connecting := False\<rparr>) (client_handle_error E msg (cp_client p))"
| "client_step E (Read_line line) p = Some (p\<lparr>cp_client := line_read line (cp_client p)\<rparr>)"
| "client_step E (Read_key ch) p = map_option (\<lambda>c. p\<lparr>cp_client := c\<rparr>) (char_read E ch (cp_client p))"
| "client_step E Input_failed p =
     map_option (\<lambda>c. p\<lparr>cp_client := c\<rparr>) (client_exit E ((cp_client p)\<lparr>te_reading_line := False\<rparr>))"
| "client_step E Run_posted p = map_option (\<lambda>c. p\<lparr>cp_client := c\<rparr>) (run_posted E (cp_client p))"
| "client_step E (Got_json msg) p = map_option (then_read_next p) (json_read E msg (cp_client p))"
| "client_step E (Got_frame ch data) p = map_option (then_read_next p) (chunk_read E ch data (cp_client p))"
| "client_step E (Net_failed msg) p =
     map_option (\<lambda>c. p\<lparr>cp_client := c, cp_waits := Nothing_more\<rparr>) (client_handle_error E msg (cp_client p))"
| "client_step E Interrupt p = map_option (\<lambda>c. p\<lparr>cp_client := c\<rparr>) (on_signal E (cp_client p))"

text \<open>
  \<^verbatim>\<open>io_context.run\<close> on a list of events: it returns when the client stopped it, and it throws when a
  handler does. An event that cannot happen is passed over.
\<close>

datatype run_state = Looping process | Returned process | Threw

fun client_loop :: "'j client_env \<Rightarrow> client_event list \<Rightarrow> process \<Rightarrow> run_state" where
  "client_loop E [] p = (if cl_stopped (cp_client p) then Returned p else Looping p)"
| "client_loop E (ev # evs) p =
     (if cl_stopped (cp_client p) then Returned p
      else if \<not> possible ev p then client_loop E evs p
      else case client_step E ev p of None \<Rightarrow> Threw | Some p' \<Rightarrow> client_loop E evs p')"

section \<open>Client\<close>

record started_client =
  sl_process :: process
  sl_logger :: logger
  sl_log :: "(level_enum \<times> string) list"
  sl_raw_guard :: "guard option"

text \<open>\<^verbatim>\<open>connect\<close> resolves the host at once, which throws for an unknown one, and starts to connect.\<close>

definition client_connect :: "platform \<Rightarrow> string \<Rightarrow> u16 \<Rightarrow> Client \<Rightarrow> process option" where
  "client_connect P host port c =
     (if pf_resolves P host port
      then Some \<lparr>cp_client = c\<lparr>cl_socket_open := True\<rparr>, cp_waits = Nothing_more, cp_connecting = True\<rparr>
      else None)"

text \<open>The member \<^verbatim>\<open>raw_guard_\<close>, which the constructor creates only for a terminal.\<close>

definition make_raw_guard :: "guard \<Rightarrow> termios option \<Rightarrow> guard option \<times> termios option" where
  "make_raw_guard mem tty =
     (if isatty tty then (case TerminalRaw mem tty of (g, tty') \<Rightarrow> (Some g, tty')) else (None, tty))"

definition end_raw_guard :: "guard option \<Rightarrow> termios option \<Rightarrow> termios option" where
  "end_raw_guard g tty = (case g of None \<Rightarrow> tty | Some g \<Rightarrow> end_guard g tty)"

text \<open>\<^verbatim>\<open>main\<close> up to the start of the network thread, together with the mode the terminal is left in.\<close>

definition client_launch ::
  "'j client_env \<Rightarrow> platform \<Rightarrow> guard \<Rightarrow> disk \<Rightarrow> string list \<Rightarrow> termios option \<Rightarrow> started_client launch \<times> termios option" where
  "client_launch E P mem d args tty =
     (case client_main args of Inl e \<Rightarrow> (Refused e, tty)
      | Inr (hp, file, level) \<Rightarrow>
          if pf_sodium_init P < 0 then (Sodium_failed, tty)
          else case log_init (pf_log_opens P) ''client'' file level False of
                 None \<Rightarrow> (Exception_uncaught, tty)
               | Some lg \<Rightarrow>
                  (case make_raw_guard mem tty of (g, tty1) \<Rightarrow>
                    (case new_client E d (hp_username hp) (isatty tty) \<bind> client_connect P (hp_host hp) (hp_port hp) of
                       None \<Rightarrow> (Exception_uncaught, tty1)
                     | Some p \<Rightarrow> (Launched
                         \<lparr>sl_process = p, sl_logger = lg,
                          sl_log = [(L_debug, ''MiniDrive client '' @ resolved_version P @ '' connecting to '' @ hp_host hp @
                            '':'' @ dec (unat (hp_port hp)))],
                          sl_raw_guard = g\<rparr>, tty1))))"

text \<open>
  The whole program: the network thread runs the loop, an exception in it is caught there, and
  the end of \<^verbatim>\<open>main\<close> destroys the client with its guard. An exception before that is not caught
  by anybody and ends the process without running destructors.
\<close>

datatype client_end = Not_started "started_client launch" | Still_running process | Client_closed

definition client_program ::
  "'j client_env \<Rightarrow> platform \<Rightarrow> guard \<Rightarrow> disk \<Rightarrow> string list \<Rightarrow> client_event list \<Rightarrow> termios option \<Rightarrow> client_end \<times> termios option" where
  "client_program E P mem d args evs tty =
     (case client_launch E P mem d args tty of
        (Launched s, tty1) \<Rightarrow>
          (case client_loop E evs (sl_process s) of
             Looping p \<Rightarrow> (Still_running p, tty1)
           | _ \<Rightarrow> (Client_closed, end_raw_guard (sl_raw_guard s) tty1))
      | (r, tty1) \<Rightarrow> (Not_started r, tty1))"

section \<open>Laws of the start\<close>

text \<open>The client never logs to its standard output; the server always does.\<close>

lemma client_log_sinks: "client_launch E P mem d args tty = (Launched s, tty1) \<Longrightarrow> Stdout_color \<notin> set (lg_sinks (sl_logger s))"
  unfolding client_launch_def log_init_def Let_def by (auto split: sum.splits prod.splits if_splits option.splits)

lemma server_launch_logs: "server_launch E P d argv = Launched s \<Longrightarrow> Stdout_color \<in> set (lg_sinks (ss_logger s)) \<and> ss_threads s \<ge> 1"
  unfolding server_launch_def log_init_def Let_def by (auto split: sum.splits prod.splits if_splits option.splits)

lemma server_launch_reachable: "server_launch (E :: 'j env) P d argv = Launched s \<Longrightarrow> reachable True ([] :: ('j env \<times> 'j event) list) (ss_server s)"
  unfolding server_launch_def by (auto split: sum.splits prod.splits if_splits option.splits intro: reachable.started)

lemma some_pair_Cons:
  "(\<exists>i k. i < k \<and> k < length (x # xs) \<and> Q ((x # xs) ! i) ((x # xs) ! k)) \<longleftrightarrow>
     (\<exists>y\<in>set xs. Q x y) \<or> (\<exists>i k. i < k \<and> k < length xs \<and> Q (xs ! i) (xs ! k))" (is "?L \<longleftrightarrow> ?R")
proof
  assume ?L
  then obtain i k where ik: "i < Suc k" "k < length xs" "Q ((x # xs) ! i) (xs ! k)"
    by (metis Suc_less_eq length_Cons less_nat_zero_code not0_implies_Suc nth_Cons_Suc)
  show ?R
  proof (cases i)
    case 0
    with ik have "Q x (xs ! k)" "xs ! k \<in> set xs" by simp_all
    then show ?R by blast
  next
    case (Suc j)
    with ik have "j < k" "Q (xs ! j) (xs ! k)" by simp_all
    with ik(2) show ?R by blast
  qed
next
  assume ?R
  then show ?L
  proof (elim disjE bexE exE conjE)
    fix y assume "y \<in> set xs" "Q x y"
    then obtain k where "k < length xs" "xs ! k = y" by (auto simp: in_set_conv_nth)
    with \<open>Q x y\<close> show ?L by (intro exI [of _ 0] exI [of _ "Suc k"]) simp
  next
    fix i k assume "i < k" "k < length xs" "Q (xs ! i) (xs ! k)"
    then show ?L by (intro exI [of _ "Suc i"] exI [of _ "Suc k"]) simp
  qed
qed

text \<open>Every pair of tiers on one device is reported, and nothing else.\<close>

lemma shared_devices_warned:
  "(L_warn, w) \<in> set (warn_on_shared_devices P ts) \<longleftrightarrow>
     (\<exists>i k. i < k \<and> k < length ts \<and> same_device P (ts ! i) (ts ! k) \<and> w = shared_warning (ts ! i) (ts ! k))"
proof (induction ts)
  case (Cons t ts)
  then show ?case using some_pair_Cons [of t ts "\<lambda>a b. same_device P a b \<and> w = shared_warning a b"] by auto
qed simp

end
