(* ===== verification/ClientLoop.thy ===== *)
theory ClientLoop
  imports ClientLaws Launch
begin

text \<open>
  The client as a running program: which of its methods leave it running, how it ends, and that
  between two handlers it waits for the kind of message its state calls for. The predicate
  \<^verbatim>\<open>alive\<close> is carried through all methods; \<^verbatim>\<open>process_ok\<close> is the invariant of the loop.
\<close>

section \<open>A live client\<close>

text \<open>The client is running, connected, and in none of the states \<^verbatim>\<open>S\<close>.\<close>

definition alive :: "ClientState set \<Rightarrow> Client \<Rightarrow> bool" where
  "alive S c \<longleftrightarrow> \<not> te_exiting c \<and> \<not> cl_stopped c \<and> cl_socket_open c \<and> cl_state c \<notin> S"

definition ended :: "Client \<Rightarrow> bool" where
  "ended c \<longleftrightarrow> te_exiting c \<and> cl_stopped c \<and> \<not> cl_socket_open c \<and> cl_state c = EXIT"

abbreviation chunk_states :: "ClientState set" where "chunk_states \<equiv> {UPLOADING, DOWNLOADING}"

lemma alive_fields [simp]:
  "alive S (c\<lparr>cl_disk := d\<rparr>) = alive S c" "alive S (c\<lparr>cl_partmeta := pm\<rparr>) = alive S c" "alive S (c\<lparr>cl_transfer := t\<rparr>) = alive S c"
  "alive S (c\<lparr>cl_log := lg\<rparr>) = alive S c" "alive S (c\<lparr>cl_outbox := ob\<rparr>) = alive S c" "alive S (c\<lparr>cl_posted := ls\<rparr>) = alive S c"
  "alive S (c\<lparr>cl_manifest := m\<rparr>) = alive S c" "alive S (c\<lparr>cl_current_op := op\<rparr>) = alive S c"
  "alive S (c\<lparr>cl_batch_queue := q\<rparr>) = alive S c" "alive S (c\<lparr>cl_batch_active := b\<rparr>) = alive S c"
  "alive S (c\<lparr>cl_batch_mode := bm\<rparr>) = alive S c" "alive S (c\<lparr>cl_batch_label := s\<rparr>) = alive S c"
  "alive S (c\<lparr>cl_advancing := b\<rparr>) = alive S c" "alive S (c\<lparr>cl_advance_pending := b\<rparr>) = alive S c"
  "alive S (c\<lparr>cl_deleted := n\<rparr>) = alive S c" "alive S (c\<lparr>cl_dirs := n\<rparr>) = alive S c"
  "alive S (c\<lparr>cl_conflicts := ls\<rparr>) = alive S c" "alive S (c\<lparr>cl_failed := n\<rparr>) = alive S c" "alive S (c\<lparr>cl_skipped := n\<rparr>) = alive S c"
  "alive S (c\<lparr>cl_sync_local_dir := p\<rparr>) = alive S c" "alive S (c\<lparr>cl_sync_remote_dir := s\<rparr>) = alive S c"
  "alive S (c\<lparr>te_masked := b\<rparr>) = alive S c" "alive S (c\<lparr>te_noecho := b\<rparr>) = alive S c" "alive S (c\<lparr>te_current_prompt := s\<rparr>) = alive S c"
  "alive S (c\<lparr>te_line_buffer := s\<rparr>) = alive S c" "alive S (c\<lparr>te_cursor := n\<rparr>) = alive S c"
  "alive S (c\<lparr>te_reading_line := b\<rparr>) = alive S c" "alive S (c\<lparr>te_stdout := s\<rparr>) = alive S c"
  by (simp_all add: alive_def)

lemma alive_state: "alive S c \<Longrightarrow> st \<notin> S' \<Longrightarrow> alive S' (c\<lparr>cl_state := st\<rparr>)"
  by (simp add: alive_def)

lemma alive_ops [simp]:
  "alive S (put_out s c) = alive S c" "alive S (print k m b c) = alive S c" "alive S (read_line c) = alive S c"
  "alive S (send_text E f req c) = alive S c" "alive S (send_json E req c) = alive S c"
  "alive S (client_send_chunk ch data c) = alive S c" "alive S (save_manifest E mf c) = alive S c"
  "alive S (settle_item E b c) = alive S c" "alive S (begin_batch bm l ops c) = alive S c"
  "alive S (reset_transfer c) = alive S c" "alive S (notify_server fl c) = alive S c" "alive S (set_id i c) = alive S c"
  by (auto simp: alive_def put_out_def print_def read_line_def send_json_def send_text_def Let_def client_send_chunk_def
      batch_defs begin_batch_def reset_transfer_def notify_server_def set_id_def split: option.splits SyncOpType.splits)

text \<open>The sets of states that no command enters.\<close>

abbreviation closed_to :: "ClientState set \<Rightarrow> bool" where
  "closed_to S \<equiv> S \<subseteq> insert EXIT chunk_states"

lemma alive_request:
  assumes "closed_to S" and "alive S c"
  shows "alive S ((send_json E req c)\<lparr>cl_state := PROCESSING\<rparr>)" "alive S ((send_json E req c)\<lparr>cl_state := UPLOAD_INIT\<rparr>)"
    "alive S ((send_json E req c)\<lparr>cl_state := DOWNLOAD_INIT\<rparr>)" "alive S ((send_json E req c)\<lparr>cl_state := SYNC_LISTING\<rparr>)"
    "alive S ((send_json E req c)\<lparr>cl_state := TIERS_LISTING\<rparr>)" "alive S (send_command E cmd f s c)"
  using assms by (auto simp: send_command_def intro!: alive_state)

lemma alive_transfer:
  assumes "closed_to S" and "alive S c" and "\<And>c b. alive S c \<Longrightarrow> alive S (k b c)"
  shows "alive S (do_upload E k l r c)" "alive S (do_download E k r l b c)"
  using assms by (auto simp: do_upload_def do_download_def Let_def intro!: alive_request)

lemma alive_dispatch: "closed_to S \<Longrightarrow> alive S c \<Longrightarrow> alive S (dispatch_op E op c)"
proof -
  assume a: "closed_to S" "alive S c"
  have "alive S (finished_inside E b c)" if "alive S c" for b c using that by (simp add: finished_inside_def)
  then show ?thesis using a
    by (cases "so_type op") (simp_all add: dispatch_op_def do_mkdir_def do_rmdir_def do_delete_def do_move_def do_copy_def
        alive_request alive_transfer)
qed

lemma alive_finish_batch: "closed_to S \<Longrightarrow> alive S c \<Longrightarrow> alive S (finish_batch E c)"
  by (auto simp: finish_batch_def Let_def split: option.split intro!: alive_state)

lemma alive_advance_loop: "alive S c \<Longrightarrow> closed_to S \<Longrightarrow> alive S (advance_loop E c)"
proof (induction E c rule: advance_loop.induct)
  case (1 E c)
  show ?case
  proof (cases "cl_batch_queue c")
    case Nil
    then show ?thesis using "1.prems" by (simp add: advance_loop.simps [of E c] alive_finish_batch)
  next
    case (Cons op ops)
    let ?c = "dispatch_op E op (c\<lparr>cl_advance_pending := False, cl_current_op := Some op, cl_batch_queue := ops\<rparr>)"
    have "alive S ?c" using "1.prems" by (intro alive_dispatch) simp_all
    then show ?thesis using "1.IH" [OF Cons refl] "1.prems"(2) Cons by (simp add: advance_loop.simps [of E c] Let_def)
  qed
qed

lemma alive_batch:
  assumes "closed_to S" and "alive S c"
  shows "alive S (advance_batch_queue E c)" "alive S (command_finished E b c)"
  using assms by (simp_all add: advance_batch_queue_def command_finished_def alive_advance_loop)

lemma alive_command:
  assumes "closed_to S" and "alive S c"
  shows "alive S (run_command E cmd args c)"
proof -
  have refuse: "alive S (refuse k m c)" for k m using assms by (simp add: refuse_def)
  note rules = refuse assms alive_request [OF assms(1)] alive_batch [OF assms(1)] alive_transfer [OF assms(1)]
  have "alive S (cmd_list E args c)" "alive S (cmd_upload E args c)" "alive S (cmd_download E args c)" "alive S (cmd_delete E args c)"
    "alive S (cmd_cd E args c)" "alive S (cmd_mkdir E args c)" "alive S (cmd_rmdir E args c)" "alive S (cmd_tiers E c)"
    "alive S (cmd_set_tier E args c)" "alive S (cmd_move E args c)" "alive S (cmd_copy E args c)"
    by (auto simp: command_defs do_list_def do_mkdir_def do_rmdir_def do_set_tier_def do_delete_def do_move_def do_copy_def Let_def
        split: list.split intro!: rules)
  moreover have "alive S (cmd_sync E args c)" "alive S (cmd_upload_dir E args c)" "alive S (cmd_download_dir E args c)"
    by (auto simp: command_defs Let_def split: list.split option.split intro!: rules)
  moreover have "alive S (cmd_help E c)" using assms by (simp add: cmd_help_def)
  ultimately show ?thesis by (simp add: run_command_def refuse)
qed

text \<open>A method that may throw: what it returns is alive.\<close>

abbreviation lives :: "ClientState set \<Rightarrow> Client option \<Rightarrow> bool" where
  "lives S \<equiv> pred_option (alive S)"

lemma pred_option_bind: "pred_option P m \<Longrightarrow> (\<And>x. P x \<Longrightarrow> pred_option Q (f x)) \<Longrightarrow> pred_option Q (m \<bind> f)"
  by (cases m) simp_all

lemma lives_tables:
  assumes "alive S c"
  shows "lives S (client_mark E i k c)" "lives S (client_save E c)" "lives S (drop_transfer E c)" "lives S (discard_part E c)"
    "lives S (mark_sent k c)"
  using assms
  by (simp_all add: client_mark_def client_save_def drop_transfer_def discard_part_def client_delete_def mark_sent_def Let_def
      option.pred_map comp_def option.pred_True split: prod.split bool.split)

lemma lives_uploading:
  assumes "alive S c"
  shows "lives S (client_uploading c)" "lives S (client_upload_init E c)"
proof -
  have u: "lives S (client_uploading c)" if "alive S c" for c
    using that by (simp add: client_uploading_def Let_def split: option.split)
  show "lives S (client_uploading c)" using assms by (rule u)
  show "lives S (client_upload_init E c)" using assms by (simp add: client_upload_init_def Let_def u split: prod.split)
qed

lemma alive_end_abort: "closed_to S \<Longrightarrow> alive S c \<Longrightarrow> alive S (end_abort E b fl c)"
  by (auto simp: end_abort_def Let_def intro!: alive_batch alive_state)

lemma lives_endings:
  assumes "closed_to S" and "alive S c"
  shows "lives S (client_upload_done E c)" "lives S (client_upload_abort E b n fl c)"
    "lives S (client_download_done E c)" "lives S (client_download_abort E b n fl c)"
proof -
  note abort = option.pred_mono_strong [OF _ alive_end_abort [OF assms(1)]]
  have fin: "alive S c \<Longrightarrow> alive S (command_finished E True (c\<lparr>cl_state := READY\<rparr>))" for c
    using assms(1) by (auto intro!: alive_batch alive_state)
  show "lives S (client_upload_abort E b n fl c)" "lives S (client_download_abort E b n fl c)"
    using assms by (auto simp: client_upload_abort_def client_download_abort_def option.pred_map comp_def
        intro!: abort lives_tables)
  have r: "lives S (drop_transfer E c)" if "alive S c" for c using that by (rule lives_tables)
  show "lives S (client_upload_done E c)" "lives S (client_download_done E c)"
    using assms by (auto simp: client_upload_done_def client_download_done_def Let_def option.pred_map comp_def
        intro!: option.pred_mono_strong [OF r] fin)
qed

lemmas live_rules = lives_tables lives_uploading lives_endings [where S = "{EXIT}", simplified]
  alive_batch [where S = "{EXIT}", simplified] alive_state [where S' = "{EXIT}", simplified]

lemma lives_download:
  assumes "alive {EXIT} c"
  shows "lives {EXIT} (client_download_init E ks h c)" "lives {EXIT} (adopt_id E i c)" "lives {EXIT} (client_downloading E k n data fl c)"
  using assms
  by (auto simp: client_download_init_def adopt_id_def download_prepare_partmeta_def client_downloading_def Let_def live_rules
      split: prod.split bool.split intro!: pred_option_bind [of "alive {EXIT}"])

lemma lives_receive: "alive {EXIT} c \<Longrightarrow> lives {EXIT} (receive_chunk E ch data fl c)"
  by (auto simp: receive_chunk_def live_rules lives_download split: option.split bool.split intro!: pred_option_bind [of "alive {EXIT}"])

section \<open>Exit\<close>

lemma exiting_tables:
  "client_save E c = Some c' \<Longrightarrow> te_exiting c' = te_exiting c" "discard_part E c = Some c' \<Longrightarrow> te_exiting c' = te_exiting c"
  "drop_transfer E c = Some c' \<Longrightarrow> te_exiting c' = te_exiting c"
  by (auto simp: client_save_def drop_transfer_def discard_part_def client_delete_def reset_transfer_def
      split: prod.splits bool.splits)

lemma client_exit_ends: "\<not> te_exiting c \<Longrightarrow> pred_option ended (client_exit E c)"
  by (auto simp: client_exit_def client_finish_exit_def ended_def Let_def client_upload_abort_exit_def client_download_abort_exit_def
      send_json_exit_def send_text_def print_def put_out_def notify_server_def client_send_chunk_def pred_option_def
      split: if_splits dest!: exiting_tables)

lemma handle_error_ends: "\<not> te_exiting c \<Longrightarrow> pred_option ended (client_handle_error E msg c)"
  by (simp add: client_handle_error_def print_def put_out_def client_exit_ends)

text \<open>What a handler leaves: a client that goes on, or one that ended.\<close>

definition fate :: "Client \<Rightarrow> bool" where
  "fate c \<longleftrightarrow> alive {EXIT} c \<or> ended c"

lemma fate_alive: "alive {EXIT} c \<Longrightarrow> fate c"
  by (simp add: fate_def)

lemma fate_lives: "lives {EXIT} m \<Longrightarrow> pred_option fate m"
  by (erule option.pred_mono_strong) (rule fate_alive)

lemma exit_fate: "alive S c \<Longrightarrow> pred_option fate (client_exit E c)"
  using client_exit_ends [of c E] by (auto simp: fate_def alive_def pred_option_def)

lemma error_fate: "alive S c \<Longrightarrow> pred_option fate (client_handle_error E msg c)"
  using handle_error_ends [of c E msg] by (auto simp: fate_def alive_def pred_option_def)

lemma listing_alive:
  assumes "alive {EXIT} c"
  shows "alive {EXIT} (handle_sync_listing E res c)" "alive {EXIT} (handle_tiers_listing E res c)"
proof -
  have del: "alive {EXIT} (delete_locally ps x) = alive {EXIT} x" for ps x
    unfolding delete_locally_def by (induction ps arbitrary: x) (simp_all split: prod.split bool.split)
  have mk: "alive {EXIT} (make_dirs_locally ps x) = alive {EXIT} x" for ps x
    unfolding make_dirs_locally_def by (induction ps arbitrary: x) simp_all
  have batch: "alive {EXIT} x \<Longrightarrow> alive {EXIT} (advance_batch_queue E x)" for x by (rule live_rules)
  show "alive {EXIT} (handle_sync_listing E res c)" using assms
    by (auto simp: handle_sync_listing_def download_dir_batch_def sync_batch_def Let_def split_beta del mk
        split: option.split intro!: batch live_rules)
  show "alive {EXIT} (handle_tiers_listing E res c)" using assms
    by (simp add: handle_tiers_listing_def live_rules)
qed

lemma lives_ok: "alive {EXIT} c \<Longrightarrow> lives {EXIT} (handle_ok E res c)"
  by (simp add: handle_ok_def live_rules listing_alive lives_download)

lemma lives_resume: "alive {EXIT} c \<Longrightarrow> lives {EXIT} (resume_transfer_client E res c)"
  by (simp add: resume_transfer_client_def Let_def live_rules split: option.split)

lemma respond_fate: "alive {EXIT} c \<Longrightarrow> pred_option fate (respond E res c)"
  by (simp add: respond_def on_password_required_def handle_error_status_def Let_def fate_alive fate_lives exit_fate
      live_rules lives_ok lives_resume)

lemma handle_chunk_fate:
  assumes "alive {EXIT} c"
  shows "pred_option fate (client_handle_chunk E ch data c)"
proof -
  note bind = pred_option_bind [of "alive {EXIT}"]
  have "lives {EXIT} (mark_sent k c \<bind> client_mark E i k \<bind> client_uploading)"
    "lives {EXIT} (mark_sent k c \<bind> (\<lambda>c1. client_upload_done E (print m s b c1)))" for k i m s b
    using assms by (auto intro!: bind live_rules)
  moreover have "pred_option fate (client_upload_abort E b n fl c \<bind> (\<lambda>c1. client_exit E (print k m p c1)))"
    "pred_option fate (client_download_abort E b n fl c \<bind> client_exit E)" for b n fl k m p
    using assms by (auto intro!: bind live_rules exit_fate [where S = "{EXIT}"])
  ultimately show ?thesis
    using assms by (simp add: client_handle_chunk_def Let_def fate_alive fate_lives live_rules lives_receive)
qed

section \<open>The loop\<close>

lemma alive_weaken: "alive S c \<Longrightarrow> cl_state c \<notin> S' \<Longrightarrow> alive S' c"
  by (simp add: alive_def)

text \<open>A line keeps the kind of message the client waits for, unless it ends the client.\<close>

definition keeps_reading :: "Client \<Rightarrow> Client \<Rightarrow> bool" where
  "keeps_reading c c' \<longleftrightarrow> ended c' \<or> alive {EXIT} c' \<and> client_read_next c' = client_read_next c"

lemma keeps_reading_state:
  assumes "alive {EXIT} c" and "alive (insert EXIT chunk_states) c'" and "cl_state c \<notin> chunk_states"
  shows "keeps_reading c c'"
  using assms by (auto simp: keeps_reading_def alive_def client_read_next_def)

lemma handle_request_reads:
  assumes "alive {EXIT} c"
  shows "pred_option (keeps_reading c) (client_handle_request E line c)"
proof -
  let ?S = "insert EXIT chunk_states"
  have ex: "pred_option (keeps_reading c) (client_exit E c)"
    using client_exit_ends [of c E] assms by (auto simp: keeps_reading_def alive_def pred_option_def)
  have stay: "keeps_reading c (print k m b c)" for k m b
    using assms by (simp add: keeps_reading_def client_read_next_def)
  have calm: "keeps_reading c c'" if "cl_state c \<notin> chunk_states" "alive ?S c \<Longrightarrow> alive ?S c'" for c'
    using that assms alive_weaken [OF assms, of ?S] by (auto intro!: keeps_reading_state simp: alive_def)
  have req: "alive ?S x \<Longrightarrow> alive ?S (send_command E cmd f s x)" for x cmd f s by (rule alive_request) simp_all
  have inp: "alive ?S c \<Longrightarrow> alive ?S (client_need_input E line c)"
    by (simp add: client_need_input_def Let_def refuse_def req)
  have aut: "alive ?S c \<Longrightarrow> alive ?S (client_auth E line (if te_is_tty c then c\<lparr>te_masked := False, te_current_prompt := PROMPT\<rparr>
      else put_out endl (c\<lparr>te_noecho := False\<rparr>)))"
    by (simp add: client_auth_def req)
  have run: "alive ?S c \<Longrightarrow> alive ?S (run_command E cmd args c)" for cmd args by (rule alive_command) simp_all
  have login: "alive ?S c \<Longrightarrow> alive ?S (client_login E c)" by (simp add: client_login_def)
  have "keeps_reading c c" using assms by (simp add: keeps_reading_def)
  then show ?thesis unfolding client_handle_request_def
    using ex stay calm [OF _ inp] calm [OF _ aut] calm [OF _ run] calm [OF _ login] by (auto split: list.split)
qed

lemma process_char_keeps:
  "te_exiting (snd (process_char ch c)) = te_exiting c" "cl_stopped (snd (process_char ch c)) = cl_stopped c"
  "cl_socket_open (snd (process_char ch c)) = cl_socket_open c" "cl_state (snd (process_char ch c)) = cl_state c" for c :: Client
  by (simp_all add: editor_defs Let_def)

text \<open>
  What holds between two handlers: a client that is not stopped is connected, or still connecting,
  and waits for the kind of message its state calls for; one that is stopped has left for good.
\<close>

definition process_ok :: "process \<Rightarrow> bool" where
  "process_ok p \<longleftrightarrow>
     (let c = cp_client p
      in if cl_stopped c then ended c
         else alive {EXIT} c \<and>
           (if cp_connecting p
            then cl_state c = LOGIN \<and> cp_waits p = Nothing_more \<and> \<not> te_reading_line c \<and> cl_posted c = []
            else cp_waits p = client_read_next c))"

lemma ended_ok: "ended (cp_client p) \<Longrightarrow> process_ok p"
  by (simp add: process_ok_def ended_def)

lemma running_ok: "alive {EXIT} (cp_client p) \<Longrightarrow> \<not> cp_connecting p \<Longrightarrow> cp_waits p = client_read_next (cp_client p) \<Longrightarrow> process_ok p"
  by (simp add: process_ok_def alive_def)

lemma fate_ok: "pred_option fate m \<Longrightarrow> \<not> cp_connecting p \<Longrightarrow> pred_option process_ok (map_option (then_read_next p) m)"
  by (cases m) (auto simp: then_read_next_def fate_def intro: ended_ok running_ok)

lemma keeps_reading_ok:
  assumes "pred_option (keeps_reading c) m" and "\<not> cp_connecting p" and "cp_waits p = client_read_next c"
  shows "pred_option process_ok (map_option (\<lambda>c. p\<lparr>cp_client := c\<rparr>) m)"
  using assms by (cases m) (auto simp: keeps_reading_def intro: ended_ok running_ok)

lemma exit_ok:
  assumes "pred_option ended m" and "\<And>c. cp_client (f c) = c"
  shows "pred_option process_ok (map_option f m)"
  using assms by (cases m) (auto intro: ended_ok)

lemma connected_ok:
  assumes "process_ok p" and "\<not> cl_stopped (cp_client p)" and "cp_connecting p"
  shows "pred_option process_ok (client_step E Connected p)"
proof -
  let ?c = "(cp_client p)\<lparr>cl_socket_open := True\<rparr>"
  have c: "alive {EXIT} ?c" "client_read_next ?c = Expect_json"
    using assms by (auto simp: process_ok_def Let_def alive_def client_read_next_def)
  show ?thesis using handle_request_reads [OF c(1), of E "cl_username (cp_client p)"] c(2)
    by (auto simp: connected_def keeps_reading_def option.pred_map comp_def elim!: option.pred_mono_strong)
      (simp_all add: ended_ok running_ok)
qed

lemma char_read_reads:
  assumes "alive {EXIT} c"
  shows "pred_option (keeps_reading c) (char_read E ch c)"
proof -
  obtain k c1 where k: "process_char ch c = (k, c1)" by force
  then have "alive {EXIT} c1" "client_read_next c1 = client_read_next c" "\<not> te_exiting c1"
    using process_char_keeps [of ch c] assms by (simp_all add: alive_def client_read_next_def)
  then show ?thesis using client_exit_ends [of c1 E]
    by (cases k) (auto simp: char_read_def k keeps_reading_def client_read_next_def pred_option_def)
qed

lemma run_posted_reads:
  assumes "alive {EXIT} c"
  shows "pred_option (keeps_reading c) (run_posted E c)"
proof -
  have "keeps_reading (c\<lparr>cl_posted := ls\<rparr>) = keeps_reading c" for ls
    by (simp add: keeps_reading_def client_read_next_def fun_eq_iff)
  then show ?thesis using assms handle_request_reads [of "c\<lparr>cl_posted := tl (cl_posted c)\<rparr>" E]
    by (cases "cl_posted c") (simp_all add: run_posted_def, simp add: keeps_reading_def)
qed

lemma client_step_ok:
  assumes "process_ok p" and "\<not> cl_stopped (cp_client p)" and "possible ev p"
  shows "pred_option process_ok (client_step E ev p)"
proof -
  let ?c = "cp_client p"
  have a: "alive {EXIT} ?c" "\<not> te_exiting ?c" using assms(1,2) by (auto simp: process_ok_def Let_def alive_def)
  show ?thesis
  proof (cases "cp_connecting p")
    case True
    with assms have "ev = Connected \<or> (\<exists>msg. ev = Connect_failed msg) \<or> ev = Interrupt"
      by (cases ev) (auto simp: process_ok_def Let_def)
    then show ?thesis using connected_ok [OF assms(1,2) True] a
      by (elim disjE exE) (simp_all add: on_signal_def put_out_def exit_ok handle_error_ends client_exit_ends)
  next
    case False
    with assms(1,2) have w: "cp_waits p = client_read_next ?c" by (simp add: process_ok_def Let_def)
    note keep = keeps_reading_ok [OF _ False w]
    show ?thesis
    proof (cases ev)
      case (Read_line line)
      then show ?thesis using a w False by (auto simp: line_read_def client_read_next_def intro!: running_ok)
    next
      case (Read_key ch)
      then show ?thesis using keep [OF char_read_reads [OF a(1)]] by simp
    next
      case Run_posted
      then show ?thesis using keep [OF run_posted_reads [OF a(1)]] by simp
    next
      case (Got_json msg)
      have "pred_option fate (json_read E msg ?c)"
        using a handle_error_ends [of ?c E] by (simp add: json_read_def handle_response_def respond_fate error_fate split: option.split)
      then show ?thesis using Got_json fate_ok False by simp
    next
      case (Got_frame ch data)
      then show ?thesis using a fate_ok [OF handle_chunk_fate False] by (simp add: chunk_read_def)
    qed (use assms(3) False a in \<open>auto simp: on_signal_def put_out_def intro!: exit_ok handle_error_ends client_exit_ends\<close>)
  qed
qed

lemma client_loop_ok:
  assumes "process_ok p"
  shows "case client_loop E evs p of Looping p' \<Rightarrow> process_ok p' \<and> \<not> cl_stopped (cp_client p')
     | Returned p' \<Rightarrow> ended (cp_client p') | Threw \<Rightarrow> True"
  using assms
proof (induction evs arbitrary: p)
  case (Cons ev evs)
  then show ?case using client_step_ok [OF Cons.prems, of ev E]
    by (auto simp: process_ok_def [of p] Let_def split: option.split)
qed (auto simp: process_ok_def Let_def)

section \<open>The client program\<close>

lemma new_client_fields:
  assumes "new_client E d u b = Some c"
  shows "\<not> te_exiting c" "\<not> cl_stopped c" "cl_state c = LOGIN" "\<not> te_reading_line c" "cl_posted c = []"
  using assms by (auto simp: new_client_def Let_def split: prod.splits option.splits)

lemma connect_ok: "new_client E d u b \<bind> client_connect P h port = Some p \<Longrightarrow> process_ok p"
  by (auto simp: client_connect_def process_ok_def Let_def alive_def split: Option.bind_splits if_splits dest: new_client_fields)

lemma raw_guard_life:
  assumes "make_raw_guard mem tty = (g, tty1)"
  shows "end_raw_guard g tty1 = tty"
    and "tty = Some m \<Longrightarrow> tty1 = snd (TerminalRaw mem tty)"
  using assms guard_restores(1) [of mem tty]
  by (auto simp: make_raw_guard_def end_raw_guard_def isatty_def split: if_splits prod.splits)

text \<open>What the start gives: a client that is connecting and its guard, or nothing.\<close>

lemma client_launch_cases:
  assumes "client_launch E P mem d args tty = (l, tty1)"
  obtains (fails) "l \<noteq> Exception_uncaught" "tty1 = tty" "\<And>s. l \<noteq> Launched s"
  | (throws) "l = Exception_uncaught"
  | (starts) s where "l = Launched s" "process_ok (sl_process s)" "make_raw_guard mem tty = (sl_raw_guard s, tty1)"
  using assms connect_ok unfolding client_launch_def
  by (force split: sum.splits prod.splits if_splits option.splits)


text \<open>
  Property (C34). A host that cannot be resolved leaves the user with a terminal without echo: the
  exception of \<^verbatim>\<open>connect\<close> ends the process after the terminal was put into raw mode.
\<close>

theorem unknown_host_leaves_raw_mode:
  assumes "client_main args = Inr (hp, file, level)" and "file = [] \<or> pf_log_opens P file" and "0 \<le> pf_sodium_init P"
    and "\<not> pf_resolves P (hp_host hp) (hp_port hp)"
  shows "\<exists>m'. client_program E P mem d args evs (Some m) = (Not_started Exception_uncaught, Some m') \<and>
    \<not> bit (c_lflag m') 1 \<and> \<not> bit (c_lflag m') 3"
proof -
  obtain m' where m': "snd (TerminalRaw mem (Some m)) = Some m'" by (simp add: guard_defs)
  have "client_connect P (hp_host hp) (hp_port hp) = (\<lambda>_. None)" using assms(4) by (simp add: client_connect_def fun_eq_iff)
  then have "new_client E d u b \<bind> client_connect P (hp_host hp) (hp_port hp) = None" for u b
    by (cases "new_client E d u b") simp_all
  then have "client_launch E P mem d args (Some m) = (Exception_uncaught, Some m')"
    using assms(1-3) m' by (auto simp: client_launch_def log_init_def make_raw_guard_def isatty_def Let_def split_beta)
  then show ?thesis using raw_mode_flags(1) [OF m'] by (simp add: client_program_def)
qed

section \<open>Examples\<close>

definition demo_platform :: platform where
  "demo_platform = \<lparr>pf_version = ''0.2.0'', pf_git_describe = [], pf_sodium_init = 0, pf_log_opens = (\<lambda>_. True),
     pf_stat_dev = (\<lambda>_. Some 1), pf_port_free = (\<lambda>_. True), pf_hardware_concurrency = 4,
     pf_resolves = (\<lambda>h _. h = ''localhost'')\<rparr>"

definition demo_mode :: termios where
  "demo_mode = \<lparr>c_iflag = 0, c_oflag = 0, c_cflag = 0, c_lflag = 11, c_cc = replicate NCCS 0\<rparr>"

definition demo_guard :: guard where
  "demo_guard = \<lparr>old_mode = demo_mode, new_mode = demo_mode\<rparr>"

definition demo_program :: "string list \<Rightarrow> client_event list \<Rightarrow> client_end \<times> termios option" where
  "demo_program args evs = client_program demo_client_env demo_platform demo_guard (disk_of [([], Dir)]) args evs (Some demo_mode)"

lemma demo_client_made: "new_client demo_client_env (disk_of [([], Dir)]) ''ann'' True \<noteq> None"
  by code_simp

lemma demo_program_closes: "fst (demo_program [''ann@localhost:9000''] [Interrupt]) = Client_closed"
proof -
  obtain c where c: "new_client demo_client_env (disk_of [([], Dir)]) ''ann'' True = Some c" using demo_client_made by blast
  have args: "client_main [''ann@localhost:9000''] = Inr (\<lparr>hp_username = ''ann'', hp_host = ''localhost'', hp_port = 9000\<rparr>, [], info)"
    by code_simp
  have "client_loop demo_client_env [Interrupt] \<lparr>cp_client = c\<lparr>cl_socket_open := True\<rparr>, cp_waits = Nothing_more, cp_connecting = True\<rparr>
      = Returned p" if "p = \<lparr>cp_client = the (on_signal demo_client_env (c\<lparr>cl_socket_open := True\<rparr>)), cp_waits = Nothing_more, cp_connecting = True\<rparr>" for p
    using new_client_fields [OF c] that by (simp add: on_signal_def client_exit_def put_out_def Let_def client_finish_exit_def)
  then show ?thesis
    by (simp add: demo_program_def client_program_def client_launch_def args c client_connect_def demo_platform_def log_init_def
        make_raw_guard_def isatty_def split_beta)
qed


theorem unknown_host_leaves_raw_mode_witness:
  "\<exists>m'. demo_program [''nohost:9000''] [] = (Not_started Exception_uncaught, Some m') \<and> \<not> bit (c_lflag m') 1 \<and> \<not> bit (c_lflag m') 3"
proof -
  have "client_main [''nohost:9000''] = Inr (\<lparr>hp_username = [], hp_host = ''nohost'', hp_port = 9000\<rparr>, [], info)" by code_simp
  then show ?thesis unfolding demo_program_def by (rule unknown_host_leaves_raw_mode) (simp_all add: demo_platform_def)
qed

end
