(* ===== verification/Spec2Isabelle.thy ===== *)
theory Spec2Isabelle
  imports Resume ClientSync ClientLoop
begin

text \<open>
  MiniDrive: a client and a server that keep a user's files on the server, with resumable
  transfers in chunks, storage tiers and a two-way synchronisation of folders.

  \<^bold>\<open>Parts of the program and their theories.\<close>

  \<^item> \<^verbatim>\<open>Prelude\<close>, \<^verbatim>\<open>OrdMap\<close>: machine types, decimal numbers, association lists, \<^verbatim>\<open>std::map\<close>.
  \<^item> \<^verbatim>\<open>Paths\<close>, \<^verbatim>\<open>Disk\<close>, \<^verbatim>\<open>Disk_Laws\<close>: \<^verbatim>\<open>std::filesystem\<close>. A path is a list of elements as the library
    splits it; a disk maps absolute paths to files and folders and carries a schedule of failures,
    one bit for each system call that changes it, so that every theorem that does not fix the
    schedule holds for every pattern of disk errors.
  \<^item> \<^verbatim>\<open>Libraries\<close>: libsodium and the JSON library as records of functions with the laws the program
    relies on (\<^verbatim>\<open>json_laws\<close>, \<^verbatim>\<open>json_text\<close>, \<^verbatim>\<open>hex_laws\<close>, \<^verbatim>\<open>hash_multipart\<close>, \<^verbatim>\<open>pwhash_laws\<close>), and reference
    instances that satisfy them.
  \<^item> \<^verbatim>\<open>Protocol\<close>: \<^verbatim>\<open>shared/src/protocol/message.cpp\<close> and the two framings of \<^verbatim>\<open>session.cpp\<close> and
    \<^verbatim>\<open>client.cpp\<close>.
  \<^item> \<^verbatim>\<open>FsUtils\<close>, \<^verbatim>\<open>FsUtils_Laws\<close>, \<^verbatim>\<open>Chunks\<close>: \<^verbatim>\<open>shared/src/filesystem/utils.cpp\<close>. The locales \<^verbatim>\<open>confined_op\<close> and
    \<^verbatim>\<open>confined_op2\<close> state what the session relies on when it changes the disk below a directory,
    \<^verbatim>\<open>text_codec\<close> what a file with a temporary copy and a rename keeps.
  \<^item> \<^verbatim>\<open>PartMeta\<close>: \<^verbatim>\<open>shared/src/filesystem/partmeta.cpp\<close>, the table of unfinished transfers, with a step
    relation for the runs of one table.
  \<^item> \<^verbatim>\<open>Database\<close>, \<^verbatim>\<open>Storage\<close>, \<^verbatim>\<open>Migration\<close>: \<^verbatim>\<open>database.cpp\<close>, \<^verbatim>\<open>password.cpp\<close> and \<^verbatim>\<open>storage.cpp\<close> of the server: users,
    locks, tiers and the move of a user between tiers.
  \<^item> \<^verbatim>\<open>Session\<close>, \<^verbatim>\<open>SessionFlow\<close>, \<^verbatim>\<open>SessionLaws\<close>, \<^verbatim>\<open>SessionAuth\<close>: \<^verbatim>\<open>server/src/session.cpp\<close>. A handler acts on a \<^verbatim>\<open>world\<close>, the
    shared storage with one session; what it sends is appended to an outbox. The locale
    \<^verbatim>\<open>user_mutex\<close> is the contract of the per-user lock.
  \<^item> \<^verbatim>\<open>LockFlow\<close>, \<^verbatim>\<open>Server\<close>, \<^verbatim>\<open>TableFlow\<close>: \<^verbatim>\<open>server/src/server.cpp\<close>. The server keeps its sessions by number over one
    storage; an event (a connection, a request, a chunk, the completion of a last write, a read error)
    runs one handler of one session. \<^verbatim>\<open>LockFlow\<close> gives the effect of every handler on the locks,
    \<^verbatim>\<open>Server\<close> the step relation and its reachable states, \<^verbatim>\<open>TableFlow\<close> what every handler keeps of the
    pointers from sessions to tables of transfers.
  \<^item> \<^verbatim>\<open>SyncDiff\<close>: \<^verbatim>\<open>client/src/sync_diff.cpp\<close>; \<^verbatim>\<open>SyncLaws\<close>, \<^verbatim>\<open>SyncRun\<close>, \<^verbatim>\<open>SyncShape\<close>, \<^verbatim>\<open>SyncMerge\<close>: the abstract three-way
    merge, the effect of a plan on two replicas, and the refinement. \<^verbatim>\<open>SyncManifest\<close>:
    \<^verbatim>\<open>client/src/sync_manifest.cpp\<close>.
  \<^item> \<^verbatim>\<open>Startup\<close>, \<^verbatim>\<open>Launch\<close>: \<^verbatim>\<open>server/src/main.cpp\<close> and \<^verbatim>\<open>client/src/main.cpp\<close>: the command lines, then the logger
    (\<^verbatim>\<open>shared/src/minidrive/logging.cpp\<close>), the version (\<^verbatim>\<open>shared/src/version.cpp\<close>), the start of both programs and
    the event loop of the client. What the operating system answers is the record \<^verbatim>\<open>platform\<close>.
    \<^verbatim>\<open>Modes\<close>: \<^verbatim>\<open>client/src/terminalRaw.cpp\<close> and \<^verbatim>\<open>client/src/terminalNoEcho.cpp\<close>.
  \<^item> \<^verbatim>\<open>Terminal\<close>, \<^verbatim>\<open>Client\<close>, \<^verbatim>\<open>ClientFlow\<close>, \<^verbatim>\<open>ClientLaws\<close>, \<^verbatim>\<open>ClientSync\<close>: \<^verbatim>\<open>client/src/client.cpp\<close>. The terminal with its line
    editor is a record that the client extends; a method acts on the client, which holds its disk,
    its standard output and the messages it has sent. \<^verbatim>\<open>ClientLoop\<close>: the invariant of the running client.
  \<^item> \<^verbatim>\<open>Spell\<close>, \<^verbatim>\<open>FileOps\<close>, \<^verbatim>\<open>Link\<close>, \<^verbatim>\<open>Sender\<close>, \<^verbatim>\<open>Receiver\<close>, \<^verbatim>\<open>Upload\<close>, \<^verbatim>\<open>Serving\<close>, \<^verbatim>\<open>Fetching\<close>, \<^verbatim>\<open>Download\<close>, \<^verbatim>\<open>Resume\<close>: the client and a session at
    the two ends of one connection. \<^verbatim>\<open>link_step\<close> hands the next message over to the handler of the other
    side, provided that side expects its framing; the locale \<^verbatim>\<open>turn_taking\<close> is the contract of a
    transfer chunk by chunk, which both directions meet.

  \<^bold>\<open>What is shown.\<close> The file commands of a session stay below the user's directory, answer once and
  leave the locks as they found them, whatever the disk refuses; nobody becomes a private user
  without the password; a tier change loses nothing. Chunks reassemble to the file they were cut
  from, in any order; the framings and the JSON forms are lossless. The plan of a synchronisation
  carries both sides to the three-way merge, and the client records exactly that merge. An upload and a
  download, followed over the connection from the command to the end, bring the content of the file
  to the other side, leave both sides ready and the lock free, and change nothing else but the tables
  of transfers; an interrupted transfer that the user agrees to resume goes on at the first chunk without
  acknowledgement and ends in the same way. As long as no session ends while another one of its user works, the taken locks are
  those of the sessions at work and no two of them work for one user; in every run every session past
  its login has a table, and the shutdown ends every session. The client
  alternates between prompting and waiting, accounts for every item of a batch, keeps passwords out of
  log, screen and history, and its editor shows what it holds. In every run it waits for the framing
  its state calls for, and it gives the terminal back as it found it unless its start throws.

  \<^bold>\<open>Loops and fuel.\<close> Loops are structural recursions or functions with a termination proof. The only
  fuel is that of the loop that orders renames (\<^verbatim>\<open>kahn_loop\<close>, as many rounds as renames, shown to
  be enough) and of the recursive copy of a directory (\<^verbatim>\<open>copy_tree\<close>, whose bound is the limit of open
  files at which the real recursion fails).

  \<^bold>\<open>Not modelled.\<close> The asio calls, threads and timers: every session chains its reads, so that its own
  handlers follow each other, and the model runs each handler to its end; the interleaving of the
  system calls of two sessions inside a handler is left out. The connection of \<^verbatim>\<open>Link\<close> delivers every
  message once and in order, as TCP does, and carries JSON values, not their texts. What spdlog does with a
  line, and the standard error stream. Symbolic links and permissions of the file system.
\<close>

end
